(* ===== verification/Uni_Prelude.thy ===== *)
theory Uni_Prelude
  imports Main "HOL-Library.Word" "HOL-Library.Monad_Syntax"
begin

text \<open>
  Shared vocabulary of the development: the C integer types as words of their width (the
  model takes the 32-bit target, so \<^verbatim>\<open>size_t\<close> and \<^verbatim>\<open>BaseType_t\<close> have 32 bits), bounded
  reads and writes of C arrays (an access outside the array is the value \<open>None\<close>), the part
  of the C string library the sources use, and the generic lemmas on lists, words and
  options that the component theories share.
\<close>

section \<open>Integer types\<close>

type_synonym u8 = "8 word"
type_synonym u16 = "16 word"
type_synonym u32 = "32 word"
type_synonym u64 = "64 word"
type_synonym size_t = "32 word"

text \<open>Facts that compute with C integers and arrays; \<open>simp add: c_arith\<close> uses them all.\<close>

named_theorems c_arith

text \<open>\<^verbatim>\<open>FreeRTOS_min_size_t\<close>, \<^verbatim>\<open>uni_common_math_min\<close> and \<^verbatim>\<open>uni_common_math_min3\<close>.\<close>

definition c_min :: "size_t \<Rightarrow> size_t \<Rightarrow> size_t" where
  "c_min a b = (if a \<le> b then a else b)"

definition c_min3 :: "size_t \<Rightarrow> size_t \<Rightarrow> size_t \<Rightarrow> size_t" where
  "c_min3 a b c = c_min a (c_min b c)"

section \<open>Arrays\<close>

text \<open>
  \<open>mem_read a off n\<close> reads \<open>n\<close> consecutive elements and \<open>mem_write a off xs\<close> writes
  the elements of \<open>xs\<close>; both are \<open>None\<close> when the range leaves the array, which in C is
  undefined behaviour.  A theorem that an operation returns \<open>Some\<close> is a memory-safety
  theorem.
\<close>

definition mem_read :: "'a list \<Rightarrow> nat \<Rightarrow> nat \<Rightarrow> 'a list option" where
  "mem_read a off n = (if off + n \<le> length a then Some (take n (drop off a)) else None)"

definition mem_write :: "'a list \<Rightarrow> nat \<Rightarrow> 'a list \<Rightarrow> 'a list option" where
  "mem_write a off xs =
     (if off + length xs \<le> length a
      then Some (take off a @ xs @ drop (off + length xs) a) else None)"

definition mem_get :: "'a list \<Rightarrow> nat \<Rightarrow> 'a option" where
  "mem_get a i = (if i < length a then Some (a ! i) else None)"

section \<open>Generic lemmas\<close>

lemma mem_read_Some [c_arith]:
  "off + n \<le> length a \<Longrightarrow> mem_read a off n = Some (take n (drop off a))"
  by (simp add: mem_read_def)

lemma mem_write_Some [c_arith]:
  "off + length xs \<le> length a
   \<Longrightarrow> mem_write a off xs = Some (take off a @ xs @ drop (off + length xs) a)"
  by (simp add: mem_write_def)

lemma mem_get_Some [c_arith]: "i < length a \<Longrightarrow> mem_get a i = Some (a ! i)"
  by (simp add: mem_get_def)

lemma length_mem_write: "mem_write a off xs = Some b \<Longrightarrow> length b = length a"
  by (auto simp: mem_write_def split: if_splits)

lemma nth_splice:
  assumes "off + length xs \<le> length a" and "i < length a"
  shows "(take off a @ xs @ drop (off + length xs) a) ! i =
         (if off \<le> i \<and> i < off + length xs then xs ! (i - off) else a ! i)"
  using assms by (auto simp: nth_append min_def)

lemma unat_c_min [c_arith]: "unat (c_min a b) = min (unat a) (unat b)"
  by (simp add: c_min_def word_le_nat_alt min_def)

lemma unat_c_min3 [c_arith]: "unat (c_min3 a b c) = min (unat a) (min (unat b) (unat c))"
  by (simp add: c_min3_def unat_c_min)

lemma unat_sub_le [c_arith]: "b \<le> a \<Longrightarrow> unat (a - b) = unat a - unat (b :: 'n::len word)"
  by (rule unat_sub)

lemma unat_plus_no_wrap [c_arith]:
  "unat a + unat b < 2 ^ LENGTH('n) \<Longrightarrow> unat (a + b) = unat a + unat (b :: 'n::len word)"
  by (simp add: unat_word_ariths)

lemma unat_of_nat_small [c_arith]: "n < 2 ^ LENGTH('n) \<Longrightarrow> unat (of_nat n :: 'n::len word) = n"
  by (simp add: unat_of_nat)

lemma unat_of_nat_32: "n < 4294967296 \<Longrightarrow> unat (of_nat n :: u32) = n"
  by (simp add: unat_of_nat)

lemma unat_bound: "unat (x :: 'n::len word) < 2 ^ LENGTH('n)"
  by (rule unsigned_less)

lemma unat_of_int_small: "0 \<le> r \<Longrightarrow> r < 4294967296 \<Longrightarrow> unat (of_int r :: u32) = nat r"
  by (elim nonneg_int_cases) (simp add: unat_of_nat_32)

lemma word_le_sub_add:
  assumes "(a :: u32) \<le> b" and "unat k \<le> unat (b - a)"
  shows "a + k \<le> b"
  using assms unat_sub_le [OF assms(1)] unat_bound [of b] unat_plus_no_wrap [of a k]
  by (simp add: word_le_nat_alt)

lemma unat_if_sub:
  "unat (if b \<le> a then a - b else a) = (if unat b \<le> unat a then unat a - unat b else unat (a :: 'n::len word))"
  by (simp add: word_le_nat_alt unat_sub)

lemma mod_add_lt: "a < n \<Longrightarrow> b < n \<Longrightarrow> (a + b) mod n = (if a + b < n then a + b else a + b - n)"
  for a :: nat
  by (simp add: le_mod_geq)

lemma mod_sub_lt: "j < n \<Longrightarrow> k < n \<Longrightarrow> (j + n - k) mod n = (if k \<le> j then j - k else j + n - k)"
  for j :: nat
  by (auto simp: le_mod_geq)

text \<open>
  Reading and writing a run of elements of a circular array in at most two pieces: the part
  up to the end of the array and the part from its start.
\<close>

lemma ring_read:
  assumes "length a = m" and "k < m" and "n \<le> m"
  shows "take (min (m - k) n) (drop k a) @ take (n - min (m - k) n) a =
         map (\<lambda>i. a ! ((k + i) mod m)) [0..<n]"
proof (rule nth_equalityI)
  show "length (take (min (m - k) n) (drop k a) @ take (n - min (m - k) n) a) =
      length (map (\<lambda>i. a ! ((k + i) mod m)) [0..<n])"
    using assms by simp
  fix i assume "i < length (take (min (m - k) n) (drop k a) @ take (n - min (m - k) n) a)"
  then have i: "i < n" using assms by simp
  show "(take (min (m - k) n) (drop k a) @ take (n - min (m - k) n) a) ! i =
      map (\<lambda>i. a ! ((k + i) mod m)) [0..<n] ! i"
  proof (cases "i < m - k")
    case True
    with i assms show ?thesis by (simp add: nth_append)
  next
    case False
    with i assms have "(k + i) mod m = i - (m - k)" by (simp add: le_mod_geq)
    with False i assms show ?thesis by (simp add: nth_append)
  qed
qed

text \<open>The distance from index \<open>l\<close> forward to index \<open>u\<close> in a circular array of length \<open>m\<close>.\<close>

definition ring_dist :: "nat \<Rightarrow> nat \<Rightarrow> nat \<Rightarrow> nat" where
  "ring_dist m l u = (if l \<le> u then u - l else m + u - l)"

lemma ring_dist_advance_lower:
  assumes "l < m" and "u < m" and "c \<le> ring_dist m l u"
  shows "ring_dist m ((l + c) mod m) u = ring_dist m l u - c"
proof (cases "l + c < m")
  case True
  with assms show ?thesis by (auto simp: ring_dist_def split: if_splits)
next
  case False
  have "l + c - m < m"
    using assms by (auto simp: ring_dist_def split: if_splits)
  with False have "(l + c) mod m = l + c - m"
    by (simp add: le_mod_geq)
  with False assms show ?thesis by (auto simp: ring_dist_def split: if_splits)
qed

lemma ring_dist_advance_upper:
  assumes "l < m" and "u < m" and "ring_dist m l u + c < m"
  shows "ring_dist m l ((u + c) mod m) = ring_dist m l u + c"
proof (cases "u + c < m")
  case True
  with assms show ?thesis by (auto simp: ring_dist_def split: if_splits)
next
  case False
  have "u + c - m < m"
    using assms by (auto simp: ring_dist_def split: if_splits)
  with False have "(u + c) mod m = u + c - m"
    by (simp add: le_mod_geq)
  with False assms show ?thesis by (auto simp: ring_dist_def split: if_splits)
qed

lemma ring_index_back:
  fixes i :: nat
  assumes "i < m" and "k < m" and "t < m"
  shows "((t + i) mod m + m - (t + k) mod m) mod m = (if k \<le> i then i - k else m + i - k)"
proof -
  have "((t + i) mod m + m - (t + k) mod m) mod m =
      (if (t + k) mod m \<le> (t + i) mod m then (t + i) mod m - (t + k) mod m
       else (t + i) mod m + m - (t + k) mod m)"
    using assms by (intro mod_sub_lt) auto
  with assms show ?thesis
    by (auto simp: mod_add_lt [of t m i] mod_add_lt [of t m k])
qed

definition ring_write :: "'a list \<Rightarrow> nat \<Rightarrow> 'a list \<Rightarrow> 'a list" where
  "ring_write a k d =
     map (\<lambda>j. let i = (j + length a - k) mod length a in if i < length d then d ! i else a ! j)
       [0..<length a]"

lemma length_ring_write [simp]: "length (ring_write a k d) = length a"
  by (simp add: ring_write_def)

lemma nth_ring_write:
  "j < length a \<Longrightarrow> ring_write a k d ! j =
     (let i = (j + length a - k) mod length a in if i < length d then d ! i else a ! j)"
  by (simp add: ring_write_def Let_def)

lemma ring_write_two_pieces:
  assumes k: "k < length a" and d: "length d \<le> length a"
    and f_def: "f = min (length a - k) (length d)"
    and a1_def: "a1 = take k a @ take f d @ drop (k + f) a"
  shows "(if f < length d then drop f d @ drop (length d - f) a1 else a1) = ring_write a k d"
proof (rule nth_equalityI)
  have l1: "length a1 = length a"
    using k by (simp add: a1_def f_def)
  show "length (if f < length d then drop f d @ drop (length d - f) a1 else a1) = length (ring_write a k d)"
    using l1 k d by (auto simp: f_def)
  fix j assume "j < length (if f < length d then drop f d @ drop (length d - f) a1 else a1)"
  then have j: "j < length a"
    using l1 k d by (auto simp: f_def split: if_splits)
  have n1: "a1 ! i = (if k \<le> i \<and> i < k + f then d ! (i - k) else a ! i)" if "i < length a" for i
    using that k by (auto simp: a1_def f_def nth_append min_def)
  have w: "ring_write a k d ! j =
      (let i = (if k \<le> j then j - k else j + length a - k) in if i < length d then d ! i else a ! j)"
    using j k by (simp add: nth_ring_write mod_sub_lt)
  show "(if f < length d then drop f d @ drop (length d - f) a1 else a1) ! j = ring_write a k d ! j"
  proof (cases "f < length d")
    case True
    then have f: "f = length a - k" using f_def by simp
    have "(drop f d @ drop (length d - f) a1) ! j = (if j < length d - f then d ! (f + j) else a1 ! j)"
      using True d l1 j by (simp add: nth_append)
    with True f w n1 [OF j] k d j show ?thesis by (auto simp: Let_def add.commute)
  next
    case False
    then have "f = length d" and "length d \<le> length a - k" using f_def by auto
    with False w n1 [OF j] k d j show ?thesis by (auto simp: Let_def)
  qed
qed

end
