(* ===== verification/Stream_Buffer.thy ===== *)
theory Stream_Buffer
  imports Uni_Prelude
begin

text \<open>
  The circular stream buffer of FreeRTOS+TCP (\<^verbatim>\<open>FreeRTOS_Stream_Buffer.c\<close>), on which every
  TCP socket that Uni.Net uses stores its incoming and outgoing bytes.  The record and the
  functions keep the names of the source; a pointer argument that may be \<^verbatim>\<open>NULL\<close> is an
  \<open>option\<close>, and an access outside \<^verbatim>\<open>ucArray\<close> or the caller's array makes the operation
  return \<open>None\<close>.  The element type is a parameter: the code never looks at the bytes.
\<close>

section \<open>Definitions\<close>

record 'a stream_buffer =
  uxTail :: size_t
  uxMid :: size_t
  uxHead :: size_t
  uxFront :: size_t
  sbLENGTH :: size_t
  ucArray :: "'a list"

definition uxStreamBufferSpace :: "'a stream_buffer \<Rightarrow> size_t \<Rightarrow> size_t \<Rightarrow> size_t" where
  "uxStreamBufferSpace b uxLower uxUpper =
     (let uxLength = sbLENGTH b;
          uxCount = uxLength + uxUpper - uxLower - 1
      in if uxLength \<le> uxCount then uxCount - uxLength else uxCount)"

definition uxStreamBufferDistance :: "'a stream_buffer \<Rightarrow> size_t \<Rightarrow> size_t \<Rightarrow> size_t" where
  "uxStreamBufferDistance b uxLower uxUpper =
     (let uxLength = sbLENGTH b;
          uxCount = uxLength + uxUpper - uxLower
      in if uxLength \<le> uxCount then uxCount - uxLength else uxCount)"

definition uxStreamBufferGetSpace :: "'a stream_buffer \<Rightarrow> size_t" where
  "uxStreamBufferGetSpace b = uxStreamBufferSpace b (uxHead b) (uxTail b)"

definition uxStreamBufferFrontSpace :: "'a stream_buffer \<Rightarrow> size_t" where
  "uxStreamBufferFrontSpace b = uxStreamBufferSpace b (uxFront b) (uxTail b)"

definition uxStreamBufferGetSize :: "'a stream_buffer \<Rightarrow> size_t" where
  "uxStreamBufferGetSize b = uxStreamBufferDistance b (uxTail b) (uxHead b)"

definition uxStreamBufferMidSpace :: "'a stream_buffer \<Rightarrow> size_t" where
  "uxStreamBufferMidSpace b = uxStreamBufferDistance b (uxMid b) (uxHead b)"

definition vStreamBufferClear :: "'a stream_buffer \<Rightarrow> 'a stream_buffer" where
  "vStreamBufferClear b = b\<lparr>uxHead := 0, uxTail := 0, uxFront := 0, uxMid := 0\<rparr>"

text \<open>The source writes \<^verbatim>\<open>if( x >= uxLength ) x -= uxLength;\<close> after every increment.\<close>

definition sb_wrap :: "'a stream_buffer \<Rightarrow> size_t \<Rightarrow> size_t" where
  "sb_wrap b x = (if sbLENGTH b \<le> x then x - sbLENGTH b else x)"

definition vStreamBufferMoveMid :: "'a stream_buffer \<Rightarrow> size_t \<Rightarrow> 'a stream_buffer" where
  "vStreamBufferMoveMid b uxCount =
     (let uxSize = uxStreamBufferMidSpace b;
          uxMoveCount = (if uxSize < uxCount then uxSize else uxCount)
      in b\<lparr>uxMid := sb_wrap b (uxMid b + uxMoveCount)\<rparr>)"

definition xStreamBufferLessThenEqual :: "'a stream_buffer \<Rightarrow> size_t \<Rightarrow> size_t \<Rightarrow> bool" where
  "xStreamBufferLessThenEqual b uxLeft uxRight \<longleftrightarrow> uxLeft - uxTail b \<le> uxRight - uxTail b"

text \<open>The pointer stored in \<^verbatim>\<open>*ppucData\<close> is the index \<^verbatim>\<open>uxTail\<close> into \<^verbatim>\<open>ucArray\<close>.\<close>

definition uxStreamBufferGetPtr :: "'a stream_buffer \<Rightarrow> size_t \<times> nat" where
  "uxStreamBufferGetPtr b =
     (let uxNextTail = uxTail b;
          uxSize = uxStreamBufferGetSize b
      in (c_min uxSize (sbLENGTH b - uxNextTail), unat uxNextTail))"

definition uxStreamBufferAdd ::
    "'a stream_buffer \<Rightarrow> size_t \<Rightarrow> 'a list option \<Rightarrow> size_t \<Rightarrow> (size_t \<times> 'a stream_buffer) option" where
  "uxStreamBufferAdd b uxOffset pucData uxByteCount =
     (let uxSpace = uxStreamBufferGetSpace b;
          uxSpace = (if uxOffset < uxSpace then uxSpace - uxOffset else 0);
          uxCount = c_min uxSpace uxByteCount
      in if uxCount = 0 then Some (0, b)
         else
           let uxLength = sbLENGTH b;
               uxNextHead = (if uxOffset \<noteq> 0 then sb_wrap b (uxHead b + uxOffset) else uxHead b)
           in do {
             arr \<leftarrow> (case pucData of
                 None \<Rightarrow> Some (ucArray b)
               | Some data \<Rightarrow>
                   let uxFirst = c_min (uxLength - uxNextHead) uxCount
                   in do {
                     d1 \<leftarrow> mem_read data 0 (unat uxFirst);
                     a1 \<leftarrow> mem_write (ucArray b) (unat uxNextHead) d1;
                     if uxFirst < uxCount
                     then do {
                       d2 \<leftarrow> mem_read data (unat uxFirst) (unat (uxCount - uxFirst));
                       mem_write a1 0 d2
                     }
                     else Some a1
                   });
             let uxNextHead' = (if uxOffset = 0 then sb_wrap b (uxNextHead + uxCount) else uxNextHead);
                 b1 = b\<lparr>ucArray := arr\<rparr>;
                 b2 = (if uxOffset = 0 then b1\<lparr>uxHead := uxNextHead'\<rparr> else b1);
                 b3 = (if xStreamBufferLessThenEqual b2 (uxFront b2) uxNextHead'
                       then b2\<lparr>uxFront := uxNextHead'\<rparr> else b2)
             in Some (uxCount, b3)
           })"

text \<open>
  The result holds the count, the bytes stored in \<^verbatim>\<open>pucData\<close> (none when the caller passes
  \<^verbatim>\<open>NULL\<close>, that is \<open>want = False\<close>) and the buffer.
\<close>

definition uxStreamBufferGet ::
    "'a stream_buffer \<Rightarrow> size_t \<Rightarrow> bool \<Rightarrow> size_t \<Rightarrow> bool
     \<Rightarrow> (size_t \<times> 'a list \<times> 'a stream_buffer) option" where
  "uxStreamBufferGet b uxOffset want uxMaxCount xPeek =
     (let uxSize = uxStreamBufferGetSize b;
          uxSize = (if uxOffset < uxSize then uxSize - uxOffset else 0);
          uxCount = c_min uxSize uxMaxCount
      in if uxCount = 0 then Some (0, [], b)
         else
           let uxLength = sbLENGTH b;
               uxNextTail = (if uxOffset \<noteq> 0 then sb_wrap b (uxTail b + uxOffset) else uxTail b)
           in do {
             data \<leftarrow> (if want
               then
                 let uxFirst = c_min (uxLength - uxNextTail) uxCount
                 in do {
                   d1 \<leftarrow> mem_read (ucArray b) (unat uxNextTail) (unat uxFirst);
                   if uxFirst < uxCount
                   then do {
                     d2 \<leftarrow> mem_read (ucArray b) 0 (unat (uxCount - uxFirst));
                     Some (d1 @ d2)
                   }
                   else Some d1
                 }
               else Some []);
             Some (uxCount, data,
               if \<not> xPeek \<and> uxOffset = 0
               then b\<lparr>uxTail := sb_wrap b (uxNextTail + uxCount)\<rparr> else b)
           })"

section \<open>Well-formed buffers and their contents\<close>

text \<open>
  A buffer is well formed when its markers are indices of \<^verbatim>\<open>ucArray\<close> and its length is a
  size the 32-bit target can allocate twice over (so that the sum of two indices does not
  wrap around).
\<close>

definition sb_wf :: "'a stream_buffer \<Rightarrow> bool" where
  "sb_wf b \<longleftrightarrow> 0 < unat (sbLENGTH b) \<and> unat (sbLENGTH b) \<le> 2 ^ 31
     \<and> length (ucArray b) = unat (sbLENGTH b)
     \<and> unat (uxTail b) < unat (sbLENGTH b) \<and> unat (uxHead b) < unat (sbLENGTH b)
     \<and> unat (uxMid b) < unat (sbLENGTH b) \<and> unat (uxFront b) < unat (sbLENGTH b)"

text \<open>\<open>sb_view b n\<close>: the \<open>n\<close> elements that follow the tail in circular order.\<close>

definition sb_view :: "'a stream_buffer \<Rightarrow> nat \<Rightarrow> 'a list" where
  "sb_view b n =
     map (\<lambda>i. ucArray b ! ((unat (uxTail b) + i) mod unat (sbLENGTH b))) [0..<n]"

definition sb_contents :: "'a stream_buffer \<Rightarrow> 'a list" where
  "sb_contents b = sb_view b (unat (uxStreamBufferGetSize b))"

definition sb_capacity :: "'a stream_buffer \<Rightarrow> nat" where
  "sb_capacity b = unat (sbLENGTH b) - 1"

lemma sb_wfD:
  assumes "sb_wf b"
  shows "0 < unat (sbLENGTH b)" and "unat (sbLENGTH b) \<le> 2147483648"
    and "length (ucArray b) = unat (sbLENGTH b)"
    and "unat (uxTail b) < unat (sbLENGTH b)" and "unat (uxHead b) < unat (sbLENGTH b)"
    and "unat (uxMid b) < unat (sbLENGTH b)" and "unat (uxFront b) < unat (sbLENGTH b)"
  using assms by (auto simp: sb_wf_def)

section \<open>Index arithmetic\<close>

lemma unat_sb_wrap:
  assumes "unat (sbLENGTH b) \<le> 2147483648" and "unat x < unat (sbLENGTH b)" and "unat n \<le> unat (sbLENGTH b)"
  shows "unat (sb_wrap b (x + n)) = (unat x + unat n) mod unat (sbLENGTH b)"
proof -
  have s: "unat (x + n) = unat x + unat n"
    using assms by (intro unat_plus_no_wrap) simp
  show ?thesis
  proof (cases "sbLENGTH b \<le> x + n")
    case True
    then have "unat (sb_wrap b (x + n)) = unat x + unat n - unat (sbLENGTH b)"
      by (simp add: sb_wrap_def unat_sub s)
    with True s assms show ?thesis
      by (simp add: word_le_nat_alt mod_if)
  next
    case False
    with s show ?thesis
      by (simp add: sb_wrap_def word_le_nat_alt not_le)
  qed
qed

lemma unat_distance:
  assumes "unat (sbLENGTH b) \<le> 2147483648"
    and "unat l < unat (sbLENGTH b)" and "unat u < unat (sbLENGTH b)"
  shows "unat (uxStreamBufferDistance b l u) = ring_dist (unat (sbLENGTH b)) (unat l) (unat u)"
proof -
  let ?L = "sbLENGTH b"
  have s: "unat (?L + u) = unat ?L + unat u"
    using assms by (intro unat_plus_no_wrap) simp
  have le: "l \<le> ?L + u"
    using assms s by (simp add: word_le_nat_alt)
  have c: "unat (?L + u - l) = unat ?L + unat u - unat l"
    using unat_sub [OF le] s by simp
  show ?thesis
    using assms by (auto simp: uxStreamBufferDistance_def Let_def unat_if_sub c ring_dist_def)
qed

lemma unat_space:
  assumes "0 < unat (sbLENGTH b)" and "unat (sbLENGTH b) \<le> 2147483648"
    and "unat l < unat (sbLENGTH b)" and "unat u < unat (sbLENGTH b)"
  shows "unat (uxStreamBufferSpace b l u) =
         (if unat l < unat u then unat u - unat l - 1 else unat (sbLENGTH b) + unat u - unat l - 1)"
proof -
  let ?L = "sbLENGTH b"
  have s: "unat (?L + u) = unat ?L + unat u"
    using assms by (intro unat_plus_no_wrap) simp
  have le: "l \<le> ?L + u"
    using assms s by (simp add: word_le_nat_alt)
  have c: "unat (?L + u - l) = unat ?L + unat u - unat l"
    using unat_sub [OF le] s by simp
  have one: "1 \<le> ?L + u - l"
    using c assms by (simp add: word_le_nat_alt)
  have d: "unat (?L + u - l - 1) = unat ?L + unat u - unat l - 1"
    using unat_sub [OF one] c by simp
  show ?thesis
    using assms by (auto simp: uxStreamBufferSpace_def Let_def unat_if_sub d)
qed

lemma unat_size:
  assumes "sb_wf b"
  shows "unat (uxStreamBufferGetSize b) = ring_dist (unat (sbLENGTH b)) (unat (uxTail b)) (unat (uxHead b))"
  using sb_wfD [OF assms] by (simp add: uxStreamBufferGetSize_def unat_distance)

lemma size_plus_space:
  assumes "sb_wf b"
  shows "unat (uxStreamBufferGetSize b) + unat (uxStreamBufferGetSpace b) + 1 = unat (sbLENGTH b)"
  using sb_wfD [OF assms]
  by (auto simp: uxStreamBufferGetSize_def uxStreamBufferGetSpace_def unat_distance unat_space ring_dist_def)

lemma head_of_size:
  assumes "sb_wf b"
  shows "unat (uxHead b) =
    (unat (uxTail b) + unat (uxStreamBufferGetSize b)) mod unat (sbLENGTH b)"
  using sb_wfD [OF assms] by (auto simp: unat_size [OF assms] ring_dist_def mod_if)

lemma length_sb_view [simp]: "length (sb_view b n) = n"
  by (simp add: sb_view_def)

lemma length_contents [simp]: "length (sb_contents b) = unat (uxStreamBufferGetSize b)"
  by (simp add: sb_contents_def sb_view_def)

lemma length_contents_capacity:
  assumes "sb_wf b" shows "length (sb_contents b) \<le> sb_capacity b"
  using size_plus_space [OF assms] by (simp add: sb_capacity_def)

section \<open>Reading\<close>

lemma sb_view_drop:
  assumes "sb_wf b" and "uxTail b' = t" and "unat t = (unat (uxTail b) + k) mod unat (sbLENGTH b)"
    and "sbLENGTH b' = sbLENGTH b" and "ucArray b' = ucArray b" and "k \<le> n"
  shows "sb_view b' (n - k) = drop k (sb_view b n)"
  using assms by (intro nth_equalityI) (auto simp: sb_view_def mod_simps add_ac)

lemma take_drop_sb_view:
  "k + n \<le> m \<Longrightarrow> take n (drop k (sb_view b m)) =
     map (\<lambda>i. ucArray b ! ((unat (uxTail b) + k + i) mod unat (sbLENGTH b))) [0..<n]"
  by (intro nth_equalityI) (auto simp: sb_view_def add_ac)

lemma sb_wrap_offset:
  assumes "sb_wf b" and "unat x < unat (sbLENGTH b)" and "unat off \<le> unat (sbLENGTH b)"
  shows "unat (if off \<noteq> 0 then sb_wrap b (x + off) else x) = (unat x + unat off) mod unat (sbLENGTH b)"
  using assms unat_sb_wrap [OF sb_wfD(2) [OF assms(1)] assms(2,3)] by auto

lemma advance_tail:
  assumes wf: "sb_wf b" and n: "unat c \<le> unat (uxStreamBufferGetSize b)"
  defines "b' \<equiv> b\<lparr>uxTail := sb_wrap b (uxTail b + c)\<rparr>"
  shows "sb_wf b'" and "sb_contents b' = drop (unat c) (sb_contents b)"
proof -
  note W = sb_wfD [OF wf]
  have L: "unat (uxStreamBufferGetSize b) < unat (sbLENGTH b)"
    using size_plus_space [OF wf] by simp
  have t: "unat (uxTail b') = (unat (uxTail b) + unat c) mod unat (sbLENGTH b)"
    using unat_sb_wrap [OF W(2,4), of c] n L by (simp add: b'_def)
  show wf': "sb_wf b'"
    using wf t by (auto simp: sb_wf_def b'_def)
  have "sbLENGTH b' = sbLENGTH b" and "uxHead b' = uxHead b"
    by (simp_all add: b'_def)
  then have "unat (uxStreamBufferGetSize b') = unat (uxStreamBufferGetSize b) - unat c"
    using n ring_dist_advance_lower [OF W(4,5)] by (simp add: unat_size [OF wf] unat_size [OF wf'] t)
  then show "sb_contents b' = drop (unat c) (sb_contents b)"
    using sb_view_drop [OF wf refl t] n by (simp add: sb_contents_def b'_def)
qed

lemma uxStreamBufferGet_correct:
  fixes b :: "'a stream_buffer" and off maxc :: size_t
  assumes wf: "sb_wf b"
  defines "avail \<equiv> drop (unat off) (sb_contents b)"
  defines "n \<equiv> min (length avail) (unat maxc)"
  shows "\<exists>c b'. uxStreamBufferGet b off want maxc peek = Some (c, if want then take n avail else [], b')
     \<and> unat c = n \<and> sb_wf b' \<and> sbLENGTH b' = sbLENGTH b
     \<and> sb_contents b' = (if \<not> peek \<and> off = 0 then drop n (sb_contents b) else sb_contents b)"
proof -
  note W = sb_wfD [OF wf]
  let ?S = "uxStreamBufferGetSize b" and ?L = "unat (sbLENGTH b)"
  define c where "c = c_min (if off < ?S then ?S - off else 0) maxc"
  define nt where "nt = (if off \<noteq> 0 then sb_wrap b (uxTail b + off) else uxTail b)"
  have "unat (if off < ?S then ?S - off else 0) = unat ?S - unat off"
    by (auto simp: word_less_nat_alt unat_sub_if_size)
  then have c: "unat c = n"
    by (simp add: c_def unat_c_min n_def avail_def)
  have SL: "unat ?S < ?L"
    using size_plus_space [OF wf] by simp
  show ?thesis
  proof (cases "c = 0")
    case True
    then have "n = 0" using c by simp
    with True wf show ?thesis
      by (auto simp: uxStreamBufferGet_def Let_def simp flip: c_def)
  next
    case False
    then have "0 < n" using c by (simp add: unat_gt_0 flip: c)
    then have off: "unat off + n \<le> unat ?S"
      by (auto simp: n_def avail_def)
    have nt: "unat nt = (unat (uxTail b) + unat off) mod ?L"
      unfolding nt_def using off SL by (intro sb_wrap_offset wf W) simp
    then have ntL: "unat nt < ?L" using W(1) by simp
    define f where "f = c_min (sbLENGTH b - nt) c"
    have f: "unat f = min (?L - unat nt) n"
      using ntL by (simp add: f_def unat_c_min c unat_sub word_le_nat_alt)
    have "take n avail = map (\<lambda>i. ucArray b ! ((unat nt + i) mod ?L)) [0..<n]"
      using take_drop_sb_view [OF off] by (simp add: avail_def sb_contents_def nt mod_simps)
    then have rd: "take n avail = take (unat f) (drop (unat nt) (ucArray b)) @ take (n - unat f) (ucArray b)"
      using ring_read [OF W(3) ntL] off SL by (simp add: f)
    have r1: "mem_read (ucArray b) (unat nt) (unat f) = Some (take (unat f) (drop (unat nt) (ucArray b)))"
      using ntL W(3) by (intro mem_read_Some) (simp add: f)
    have r2: "mem_read (ucArray b) 0 (unat (c - f)) = Some (take (n - unat f) (ucArray b))" if "f < c"
      using that W(3) off SL c f
      by (subst mem_read_Some) (auto simp: unat_sub word_less_nat_alt word_le_nat_alt)
    have nf: "n \<le> unat f" if "\<not> f < c"
      using that c f by (simp add: word_less_nat_alt)
    define b' where "b' = (if \<not> peek \<and> off = 0 then b\<lparr>uxTail := sb_wrap b (nt + c)\<rparr> else b)"
    have "uxStreamBufferGet b off want maxc peek =
        (if c = 0 then Some (0, [], b)
         else do {
           data \<leftarrow> (if want
             then do {
               d1 \<leftarrow> mem_read (ucArray b) (unat nt) (unat f);
               if f < c then do { d2 \<leftarrow> mem_read (ucArray b) 0 (unat (c - f)); Some (d1 @ d2) }
               else Some d1
             } else Some []);
           Some (c, data, b')
         })"
      by (simp only: uxStreamBufferGet_def Let_def c_def nt_def f_def b'_def)
    then have "uxStreamBufferGet b off want maxc peek = Some (c, if want then take n avail else [], b')"
      using False r1 r2 nf rd by (cases "f < c") auto
    moreover have "sb_wf b' \<and> sbLENGTH b' = sbLENGTH b
        \<and> sb_contents b' = (if \<not> peek \<and> off = 0 then drop n (sb_contents b) else sb_contents b)"
      using advance_tail [OF wf, of c] wf off c by (auto simp: b'_def nt_def)
    ultimately show ?thesis using c by blast
  qed
qed

section \<open>Writing\<close>

text \<open>Writing a run at circular offset \<open>k\<close> behind the tail replaces that part of the view.\<close>

lemma sb_view_ring_write:
  assumes wf: "sb_wf b" and k: "k + length d \<le> unat (sbLENGTH b)"
    and b': "ucArray b' = ucArray0" "uxTail b' = uxTail b" "sbLENGTH b' = sbLENGTH b"
    and arr: "ucArray0 = ring_write (ucArray b) ((unat (uxTail b) + k) mod unat (sbLENGTH b)) d"
  shows "sb_view b' (unat (sbLENGTH b)) =
    take k (sb_view b (unat (sbLENGTH b))) @ d @ drop (k + length d) (sb_view b (unat (sbLENGTH b)))"
proof (rule nth_equalityI)
  note W = sb_wfD [OF wf]
  let ?L = "unat (sbLENGTH b)" and ?t = "unat (uxTail b)"
  show "length (sb_view b' ?L) = length (take k (sb_view b ?L) @ d @ drop (k + length d) (sb_view b ?L))"
    using k by (simp add: sb_view_def)
  fix i assume "i < length (sb_view b' ?L)"
  then have i: "i < ?L" by (simp add: sb_view_def)
  note ix = ring_index_back [OF i _ W(4), of k]
  have j: "(?t + i) mod ?L < length (ucArray b)" using W(1,3) by simp
  have k1: "k < ?L" if "d \<noteq> []" using that k by (cases d) auto
  have v: "sb_view b' ?L ! i = (if k \<le> i \<and> i < k + length d then d ! (i - k) else sb_view b ?L ! i)"
  proof (cases "d = []")
    case True
    with i j b' arr show ?thesis by (auto simp: sb_view_def nth_ring_write Let_def)
  next
    case False
    have "sb_view b' ?L ! i = ucArray0 ! ((?t + i) mod ?L)"
      using i b' by (simp add: sb_view_def)
    also have "\<dots> = (let j = (if k \<le> i then i - k else ?L + i - k)
        in if j < length d then d ! j else ucArray b ! ((?t + i) mod ?L))"
      using ix [OF k1 [OF False]] W(3) by (simp add: arr nth_ring_write [OF j])
    also have "ucArray b ! ((?t + i) mod ?L) = sb_view b ?L ! i"
      using i by (simp add: sb_view_def)
    finally show ?thesis
      using i k by (auto simp: Let_def)
  qed
  then show "sb_view b' ?L ! i = (take k (sb_view b ?L) @ d @ drop (k + length d) (sb_view b ?L)) ! i"
    using nth_splice [of k d "sb_view b ?L" i] i k by simp
qed

text \<open>The copy of \<^verbatim>\<open>uxStreamBufferAdd\<close>, in one or two pieces.\<close>

lemma sb_copy_in:
  fixes c f nh :: size_t
  assumes arr: "length a = L" and nh: "unat nh < L" and c: "unat c \<le> L" and d: "unat c \<le> length d"
    and f: "unat f = min (L - unat nh) (unat c)"
  shows "do { d1 \<leftarrow> mem_read d 0 (unat f); a1 \<leftarrow> mem_write a (unat nh) d1;
              if f < c then do { d2 \<leftarrow> mem_read d (unat f) (unat (c - f)); mem_write a1 0 d2 } else Some a1 }
         = Some (ring_write a (unat nh) (take (unat c) d))"
proof -
  let ?d = "take (unat c) d" and ?n = "unat c"
  let ?a1 = "take (unat nh) a @ take (unat f) ?d @ drop (unat nh + unat f) a"
  have ld: "length ?d = ?n" using d by simp
  have fn: "unat f \<le> ?n" using f by simp
  have two: "(if unat f < ?n then drop (unat f) ?d @ drop (?n - unat f) ?a1 else ?a1) = ring_write a (unat nh) ?d"
    using ring_write_two_pieces [of "unat nh" a ?d "unat f" ?a1] nh c arr f by (simp only: ld)
  have r1: "mem_read d 0 (unat f) = Some (take (unat f) ?d)"
    using fn d by (simp add: mem_read_def min_def)
  have w1: "mem_write a (unat nh) (take (unat f) ?d) = Some ?a1"
    using fn d nh arr f by (simp add: mem_write_def)
  have r2: "mem_read d (unat f) (unat (c - f)) = Some (drop (unat f) ?d)" if "f < c"
    using that d fn by (simp add: mem_read_def unat_sub word_less_nat_alt word_le_nat_alt drop_take)
  have w2: "mem_write ?a1 0 (drop (unat f) ?d) = Some (drop (unat f) ?d @ drop (?n - unat f) ?a1)"
    using d fn nh arr f c by (simp add: mem_write_def)
  show ?thesis
  proof (cases "f < c")
    case True
    then have "drop (unat f) ?d @ drop (?n - unat f) ?a1 = ring_write a (unat nh) ?d"
      using two by (simp only: word_less_nat_alt if_True)
    with True r1 w1 r2 w2 show ?thesis by (simp only: Option.bind.simps if_True)
  next
    case False
    then have "?a1 = ring_write a (unat nh) ?d"
      using two by (simp only: word_less_nat_alt if_False)
    with False r1 w1 show ?thesis by (simp only: Option.bind.simps if_False)
  qed
qed

lemma size_advance_head:
  assumes wf: "sb_wf b" and wf': "sb_wf b'" and same: "uxTail b' = uxTail b" "sbLENGTH b' = sbLENGTH b"
    and h: "unat (uxHead b') = (unat (uxHead b) + n) mod unat (sbLENGTH b)"
    and n: "n \<le> unat (uxStreamBufferGetSpace b)"
  shows "unat (uxStreamBufferGetSize b') = unat (uxStreamBufferGetSize b) + n"
proof -
  have "unat (uxStreamBufferGetSize b) + n < unat (sbLENGTH b)"
    using size_plus_space [OF wf] n by simp
  then show ?thesis
    using ring_dist_advance_upper [OF sb_wfD(4,5) [OF wf]] same h
    by (simp add: unat_size [OF wf] unat_size [OF wf'])
qed

text \<open>
  What \<^verbatim>\<open>uxStreamBufferAdd\<close> does on every branch: it accepts what fits behind the offset,
  writes exactly these bytes behind the head, and moves the head only at offset 0.
\<close>

lemma uxStreamBufferAdd_correct:
  fixes b :: "'a stream_buffer" and off cnt :: size_t
  assumes wf: "sb_wf b" and src: "\<And>d. data = Some d \<Longrightarrow> unat cnt \<le> length d"
  defines "s \<equiv> unat (uxStreamBufferGetSize b)" and "L \<equiv> unat (sbLENGTH b)"
  defines "n \<equiv> min (unat (uxStreamBufferGetSpace b) - unat off) (unat cnt)"
  shows "\<exists>c b'. uxStreamBufferAdd b off data cnt = Some (c, b') \<and> unat c = n \<and> sb_wf b'
     \<and> uxTail b' = uxTail b \<and> sbLENGTH b' = sbLENGTH b
     \<and> unat (uxStreamBufferGetSize b') = (if off = 0 then s + n else s)
     \<and> sb_view b' L = (case data of None \<Rightarrow> sb_view b L
          | Some d \<Rightarrow> take (s + unat off) (sb_view b L) @ take n d @ drop (s + unat off + n) (sb_view b L))"
proof -
  note W = sb_wfD [OF wf]
  let ?S = "uxStreamBufferGetSpace b"
  define c where "c = c_min (if off < ?S then ?S - off else 0) cnt"
  define nh where "nh = (if off \<noteq> 0 then sb_wrap b (uxHead b + off) else uxHead b)"
  define f where "f = c_min (sbLENGTH b - nh) c"
  define nh' where "nh' = (if off = 0 then sb_wrap b (nh + c) else nh)"
  define upd where "upd arr = (let b1 = b\<lparr>ucArray := arr\<rparr>;
      b2 = (if off = 0 then b1\<lparr>uxHead := nh'\<rparr> else b1)
    in if xStreamBufferLessThenEqual b2 (uxFront b2) nh' then b2\<lparr>uxFront := nh'\<rparr> else b2)" for arr
  have eq: "uxStreamBufferAdd b off data cnt =
      (if c = 0 then Some (0, b)
       else do {
         arr \<leftarrow> (case data of None \<Rightarrow> Some (ucArray b)
           | Some d \<Rightarrow> do { d1 \<leftarrow> mem_read d 0 (unat f); a1 \<leftarrow> mem_write (ucArray b) (unat nh) d1;
               if f < c then do { d2 \<leftarrow> mem_read d (unat f) (unat (c - f)); mem_write a1 0 d2 } else Some a1 });
         Some (c, upd arr)
       })"
    by (simp only: uxStreamBufferAdd_def Let_def c_def nh_def f_def nh'_def upd_def)
  have SL: "s + unat ?S + 1 = L"
    using size_plus_space [OF wf] by (simp add: s_def L_def)
  have "unat (if off < ?S then ?S - off else 0) = unat ?S - unat off"
    by (auto simp: word_less_nat_alt unat_sub_if_size)
  then have c: "unat c = n"
    by (simp add: c_def unat_c_min n_def)
  show ?thesis
  proof (cases "n = 0")
    case True
    then have "c = 0" using c by (simp add: unat_eq_zero)
    with True eq wf c show ?thesis by (auto simp: s_def split: option.split)
  next
    case False
    then have c0: "c \<noteq> 0" using c by auto
    have off: "s + unat off + n < L" using False SL by (auto simp: n_def)
    have nh: "unat nh = (unat (uxTail b) + (s + unat off)) mod L"
      using sb_wrap_offset [OF wf W(5), of off] off head_of_size [OF wf]
      by (simp add: nh_def L_def s_def mod_simps add_ac)
    then have nhL: "unat nh < L" using W(1) by (simp add: L_def)
    have nh'L: "unat nh' < L" and nh'0: "off = 0 \<Longrightarrow> unat nh' = (unat (uxHead b) + n) mod L"
      using unat_sb_wrap [OF W(2), of nh c] nhL off W(1) by (auto simp: nh'_def nh_def c L_def)
    define arr where "arr = (case data of None \<Rightarrow> ucArray b | Some d \<Rightarrow> ring_write (ucArray b) (unat nh) (take n d))"
    have fu: "unat f = min (L - unat nh) (unat c)"
      using nhL by (simp add: f_def unat_c_min unat_sub word_le_nat_alt L_def)
    have cp: "do { d1 \<leftarrow> mem_read d 0 (unat f); a1 \<leftarrow> mem_write (ucArray b) (unat nh) d1;
               if f < c then do { d2 \<leftarrow> mem_read d (unat f) (unat (c - f)); mem_write a1 0 d2 } else Some a1 }
             = Some (ring_write (ucArray b) (unat nh) (take n d))" if "data = Some d" for d
    proof (rule sb_copy_in [of "ucArray b" L nh c d f, unfolded c])
      show "n \<le> length d" using src [OF that] by (auto simp: n_def)
    qed (use W(3) nhL off c fu in \<open>auto simp: L_def\<close>)
    have add: "uxStreamBufferAdd b off data cnt = Some (c, upd arr)"
    proof (cases data)
      case None
      with c0 eq show ?thesis by (simp add: arr_def)
    next
      case (Some d)
      with c0 eq cp [OF Some] show ?thesis by (simp add: arr_def del: bind_eq_Some_conv)
    qed
    have fields: "uxTail (upd arr) = uxTail b" "sbLENGTH (upd arr) = sbLENGTH b" "ucArray (upd arr) = arr"
        "uxMid (upd arr) = uxMid b" "uxHead (upd arr) = (if off = 0 then nh' else uxHead b)"
        "uxFront (upd arr) = uxFront b \<or> uxFront (upd arr) = nh'"
      by (auto simp: upd_def Let_def)
    have wf': "sb_wf (upd arr)"
      using fields W nh'L by (auto simp: sb_wf_def arr_def L_def split: option.split)
    have size: "unat (uxStreamBufferGetSize (upd arr)) = (if off = 0 then s + n else s)"
      using size_advance_head [OF wf wf' fields(1,2), of n] size_advance_head [OF wf wf' fields(1,2), of 0]
        fields(5) nh'0 W(5) by (auto simp: s_def L_def n_def)
    have view: "sb_view (upd arr) L = (case data of None \<Rightarrow> sb_view b L
        | Some d \<Rightarrow> take (s + unat off) (sb_view b L) @ take n d @ drop (s + unat off + n) (sb_view b L))"
    proof (cases data)
      case None
      with fields show ?thesis by (simp add: sb_view_def arr_def)
    next
      case (Some d)
      then have "length (take n d) = n" using src by (auto simp: n_def)
      then have "sb_view (upd arr) L = take (s + unat off) (sb_view b L) @ take n d
          @ drop (s + unat off + length (take n d)) (sb_view b L)"
        unfolding L_def using fields off nh Some
        by (intro sb_view_ring_write wf) (simp_all add: arr_def L_def)
      with \<open>length (take n d) = n\<close> Some show ?thesis by simp
    qed
    show ?thesis using add c wf' fields(1,2) size view by blast
  qed
qed

text \<open>The two calls a socket makes: append at the head, remove from the tail.\<close>

definition sb_put :: "'a stream_buffer \<Rightarrow> 'a list \<Rightarrow> (nat \<times> 'a stream_buffer) option" where
  "sb_put b xs = map_option (\<lambda>(c, b'). (unat c, b')) (uxStreamBufferAdd b 0 (Some xs) (of_nat (length xs)))"

definition sb_get :: "'a stream_buffer \<Rightarrow> nat \<Rightarrow> ('a list \<times> 'a stream_buffer) option" where
  "sb_get b m = map_option (\<lambda>(c, xs, b'). (xs, b')) (uxStreamBufferGet b 0 True (of_nat m) False)"

lemma take_sb_view: "n \<le> m \<Longrightarrow> take n (sb_view b m) = sb_view b n"
  by (simp add: sb_view_def take_map)

lemma sb_add_contents:
  assumes wf: "sb_wf b" and cnt: "unat cnt \<le> length xs"
  obtains c b' where "uxStreamBufferAdd b 0 (Some xs) cnt = Some (c, b')"
    and "unat c = min (unat cnt) (sb_capacity b - length (sb_contents b))" and "sb_wf b'" and "sbLENGTH b' = sbLENGTH b"
    and "sb_contents b' = sb_contents b @ take (unat c) xs"
proof -
  let ?s = "unat (uxStreamBufferGetSize b)" and ?L = "unat (sbLENGTH b)"
  define n where "n = min (unat cnt) (sb_capacity b - length (sb_contents b))"
  have n: "min (unat (uxStreamBufferGetSpace b) - unat (0 :: size_t)) (unat cnt) = n"
    using size_plus_space [OF wf] by (simp add: n_def sb_capacity_def min.commute)
  obtain c b' where *: "uxStreamBufferAdd b 0 (Some xs) cnt = Some (c, b')" "unat c = n"
      "sb_wf b'" "sbLENGTH b' = sbLENGTH b" "unat (uxStreamBufferGetSize b') = ?s + n"
      "sb_view b' ?L = take ?s (sb_view b ?L) @ take n xs @ drop (?s + n) (sb_view b ?L)"
    using uxStreamBufferAdd_correct [OF wf, of "Some xs" cnt 0] cnt unfolding n by auto
  have "?s + n < ?L"
    using size_plus_space [OF wf] by (simp add: n_def sb_capacity_def)
  then have "sb_view b' (?s + n) = take (?s + n) (sb_view b' ?L)"
    by (simp add: take_sb_view)
  also have "\<dots> = sb_view b ?s @ take n xs"
    using \<open>?s + n < ?L\<close> cnt by (simp add: *(6) take_sb_view) (simp add: n_def)
  finally have "sb_contents b' = sb_contents b @ take (unat c) xs"
    using * by (simp add: sb_contents_def)
  with that [OF *(1) _ *(3,4)] *(2) show thesis by (simp add: n_def)
qed

lemma sb_put_correct:
  assumes wf: "sb_wf b" and len: "length xs < 2 ^ 32"
  defines "n \<equiv> min (length xs) (sb_capacity b - length (sb_contents b))"
  shows "\<exists>b'. sb_put b xs = Some (n, b') \<and> sb_wf b' \<and> sbLENGTH b' = sbLENGTH b
     \<and> sb_contents b' = sb_contents b @ take n xs"
proof -
  have u: "unat (of_nat (length xs) :: size_t) = length xs"
    using len by (simp add: unat_of_nat)
  obtain c b' where "uxStreamBufferAdd b 0 (Some xs) (of_nat (length xs)) = Some (c, b')" "unat c = n"
      "sb_wf b'" "sbLENGTH b' = sbLENGTH b" "sb_contents b' = sb_contents b @ take n xs"
    using sb_add_contents [OF wf, of "of_nat (length xs)" xs] by (auto simp: u n_def)
  then show ?thesis by (auto simp: sb_put_def)
qed

lemma sb_get_correct:
  assumes wf: "sb_wf b" and len: "m < 2 ^ 32"
  shows "\<exists>b'. sb_get b m = Some (take m (sb_contents b), b') \<and> sb_wf b' \<and> sbLENGTH b' = sbLENGTH b
     \<and> sb_contents b' = drop m (sb_contents b)"
proof -
  have u: "unat (of_nat m :: size_t) = m"
    using len by (simp add: unat_of_nat)
  show ?thesis
    using uxStreamBufferGet_correct [OF wf, of 0 True "of_nat m" False]
    by (auto simp: sb_get_def u min_def split: if_splits)
qed

section \<open>The interface of a byte queue\<close>

text \<open>
  What the sockets rely on: a bounded first-in first-out queue whose operations may not leave
  the array.  The law for a whole history of operations is proved once, inside the interface.
\<close>

datatype 'a fifo_op = Put "'a list" | Take nat

locale byte_fifo =
  fixes fifo_ok :: "'b \<Rightarrow> bool"
    and bytes :: "'b \<Rightarrow> 'a list"
    and room :: "'b \<Rightarrow> nat"
    and put :: "'b \<Rightarrow> 'a list \<Rightarrow> (nat \<times> 'b) option"
    and fetch :: "'b \<Rightarrow> nat \<Rightarrow> ('a list \<times> 'b) option"
    and maxlen :: nat
  assumes put_law: "fifo_ok b \<Longrightarrow> length xs < maxlen \<Longrightarrow>
      \<exists>b'. put b xs = Some (min (length xs) (room b - length (bytes b)), b') \<and> fifo_ok b'
        \<and> room b' = room b \<and> bytes b' = bytes b @ take (min (length xs) (room b - length (bytes b))) xs"
    and fetch_law: "fifo_ok b \<Longrightarrow> n < maxlen \<Longrightarrow>
      \<exists>b'. fetch b n = Some (take n (bytes b), b') \<and> fifo_ok b'
        \<and> room b' = room b \<and> bytes b' = drop n (bytes b)"
    and room_law: "fifo_ok b \<Longrightarrow> length (bytes b) \<le> room b"
begin

text \<open>A run of operations: the bytes accepted, the bytes delivered and the final queue.\<close>

fun fifo_run :: "'b \<Rightarrow> 'a fifo_op list \<Rightarrow> ('a list \<times> 'a list \<times> 'b) option" where
  "fifo_run b [] = Some ([], [], b)"
| "fifo_run b (Put xs # ops) = do {
     (n, b') \<leftarrow> put b xs; (i, out, b'') \<leftarrow> fifo_run b' ops; Some (take n xs @ i, out, b'') }"
| "fifo_run b (Take n # ops) = do {
     (ys, b') \<leftarrow> fetch b n; (i, out, b'') \<leftarrow> fifo_run b' ops; Some (i, ys @ out, b'') }"

fun op_fits :: "'a fifo_op \<Rightarrow> bool" where
  "op_fits (Put xs) \<longleftrightarrow> length xs < maxlen"
| "op_fits (Take n) \<longleftrightarrow> n < maxlen"

lemma run_fifo:
  assumes "fifo_ok b" and "list_all op_fits ops"
  shows "\<exists>i out b'. fifo_run b ops = Some (i, out, b') \<and> fifo_ok b' \<and> room b' = room b
    \<and> out @ bytes b' = bytes b @ i \<and> length (bytes b') \<le> room b"
  using assms
proof (induction ops arbitrary: b)
  case Nil
  then show ?case by (simp add: room_law)
next
  case (Cons x ops)
  show ?case
  proof (cases x)
    case (Put xs)
    with Cons.prems obtain n b1 where *: "put b xs = Some (n, b1)" "fifo_ok b1" "room b1 = room b"
        "bytes b1 = bytes b @ take n xs"
      using put_law [of b xs] by auto
    with Cons.IH [of b1] Cons.prems Put show ?thesis by auto
  next
    case (Take n)
    with Cons.prems obtain b1 where *: "fetch b n = Some (take n (bytes b), b1)" "fifo_ok b1"
        "room b1 = room b" "bytes b1 = drop n (bytes b)"
      using fetch_law [of b n] by auto
    obtain i out b' where r: "fifo_run b1 ops = Some (i, out, b')" "fifo_ok b'" "room b' = room b1"
        "out @ bytes b' = bytes b1 @ i" "length (bytes b') \<le> room b1"
      using Cons.IH [of b1] Cons.prems * by auto
    have "(take n (bytes b) @ out) @ bytes b' = bytes b @ i"
      using r(4) * by (metis append.assoc append_take_drop_id)
    with r * Take show ?thesis by simp
  qed
qed

lemma put_then_fetch:
  assumes "fifo_ok b" and "bytes b = []" and "length xs \<le> room b" and "length xs < maxlen"
  shows "\<exists>b1 b2. put b xs = Some (length xs, b1) \<and> fetch b1 (length xs) = Some (xs, b2) \<and> bytes b2 = []"
proof -
  obtain b1 where p: "put b xs = Some (length xs, b1)" "fifo_ok b1" "bytes b1 = xs"
    using put_law [of b xs] assms by (auto simp: min_def)
  with fetch_law [of b1 "length xs"] assms show ?thesis by auto
qed

end

interpretation sb: byte_fifo sb_wf sb_contents sb_capacity sb_put sb_get "2 ^ 32"
proof
  fix b :: "'a stream_buffer" and xs :: "'a list"
  assume "sb_wf b" and "length xs < 2 ^ 32"
  then show "\<exists>b'. sb_put b xs = Some (min (length xs) (sb_capacity b - length (sb_contents b)), b') \<and> sb_wf b'
      \<and> sb_capacity b' = sb_capacity b
      \<and> sb_contents b' = sb_contents b @ take (min (length xs) (sb_capacity b - length (sb_contents b))) xs"
    using sb_put_correct [of b xs] by (auto simp: sb_capacity_def)
next
  fix b :: "'a stream_buffer" and n :: nat
  assume "sb_wf b" and "n < 2 ^ 32"
  then show "\<exists>b'. sb_get b n = Some (take n (sb_contents b), b') \<and> sb_wf b'
      \<and> sb_capacity b' = sb_capacity b \<and> sb_contents b' = drop n (sb_contents b)"
    using sb_get_correct [of b n] by (auto simp: sb_capacity_def)
qed (rule length_contents_capacity)

section \<open>Properties\<close>

text \<open>A history of stores and fetches on one buffer: what was accepted, what was delivered.\<close>

fun sb_run :: "'a stream_buffer \<Rightarrow> 'a fifo_op list \<Rightarrow> ('a list \<times> 'a list \<times> 'a stream_buffer) option" where
  "sb_run b [] = Some ([], [], b)"
| "sb_run b (Put xs # ops) = do {
     (n, b') \<leftarrow> sb_put b xs; (i, out, b'') \<leftarrow> sb_run b' ops; Some (take n xs @ i, out, b'') }"
| "sb_run b (Take n # ops) = do {
     (ys, b') \<leftarrow> sb_get b n; (i, out, b'') \<leftarrow> sb_run b' ops; Some (i, ys @ out, b'') }"

fun fifo_op_fits :: "'a fifo_op \<Rightarrow> bool" where
  "fifo_op_fits (Put xs) \<longleftrightarrow> length xs < 2 ^ 32"
| "fifo_op_fits (Take n) \<longleftrightarrow> n < 2 ^ 32"

lemma sb_run_fifo: "sb_run b ops = sb.fifo_run b ops"
proof (induction ops arbitrary: b)
  case (Cons x ops)
  then show ?case by (cases x) simp_all
qed simp

lemma fifo_op_fits_eq: "fifo_op_fits = sb.op_fits"
proof
  fix x :: "'a fifo_op"
  show "fifo_op_fits x = sb.op_fits x" by (cases x) (simp_all only: fifo_op_fits.simps sb.op_fits.simps)
qed

text \<open>
  C11.  The stream buffer is a lossless queue: on a well-formed buffer every history of stores and
  fetches of any sizes runs without leaving the array, the bytes delivered followed by the
  bytes still stored are the bytes stored before followed by the bytes accepted, in order, and
  the buffer never holds more than its capacity.
\<close>

theorem stream_buffer_fifo:
  assumes "sb_wf b" and "list_all fifo_op_fits ops"
  shows "\<exists>accepted delivered b'. sb_run b ops = Some (accepted, delivered, b') \<and> sb_wf b'
    \<and> delivered @ sb_contents b' = sb_contents b @ accepted \<and> length (sb_contents b') \<le> sb_capacity b"
  using sb.run_fifo [OF assms(1), of ops] assms(2) by (auto simp: sb_run_fifo fifo_op_fits_eq)

definition sb_example :: "nat stream_buffer" where
  "sb_example = \<lparr>uxTail = 3, uxMid = 3, uxHead = 3, uxFront = 3, sbLENGTH = 4, ucArray = [0, 0, 0, 0]\<rparr>"

theorem stream_buffer_fifo_witness:
  "\<exists>accepted delivered b'. sb_run sb_example [Put [1, 2, 3, 4], Take 2, Put [5]] = Some (accepted, delivered, b')
    \<and> sb_wf b' \<and> delivered @ sb_contents b' = sb_contents sb_example @ accepted
    \<and> length (sb_contents b') \<le> sb_capacity sb_example"
  by (rule stream_buffer_fifo) (simp_all add: sb_example_def sb_wf_def)

end
