(* ===== verification/Net_Env.thy ===== *)
theory Net_Env
  imports Uni_Prelude
begin

text \<open>
  The environment of the Uni.Net modules.  The FreeRTOS+TCP socket calls, the FreeRTOS kernel
  calls and the helpers of Uni.Common and Uni.Hal are fields of a record that every definition
  takes as an argument: a call takes the state of the outside world (type \<open>'w\<close>) and
  returns its result and the next world.  Nothing is fixed about them here; what a property
  relies on is stated as a named predicate or as the laws of a locale.
\<close>

section \<open>Handles and C strings\<close>

datatype socket_t = NULL_SOCKET | INVALID_SOCKET | Sock nat

text \<open>\<^verbatim>\<open>_socket_valid\<close>, \<^verbatim>\<open>xSocketValid\<close>: neither \<^verbatim>\<open>NULL\<close> nor \<^verbatim>\<open>FREERTOS_INVALID_SOCKET\<close>.\<close>

definition socket_valid :: "socket_t \<Rightarrow> bool" where
  "socket_valid s \<longleftrightarrow> s \<noteq> NULL_SOCKET \<and> s \<noteq> INVALID_SOCKET"

abbreviation "NUL \<equiv> CHR 0x00"
abbreviation "TAB \<equiv> CHR 0x09"
abbreviation "LF \<equiv> CHR 0x0A"
abbreviation "CR \<equiv> CHR 0x0D"
abbreviation "SPC \<equiv> CHR 0x20"

text \<open>
  A C string is the list of its characters before the terminating \<^verbatim>\<open>NUL\<close>, so
  \<^verbatim>\<open>strcmp(a, b) == 0\<close> is equality; \<open>c_string buf i\<close> is the string that starts at
  index \<open>i\<close> of an array.
\<close>

definition c_string :: "char list \<Rightarrow> nat \<Rightarrow> string" where
  "c_string buf i = takeWhile (\<lambda>c. c \<noteq> NUL) (drop i buf)"

definition c_tolower :: "char \<Rightarrow> char" where
  "c_tolower c = (if 65 \<le> (of_char c :: nat) \<and> (of_char c :: nat) \<le> 90
                  then char_of ((of_char c :: nat) + 32) else c)"

definition strcasecmp_eq :: "string \<Rightarrow> string \<Rightarrow> bool" where
  "strcasecmp_eq a b \<longleftrightarrow> map c_tolower a = map c_tolower b"

definition c_isdigit :: "char \<Rightarrow> bool" where
  "c_isdigit c \<longleftrightarrow> 48 \<le> (of_char c :: nat) \<and> (of_char c :: nat) \<le> 57"

text \<open>The conversion \<^verbatim>\<open>%u\<close> of \<^verbatim>\<open>printf\<close>.\<close>

fun dec_string :: "nat \<Rightarrow> string" where
  "dec_string n = (if n < 10 then [char_of (48 + n)] else dec_string (n div 10) @ [char_of (48 + n mod 10)])"

declare dec_string.simps [simp del]

section \<open>The record of outside calls\<close>

record 'w net_os =
  \<comment> \<open>FreeRTOS+TCP, TCP sockets\<close>
  os_recv :: "'w \<Rightarrow> socket_t \<Rightarrow> nat \<Rightarrow> int \<times> char list \<times> 'w"
  os_send :: "'w \<Rightarrow> socket_t \<Rightarrow> char list \<Rightarrow> int \<times> 'w"
  os_tx_space :: "'w \<Rightarrow> socket_t \<Rightarrow> int \<times> 'w"
  os_issocketconnected :: "'w \<Rightarrow> socket_t \<Rightarrow> int \<times> 'w"
  os_FD_SET :: "'w \<Rightarrow> socket_t \<Rightarrow> u32 \<Rightarrow> 'w"
  os_FD_CLR :: "'w \<Rightarrow> socket_t \<Rightarrow> u32 \<Rightarrow> 'w"
  os_closesocket :: "'w \<Rightarrow> socket_t \<Rightarrow> 'w"
  os_select :: "'w \<Rightarrow> u32 \<times> 'w"
  \<comment> \<open>Uni.Common and Uni.Hal\<close>
  lib_min :: "u32 \<Rightarrow> u32 \<Rightarrow> u32"
  lib_min3 :: "u32 \<Rightarrow> u32 \<Rightarrow> u32 \<Rightarrow> u32"
  lib_swap16 :: "u16 \<Rightarrow> u16"
  lib_snprintf :: "nat \<Rightarrow> string \<Rightarrow> string \<times> nat"
  \<comment> \<open>the build's configuration\<close>
  cfg_MSS :: nat

text \<open>The event bits of \<^verbatim>\<open>eSelectEvent_t\<close> the modules use.\<close>

definition eSELECT_READ :: u32 where "eSELECT_READ = 1"
definition eSELECT_WRITE :: u32 where "eSELECT_WRITE = 2"
definition eSELECT_EXCEPT :: u32 where "eSELECT_EXCEPT = 4"
definition eSELECT_ALL :: u32 where "eSELECT_ALL = 15"

text \<open>
  Documented behaviour of the helpers: the two minima, the byte swap, and a C99
  \<^verbatim>\<open>snprintf\<close>, which stores at most \<open>size - 1\<close> characters and returns the length of
  the whole output.
\<close>

definition swap16 :: "u16 \<Rightarrow> u16" where
  "swap16 x = (push_bit 8 x) + (drop_bit 8 x)"

definition uni_lib_ok :: "('w, 'z) net_os_scheme \<Rightarrow> bool" where
  "uni_lib_ok e \<longleftrightarrow> (\<forall>a b. lib_min e a b = c_min a b) \<and> (\<forall>a b c. lib_min3 e a b c = c_min3 a b c)
     \<and> (\<forall>x. lib_swap16 e x = swap16 x)
     \<and> (\<forall>n out. lib_snprintf e n out = (take (n - 1) out, length out))"

lemma uni_libD:
  assumes "uni_lib_ok e"
  shows "lib_min e a b = c_min a b" and "lib_min3 e a b c = c_min3 a b c"
    and "lib_swap16 e x = swap16 x" and "lib_snprintf e n out = (take (n - 1) out, length out)"
  using assms by (simp_all add: uni_lib_ok_def)

text \<open>A receive call stores at most as many bytes as it was asked for.\<close>

definition recv_bounded :: "('w, 'z) net_os_scheme \<Rightarrow> bool" where
  "recv_bounded e \<longleftrightarrow> (\<forall>w s n. let (r, d, w') = os_recv e w s n in r \<le> int n \<and> (0 < r \<longrightarrow> length d = nat r))"

section \<open>Lemmas on C strings\<close>

lemma dec_string_length: "0 < k \<Longrightarrow> n < 10 ^ k \<Longrightarrow> length (dec_string n) \<le> k"
proof (induction n arbitrary: k rule: dec_string.induct)
  case (1 n)
  show ?case
  proof (cases "n < 10")
    case True
    with "1.prems" show ?thesis by (simp add: dec_string.simps [of n])
  next
    case False
    with "1.prems" have "k \<noteq> 1" by auto
    with "1.prems" obtain j where k: "k = Suc j" "0 < j"
      by (cases k) auto
    with "1.prems" have "n div 10 < 10 ^ j" by (simp add: less_mult_imp_div_less)
    with "1.IH" [of j] False k show ?thesis by (simp add: dec_string.simps [of n])
  qed
qed

lemma dec_string_u32: "length (dec_string (unat (x :: u32))) \<le> 10"
proof (rule dec_string_length)
  have "unat x < 2 ^ 32" using unsigned_less [of x] by simp
  then show "unat x < 10 ^ 10" by simp
qed simp

lemma c_isdigit_char_of [simp]: "(n :: nat) < 10 \<Longrightarrow> c_isdigit (char_of (48 + n))"
  by (simp add: c_isdigit_def)

lemma dec_string_digits: "list_all c_isdigit (dec_string n)"
proof (induction n rule: dec_string.induct)
  case (1 n)
  then show ?case
    by (subst dec_string.simps) simp
qed

end
