(* ===== verification/Fr_Socket.thy ===== *)
theory Fr_Socket
  imports Net_Env
begin

text \<open>
  The part of a FreeRTOS+TCP socket that the checks of \<^verbatim>\<open>FreeRTOS_Sockets.c\<close> read, shared by the
  UDP client and the model of the TCP sockets.
\<close>

record fr_socket =
  fr_bound :: bool
  fr_protocol :: nat

abbreviation IPPROTO_TCP :: nat where "IPPROTO_TCP \<equiv> 6"
abbreviation IPPROTO_UDP :: nat where "IPPROTO_UDP \<equiv> 17"

text \<open>\<open>None\<close> is a handle for which \<^verbatim>\<open>xSocketValid\<close> fails.\<close>

definition prvValidSocket :: "'z fr_socket_scheme option \<Rightarrow> nat \<Rightarrow> bool \<Rightarrow> bool" where
  "prvValidSocket so xProtocol xIsBound =
     (case so of None \<Rightarrow> False
      | Some k \<Rightarrow> if xIsBound \<and> \<not> fr_bound k then False else if fr_protocol k \<noteq> xProtocol then False else True)"

text \<open>The conversion of a length to \<^verbatim>\<open>BaseType_t\<close> keeps it below 2 GB.\<close>

lemma sint_size:
  assumes "(n :: size_t) < 0x80000000"
  shows "sint n = int (unat n)"
proof -
  have "uint n < 2 ^ 31" using assms by (simp add: word_less_def)
  moreover have "- (2 ^ 31) \<le> uint n" by (rule order_trans [OF _ uint_ge_0]) simp
  ultimately have "signed_take_bit 31 (uint n) = uint n" by (intro signed_take_bit_int_eq_self)
  then show ?thesis by (simp add: sint_uint)
qed

end
