(* ===== verification/Tcp_Socket.thy ===== *)
theory Tcp_Socket
  imports Fr_Socket Stream_Buffer
begin

text \<open>
  The stream calls of \<^verbatim>\<open>FreeRTOS_Sockets.c\<close> that the HTTP server and the FTP client make on their
  connections: \<^verbatim>\<open>FreeRTOS_send\<close>, \<^verbatim>\<open>FreeRTOS_recv\<close>, \<^verbatim>\<open>FreeRTOS_tx_space\<close>, \<^verbatim>\<open>FreeRTOS_tx_size\<close>,
  \<^verbatim>\<open>FreeRTOS_rx_size\<close> and \<^verbatim>\<open>FreeRTOS_issocketconnected\<close>, over the stream buffers of
  \<open>Stream_Buffer\<close>.  The kernel calls, the allocator and the state change of a failed connection
  are parameters; a result \<open>None\<close> is a \<^verbatim>\<open>NULL\<close> dereference, an access outside an array or a wait
  that does not end.  \<^verbatim>\<open>BaseType_t\<close> is a signed 32-bit integer, read with \<open>sint\<close>.
\<close>

section \<open>Sockets\<close>

datatype tcp_state =
    eCLOSED | eTCP_LISTEN | eCONNECT_SYN | eSYN_FIRST | eSYN_RECEIVED | eESTABLISHED
  | eFIN_WAIT_1 | eFIN_WAIT_2 | eCLOSE_WAIT | eCLOSING | eLAST_ACK | eTIME_WAIT

fun tcp_state_value :: "tcp_state \<Rightarrow> nat" where
  "tcp_state_value eCLOSED = 0" | "tcp_state_value eTCP_LISTEN = 1" | "tcp_state_value eCONNECT_SYN = 2"
| "tcp_state_value eSYN_FIRST = 3" | "tcp_state_value eSYN_RECEIVED = 4" | "tcp_state_value eESTABLISHED = 5"
| "tcp_state_value eFIN_WAIT_1 = 6" | "tcp_state_value eFIN_WAIT_2 = 7" | "tcp_state_value eCLOSE_WAIT = 8"
| "tcp_state_value eCLOSING = 9" | "tcp_state_value eLAST_ACK = 10" | "tcp_state_value eTIME_WAIT = 11"

text \<open>
  The fields of \<^verbatim>\<open>FreeRTOS_Socket_t\<close> and \<^verbatim>\<open>IPTCPSocket_t\<close> that these calls and the select functions read or
  write, those of select alone in \<open>so_sel\<close>; pointers to other sockets and to socket sets are numbers.
  The TCP window and the segments
  belong to the IP task.
\<close>

record sock_sel =
  pxSocketSet :: "nat option"
  xSocketBits :: u32
  pxPeerSocket :: "nat option"
  bPassAccept :: bool
  bPassQueued :: bool
  bReuseSocket :: bool
  bConnPrepared :: bool
  bConnPassed :: bool

record tcp_socket = fr_socket +
  xEventBits :: u32
  xSelectBits :: u32
  so_sel :: sock_sel
  xReceiveBlockTime :: u32
  xSendBlockTime :: u32
  eTCPState :: tcp_state
  bCloseAfterSend :: bool
  bCloseRequested :: bool
  bLowWater :: bool
  bWinChange :: bool
  bFinSent :: bool
  bMallocError :: bool
  usTimeout :: u16
  usMSS :: u16
  uxLittleSpace :: size_t
  uxEnoughSpace :: size_t
  uxRxStreamSize :: size_t
  uxTxStreamSize :: size_t
  rxStream :: "char stream_buffer option"
  txStream :: "char stream_buffer option"

text \<open>
  The calls into the kernel.  A wait for events returns the event bits and the socket as the IP
  task has left it; the allocator returns a block of the given size with arbitrary contents.
\<close>

record 'k tcp_rtos =
  k_WaitBits :: "'k \<Rightarrow> tcp_socket \<Rightarrow> u32 \<Rightarrow> u32 \<Rightarrow> u32 \<times> tcp_socket \<times> 'k"
  k_SetBits :: "'k \<Rightarrow> u32 \<Rightarrow> 'k"
  k_SetTimeOutState :: "'k \<Rightarrow> 'k"
  k_CheckForTimeOut :: "'k \<Rightarrow> u32 \<Rightarrow> bool \<times> u32 \<times> 'k"
  k_SendEventToIPTask :: "'k \<Rightarrow> 'k"
  k_MallocLarge :: "'k \<Rightarrow> nat \<Rightarrow> char list option \<times> 'k"
  k_TCPStateChange :: "'k \<Rightarrow> tcp_socket \<Rightarrow> tcp_state \<Rightarrow> tcp_socket \<times> 'k"
  k_CallingFromIPTask :: bool
  k_SUPPORT_SIGNALS :: bool
  k_SUPPORT_SELECT :: bool
  k_EINVAL :: int
  k_ENOMEM :: int
  k_ENOTCONN :: int
  k_ENOSPC :: int
  k_EINTR :: int

definition eSOCKET_RECEIVE :: u32 where "eSOCKET_RECEIVE = 1"
definition eSOCKET_SEND :: u32 where "eSOCKET_SEND = 2"
definition eSOCKET_CLOSED :: u32 where "eSOCKET_CLOSED = 32"
definition eSOCKET_INTR :: u32 where "eSOCKET_INTR = 64"

abbreviation SOCKET_EVENT_BIT_COUNT :: nat where "SOCKET_EVENT_BIT_COUNT \<equiv> 8"

definition FREERTOS_ZERO_COPY :: u32 where "FREERTOS_ZERO_COPY = 1"
definition FREERTOS_MSG_PEEK :: u32 where "FREERTOS_MSG_PEEK = 4"
definition FREERTOS_MSG_DONTWAIT :: u32 where "FREERTOS_MSG_DONTWAIT = 16"

section \<open>Creation of a stream\<close>

text \<open>The two percentages of a receive stream, from the table for one to four segments.\<close>

fun stream_percent :: "size_t \<Rightarrow> size_t \<times> size_t" where
  "stream_percent uxSegmentCount =
     (if 0 < uxSegmentCount \<and> uxSegmentCount \<le> 4
      then [(0, 100), (50, 100), (34, 100), (25, 100)] ! (unat uxSegmentCount - 1) else (20, 80))"

text \<open>The thresholds of a receive stream, unless they have been chosen before; a segment size of zero divides by zero.\<close>

definition stream_thresholds :: "tcp_socket \<Rightarrow> tcp_socket option" where
  "stream_thresholds so =
     (if usMSS so = 0 then None
      else let (uxLittlePerc, uxEnoughPerc) = stream_percent (uxRxStreamSize so div of_nat (unat (usMSS so)));
               so = (if uxLittleSpace so = 0
                     then so\<lparr>uxLittleSpace := (uxLittlePerc * uxRxStreamSize so) div 100\<rparr> else so);
               so = (if uxEnoughSpace so = 0
                     then so\<lparr>uxEnoughSpace := (uxEnoughPerc * uxRxStreamSize so) div 100\<rparr> else so)
           in Some so)"

text \<open>
  \<^verbatim>\<open>StreamBuffer_t\<close> has five words and an array of one word; the block that is allocated has the
  five words and \<^verbatim>\<open>uxLength\<close> bytes, of which only the words are cleared.
\<close>

definition prvTCPCreateStream ::
    "'k tcp_rtos \<Rightarrow> 'k \<Rightarrow> tcp_socket \<Rightarrow> bool \<Rightarrow> (tcp_socket \<times> 'k) option" where
  "prvTCPCreateStream e w so xIsInputStream =
     do { so \<leftarrow> (if xIsInputStream then stream_thresholds so else Some so);
          let uxLength = (if xIsInputStream then uxRxStreamSize so else uxTxStreamSize so) + 4;
          let uxLength = and uxLength (not 3);
          let uxSize = 24 + uxLength - 4;
          let (block, w) = k_MallocLarge e w (unat uxSize);
          case block of
            None \<Rightarrow> Some (k_TCPStateChange e w (so\<lparr>bMallocError := True\<rparr>) eCLOSE_WAIT)
          | Some mem \<Rightarrow>
              do { arr \<leftarrow> mem_read mem 20 (unat uxLength);
                   let b = \<lparr>uxTail = 0, uxMid = 0, uxHead = 0, uxFront = 0, sbLENGTH = uxLength, ucArray = arr\<rparr>;
                   Some (if xIsInputStream then so\<lparr>rxStream := Some b\<rparr> else so\<lparr>txStream := Some b\<rparr>, w) } }"

section \<open>Sending\<close>

definition prvTCPSendCheck ::
    "'k tcp_rtos \<Rightarrow> 'k \<Rightarrow> tcp_socket option \<Rightarrow> size_t \<Rightarrow> (int \<times> tcp_socket option \<times> 'k) option" where
  "prvTCPSendCheck e w oso uxDataLength =
     (if \<not> prvValidSocket oso IPPROTO_TCP True then Some (- k_EINVAL e, oso, w)
      else do { so \<leftarrow> oso;
                if bMallocError so then Some (- k_ENOMEM e, oso, w)
                else if eTCPState so = eCLOSED \<or> eTCPState so = eCLOSE_WAIT \<or> eTCPState so = eCLOSING
                then Some (- k_ENOTCONN e, oso, w)
                else if bFinSent so then Some (0, oso, w)
                else if uxDataLength = 0 then Some (0, oso, w)
                else if txStream so = None
                then do { (so, w) \<leftarrow> prvTCPCreateStream e w so False;
                          Some (if txStream so = None then - k_ENOMEM e else 1, Some so, w) }
                else Some (1, oso, w) })"

text \<open>
  The loop of \<^verbatim>\<open>prvTCPSendLoop\<close>: \<open>left\<close> bytes of \<open>src\<close> are to be sent, \<open>sent\<close> have been, \<open>cnt\<close> is
  the space last seen and \<open>remaining\<close> the time left once the loop is timed.
\<close>

definition tcp_send_chunk ::
    "'k tcp_rtos \<Rightarrow> 'k \<Rightarrow> tcp_socket \<Rightarrow> char list option \<Rightarrow> int \<Rightarrow> int \<Rightarrow> (int \<times> tcp_socket \<times> 'k) option" where
  "tcp_send_chunk e w so src left cnt =
     (let cnt = (if left < cnt then left else cnt);
          so = (if bCloseAfterSend so \<and> cnt = left then so\<lparr>bCloseRequested := True\<rparr> else so)
      in do { b \<leftarrow> txStream so;
              (n, b') \<leftarrow> uxStreamBufferAdd b 0 src (of_int cnt);
              Some (sint n, so\<lparr>txStream := Some b', usTimeout := 1\<rparr>,
                    if k_CallingFromIPTask e then w else k_SendEventToIPTask e w) })"

partial_function (option) tcp_send_loop ::
    "'k tcp_rtos \<Rightarrow> u32 \<Rightarrow> size_t \<Rightarrow> 'k \<Rightarrow> tcp_socket \<Rightarrow> char list option \<Rightarrow> int \<Rightarrow> int \<Rightarrow> int \<Rightarrow> u32 option
     \<Rightarrow> (int \<times> tcp_socket option \<times> 'k) option" where
  "tcp_send_loop e flags len w so src left sent cnt remaining =
     (if left \<le> 0 then Some (sent, Some so, w)
      else do { (n, so, w) \<leftarrow> (if 0 < cnt then tcp_send_chunk e w so src left cnt else Some (0, so, w));
                let left = left - n; let sent = sent + n;
                if 0 < cnt \<and> (left = 0 \<or> src = None) then Some (sent, Some so, w)
                else let src = map_option (drop (nat n)) src;
                         block = (if k_CallingFromIPTask e then 0 else xSendBlockTime so)
                     in if remaining = None \<and> (block = 0 \<or> and flags FREERTOS_MSG_DONTWAIT \<noteq> 0)
                        then Some (sent, Some so, w)
                        else let (out, time, w) = (case remaining of
                                   None \<Rightarrow> (False, block, k_SetTimeOutState e w)
                                 | Some t \<Rightarrow> k_CheckForTimeOut e w t)
                             in if out then Some (sent, Some so, w)
                                else let (bits, so, w) = k_WaitBits e w so (or eSOCKET_SEND eSOCKET_CLOSED) time
                                     in do { (r, oso, w) \<leftarrow> prvTCPSendCheck e w (Some so) len;
                                             so \<leftarrow> oso;
                                             if r < 0 then Some (sent, Some so, w)
                                             else do { b \<leftarrow> txStream so;
                                                       tcp_send_loop e flags len w so src left sent
                                                         (sint (uxStreamBufferGetSpace b)) (Some time) } } })"

definition prvTCPSendLoop ::
    "'k tcp_rtos \<Rightarrow> 'k \<Rightarrow> tcp_socket \<Rightarrow> char list option \<Rightarrow> size_t \<Rightarrow> u32 \<Rightarrow> (int \<times> tcp_socket option \<times> 'k) option" where
  "prvTCPSendLoop e w so pvBuffer uxDataLength xFlags =
     do { b \<leftarrow> txStream so;
          tcp_send_loop e xFlags uxDataLength w so pvBuffer (sint uxDataLength) 0 (sint (uxStreamBufferGetSpace b)) None }"

definition FreeRTOS_send ::
    "'k tcp_rtos \<Rightarrow> 'k \<Rightarrow> tcp_socket option \<Rightarrow> char list option \<Rightarrow> size_t \<Rightarrow> u32 \<Rightarrow> (int \<times> tcp_socket option \<times> 'k) option" where
  "FreeRTOS_send e w oso pvBuffer uxDataLength xFlags =
     do { (r, oso, w) \<leftarrow> prvTCPSendCheck e w oso uxDataLength;
          if 0 < r
          then do { so \<leftarrow> oso;
                    (n, oso, w) \<leftarrow> prvTCPSendLoop e w so pvBuffer uxDataLength xFlags;
                    so \<leftarrow> oso;
                    if n = 0
                    then Some (if 5 < tcp_state_value (eTCPState so) then - k_ENOTCONN e else - k_ENOSPC e, oso, w)
                    else Some (n, oso, w) }
          else Some (r, oso, w) }"

section \<open>Receiving\<close>

text \<open>The bytes at the pointer that a zero-copy reception returns are part of the result.\<close>

definition prvRecvData ::
    "'k tcp_rtos \<Rightarrow> 'k \<Rightarrow> tcp_socket \<Rightarrow> bool \<Rightarrow> size_t \<Rightarrow> u32 \<Rightarrow> (int \<times> char list \<times> tcp_socket \<times> 'k) option" where
  "prvRecvData e w so want uxBufferLength xFlags =
     do { b \<leftarrow> rxStream so;
          if and xFlags FREERTOS_ZERO_COPY = 0
          then do { (n, data, b) \<leftarrow> uxStreamBufferGet b 0 want uxBufferLength (and xFlags FREERTOS_MSG_PEEK \<noteq> 0);
                    let so = so\<lparr>rxStream := Some b\<rparr>;
                    Some (if bLowWater so \<and> uxEnoughSpace so \<le> uxStreamBufferFrontSpace b
                          then (sint n, data, so\<lparr>bLowWater := False, bWinChange := True, usTimeout := 1\<rparr>,
                                k_SendEventToIPTask e w)
                          else (sint n, data, so, w)) }
          else let (n, p) = uxStreamBufferGetPtr b
               in do { data \<leftarrow> mem_read (ucArray b) p (unat n); Some (sint n, data, so, w) } }"

definition rx_count :: "tcp_socket \<Rightarrow> int \<Rightarrow> int" where
  "rx_count so n = (case rxStream so of None \<Rightarrow> n | Some b \<Rightarrow> sint (uxStreamBufferGetSize b))"

partial_function (option) tcp_recv_wait ::
    "'k tcp_rtos \<Rightarrow> u32 \<Rightarrow> 'k \<Rightarrow> tcp_socket \<Rightarrow> int \<Rightarrow> u32 \<Rightarrow> u32 option \<Rightarrow> (int \<times> u32 \<times> tcp_socket \<times> 'k) option" where
  "tcp_recv_wait e flags w so n bits remaining =
     (if n \<noteq> 0 then Some (n, bits, so, w)
      else if eTCPState so = eCLOSED \<or> eTCPState so = eCLOSE_WAIT \<or> eTCPState so = eCLOSING
      then Some (if bMallocError so then - k_ENOMEM e else - k_ENOTCONN e, bits, so, w)
      else if remaining = None \<and> xReceiveBlockTime so = 0
      then if k_SUPPORT_SIGNALS e
           then let (bits, so, w) = k_WaitBits e w so eSOCKET_INTR 0 in Some (0, bits, so, w)
           else Some (0, bits, so, w)
      else if remaining = None \<and> and flags FREERTOS_MSG_DONTWAIT \<noteq> 0 then Some (0, bits, so, w)
      else let (time, w) = (case remaining of None \<Rightarrow> (xReceiveBlockTime so, k_SetTimeOutState e w) | Some t \<Rightarrow> (t, w));
               (out, time, w) = k_CheckForTimeOut e w time
           in if out then Some (0, bits, so, w)
              else let (bits, so, w) = k_WaitBits e w so (or eSOCKET_RECEIVE (or eSOCKET_CLOSED eSOCKET_INTR)) time
                   in if k_SUPPORT_SIGNALS e \<and> and bits eSOCKET_INTR \<noteq> 0 then Some (0, bits, so, w)
                      else tcp_recv_wait e flags w so (rx_count so 0) bits (Some time))"

definition prvRecvWait ::
    "'k tcp_rtos \<Rightarrow> 'k \<Rightarrow> tcp_socket \<Rightarrow> u32 \<Rightarrow> (int \<times> u32 \<times> tcp_socket \<times> 'k) option" where
  "prvRecvWait e w so xFlags = tcp_recv_wait e xFlags w so (rx_count so 0) 0 None"

definition FreeRTOS_recv ::
    "'k tcp_rtos \<Rightarrow> 'k \<Rightarrow> tcp_socket option \<Rightarrow> bool \<Rightarrow> size_t \<Rightarrow> u32 \<Rightarrow> (int \<times> char list \<times> tcp_socket option \<times> 'k) option" where
  "FreeRTOS_recv e w oso want uxBufferLength xFlags =
     (if \<not> prvValidSocket oso IPPROTO_TCP True then Some (- k_EINVAL e, [], oso, w)
      else if and xFlags FREERTOS_ZERO_COPY \<noteq> 0 \<and> \<not> want then Some (- k_EINVAL e, [], oso, w)
      else do { so \<leftarrow> oso;
                (n, bits, so, w) \<leftarrow> prvRecvWait e w so xFlags;
                if k_SUPPORT_SIGNALS e \<and> and bits eSOCKET_INTR \<noteq> 0
                then Some (- k_EINTR e, [], Some so,
                           if and bits (or eSOCKET_RECEIVE eSOCKET_CLOSED) \<noteq> 0
                           then k_SetBits e w (and bits (not eSOCKET_INTR)) else w)
                else if 0 < n
                then do { (n, data, so, w) \<leftarrow> prvRecvData e w so want uxBufferLength xFlags;
                          Some (n, data, Some so, w) }
                else Some (n, [], Some so, w) })"

text \<open>
  The bytes of a zero-copy reception are given back by reading them once more, without a buffer;
  a failed assertion is a fault.  \<open>pvBuffer\<close> is the index of the pointer in \<^verbatim>\<open>ucArray\<close>.
\<close>

definition FreeRTOS_ReleaseTCPPayloadBuffer ::
    "'k tcp_rtos \<Rightarrow> 'k \<Rightarrow> tcp_socket option \<Rightarrow> nat \<Rightarrow> int \<Rightarrow> (bool \<times> tcp_socket option \<times> 'k) option" where
  "FreeRTOS_ReleaseTCPPayloadBuffer e w oso pvBuffer xByteCount =
     do { so \<leftarrow> oso;
          b \<leftarrow> rxStream so;
          let (uxBytesAvailable, pucData) = uxStreamBufferGetPtr b;
          if pucData = pvBuffer \<and> of_int xByteCount \<le> uxBytesAvailable
          then do { (xByteCountReleased, d, oso, w) \<leftarrow> FreeRTOS_recv e w oso False (of_int xByteCount) FREERTOS_MSG_DONTWAIT;
                    if xByteCountReleased = xByteCount then Some (True, oso, w) else None }
          else None }"

section \<open>The side of the IP task\<close>

text \<open>
  What the IP task does with the streams: it stores the payload of a segment that arrives, at an
  offset when it is out of order, and takes the bytes that the peer has acknowledged off the
  transmit stream.  The call-backs of an application are compiled out by default and are left out.
\<close>

definition vTCPAddRxdata_Stored :: "'k tcp_rtos \<Rightarrow> 'k \<Rightarrow> tcp_socket \<Rightarrow> (tcp_socket \<times> 'k) option" where
  "vTCPAddRxdata_Stored e w so =
     do { (so, w) \<leftarrow> (if bLowWater so then Some (so, w)
            else do { b \<leftarrow> rxStream so;
                      Some (if uxStreamBufferFrontSpace b \<le> uxLittleSpace so
                            then (so\<lparr>bLowWater := True, bWinChange := True, usTimeout := 1\<rparr>, k_SendEventToIPTask e w)
                            else (so, w)) });
          let so = so\<lparr>xEventBits := or (xEventBits so) eSOCKET_RECEIVE\<rparr>;
          Some (if k_SUPPORT_SELECT e \<and> and (xSelectBits so) eSELECT_READ \<noteq> 0
                then so\<lparr>xEventBits := or (xEventBits so) (push_bit SOCKET_EVENT_BIT_COUNT eSELECT_READ)\<rparr> else so, w) }"

definition lTCPAddRxdata ::
    "'k tcp_rtos \<Rightarrow> 'k \<Rightarrow> tcp_socket \<Rightarrow> size_t \<Rightarrow> char list option \<Rightarrow> u32 \<Rightarrow> (int \<times> tcp_socket \<times> 'k) option" where
  "lTCPAddRxdata e w so uxOffset pcData ulByteCount =
     do { (so, w) \<leftarrow> (if rxStream so = None then prvTCPCreateStream e w so True else Some (so, w));
          case rxStream so of
            None \<Rightarrow> Some (- 1, so, w)
          | Some b \<Rightarrow>
              do { (n, b') \<leftarrow> uxStreamBufferAdd b uxOffset pcData ulByteCount;
                   let so = so\<lparr>rxStream := Some b'\<rparr>;
                   (so, w) \<leftarrow> (if uxOffset = 0 then vTCPAddRxdata_Stored e w so else Some (so, w));
                   Some (sint n, so, w) } }"

definition tcp_tx_acked :: "'k tcp_rtos \<Rightarrow> tcp_socket \<Rightarrow> u32 \<Rightarrow> tcp_socket option" where
  "tcp_tx_acked e so ulCount =
     (case txStream so of
        None \<Rightarrow> Some so
      | Some b \<Rightarrow>
          if ulCount = 0 then Some so
          else do { (n, d, b') \<leftarrow> uxStreamBufferGet b 0 False ulCount False;
                    let so = so\<lparr>txStream := Some b'\<rparr>;
                    Some (if n = 0 then so
                          else let so = so\<lparr>xEventBits := or (xEventBits so) eSOCKET_SEND\<rparr>
                               in if k_SUPPORT_SELECT e \<and> and (xSelectBits so) eSELECT_WRITE \<noteq> 0
                                  then so\<lparr>xEventBits := or (xEventBits so) (push_bit SOCKET_EVENT_BIT_COUNT eSELECT_WRITE)\<rparr>
                                  else so) })"

section \<open>Queries\<close>

definition FreeRTOS_tx_space :: "'k tcp_rtos \<Rightarrow> tcp_socket \<Rightarrow> int" where
  "FreeRTOS_tx_space e so =
     (if fr_protocol so \<noteq> IPPROTO_TCP then - k_EINVAL e
      else case txStream so of Some b \<Rightarrow> sint (uxStreamBufferGetSpace b) | None \<Rightarrow> sint (uxTxStreamSize so))"

definition FreeRTOS_tx_size :: "'k tcp_rtos \<Rightarrow> tcp_socket \<Rightarrow> int" where
  "FreeRTOS_tx_size e so =
     (if fr_protocol so \<noteq> IPPROTO_TCP then - k_EINVAL e
      else case txStream so of Some b \<Rightarrow> sint (uxStreamBufferGetSize b) | None \<Rightarrow> 0)"

definition FreeRTOS_rx_size :: "'k tcp_rtos \<Rightarrow> tcp_socket \<Rightarrow> int" where
  "FreeRTOS_rx_size e so =
     (if fr_protocol so \<noteq> IPPROTO_TCP then - k_EINVAL e
      else case rxStream so of Some b \<Rightarrow> sint (uxStreamBufferGetSize b) | None \<Rightarrow> 0)"

definition FreeRTOS_issocketconnected :: "'k tcp_rtos \<Rightarrow> tcp_socket \<Rightarrow> int" where
  "FreeRTOS_issocketconnected e so =
     (if fr_protocol so \<noteq> IPPROTO_TCP then - k_EINVAL e
      else if 5 \<le> tcp_state_value (eTCPState so) \<and> tcp_state_value (eTCPState so) < 8 then 1 else 0)"

end
