(* ===== verification/Tcp_Stream.thy ===== *)
theory Tcp_Stream
  imports Tcp_Socket
begin

text \<open>
  The sockets of \<open>Tcp_Socket\<close> as byte streams.  On a socket in the non-blocking mode that the HTTP
  server selects (both time-outs zero) every call returns, keeps the socket well-formed, and
  moves exactly the bytes it reports between the caller and the two stream buffers.
\<close>

section \<open>Well-formed sockets\<close>

definition tx_bytes :: "tcp_socket \<Rightarrow> char list" where
  "tx_bytes so = (case txStream so of None \<Rightarrow> [] | Some b \<Rightarrow> sb_contents b)"

definition rx_bytes :: "tcp_socket \<Rightarrow> char list" where
  "rx_bytes so = (case rxStream so of None \<Rightarrow> [] | Some b \<Rightarrow> sb_contents b)"

text \<open>The length of the array that \<^verbatim>\<open>prvTCPCreateStream\<close> makes for a stream of a given size.\<close>

definition stream_length :: "size_t \<Rightarrow> size_t" where
  "stream_length n = and (n + 4) (not 3)"

definition tx_room :: "tcp_socket \<Rightarrow> nat" where
  "tx_room so = (case txStream so of None \<Rightarrow> unat (stream_length (uxTxStreamSize so)) - 1
                 | Some b \<Rightarrow> sb_capacity b - length (sb_contents b))"

definition sock_wf :: "tcp_socket \<Rightarrow> bool" where
  "sock_wf so \<longleftrightarrow> fr_protocol so = IPPROTO_TCP
     \<and> unat (uxTxStreamSize so) < 2 ^ 31 - 4 \<and> unat (uxRxStreamSize so) < 2 ^ 31 - 4 \<and> usMSS so \<noteq> 0
     \<and> (case txStream so of None \<Rightarrow> True | Some b \<Rightarrow> sb_wf b) \<and> (case rxStream so of None \<Rightarrow> True | Some b \<Rightarrow> sb_wf b)"

text \<open>
  A socket that can send without blocking: no FIN has been sent, after which a send would
  return 0 and the space would still be reported, and both time-outs are zero.
\<close>

definition sock_ok :: "tcp_socket \<Rightarrow> bool" where
  "sock_ok so \<longleftrightarrow> sock_wf so \<and> \<not> bFinSent so \<and> xSendBlockTime so = 0 \<and> xReceiveBlockTime so = 0"

definition same_mode :: "tcp_socket \<Rightarrow> tcp_socket \<Rightarrow> bool" where
  "same_mode so so' \<longleftrightarrow> bFinSent so' = bFinSent so \<and> xSendBlockTime so' = xSendBlockTime so
     \<and> xReceiveBlockTime so' = xReceiveBlockTime so \<and> fr_bound so' = fr_bound so"

lemma same_mode_trans: "same_mode a b \<Longrightarrow> same_mode b c \<Longrightarrow> same_mode a c"
  by (simp add: same_mode_def)

lemma sock_ok_mode: "sock_ok so \<Longrightarrow> sock_wf so' \<Longrightarrow> same_mode so so' \<Longrightarrow> sock_ok so'"
  by (simp add: sock_ok_def same_mode_def)

text \<open>
  What the kernel guarantees: positive error numbers, blocks of the requested size, a look at
  the event bits without waiting that leaves the socket alone, and a change of the TCP state
  that touches neither the streams nor the settings of a socket.
\<close>

definition rtos_ok :: "'k tcp_rtos \<Rightarrow> bool" where
  "rtos_ok e \<longleftrightarrow> 0 < k_EINVAL e \<and> 0 < k_ENOMEM e \<and> 0 < k_ENOTCONN e \<and> 0 < k_ENOSPC e \<and> 0 < k_EINTR e
     \<and> (\<forall>w n m. fst (k_MallocLarge e w n) = Some m \<longrightarrow> length m = n)
     \<and> (\<forall>w so bits. fst (snd (k_WaitBits e w so bits 0)) = so)
     \<and> (\<forall>w so st. \<exists>t u v. fst (k_TCPStateChange e w so st) = so\<lparr>eTCPState := t, usTimeout := u, bCloseRequested := v\<rparr>)"

lemma rtos_okD:
  assumes "rtos_ok e"
  shows "0 < k_EINVAL e" "0 < k_ENOMEM e" "0 < k_ENOTCONN e" "0 < k_ENOSPC e" "0 < k_EINTR e"
    and "k_MallocLarge e w n = (Some m, w') \<Longrightarrow> length m = n"
    and "k_WaitBits e w so bits 0 = (bits', so', w') \<Longrightarrow> so' = so"
    and "k_TCPStateChange e w so st = (so', w') \<Longrightarrow> \<exists>t u v. so' = so\<lparr>eTCPState := t, usTimeout := u, bCloseRequested := v\<rparr>"
proof -
  have *: "0 < k_EINVAL e \<and> 0 < k_ENOMEM e \<and> 0 < k_ENOTCONN e \<and> 0 < k_ENOSPC e \<and> 0 < k_EINTR e"
    "fst (k_MallocLarge e w n) = Some m \<longrightarrow> length m = n" "fst (snd (k_WaitBits e w so bits 0)) = so"
    "\<exists>t u v. fst (k_TCPStateChange e w so st) = so\<lparr>eTCPState := t, usTimeout := u, bCloseRequested := v\<rparr>"
    using assms unfolding rtos_ok_def by simp_all
  then show "0 < k_EINVAL e" "0 < k_ENOMEM e" "0 < k_ENOTCONN e" "0 < k_ENOSPC e" "0 < k_EINTR e" by simp_all
  from * show "k_MallocLarge e w n = (Some m, w') \<Longrightarrow> length m = n"
    and "k_WaitBits e w so bits 0 = (bits', so', w') \<Longrightarrow> so' = so"
    and "k_TCPStateChange e w so st = (so', w') \<Longrightarrow> \<exists>t u v. so' = so\<lparr>eTCPState := t, usTimeout := u, bCloseRequested := v\<rparr>"
    by auto
qed

section \<open>Lengths\<close>

lemma word_and_plus_and_not: "and x m + and x (not m) = (x :: 'n::len word)"
proof -
  have "and (and x m) (and x (not m)) = 0" by (simp add: bit_eq_iff bit_simps)
  moreover have "or (and x m) (and x (not m)) = x" by (simp add: bit_eq_iff bit_simps) blast
  ultimately show ?thesis using word_plus_and_or [of "and x m" "and x (not m)"] by simp
qed

lemma unat_stream_length:
  assumes "unat n < 2 ^ 31 - 4"
  shows "unat n < unat (stream_length n)" and "unat (stream_length n) \<le> 2 ^ 31" and "0 < unat (stream_length n)"
proof -
  have n4: "unat (n + 4) = unat n + 4" using assms by (subst unat_plus_no_wrap) simp_all
  have "and (n + 4) 3 \<le> 3" by (rule word_and_le1)
  then have le: "unat (and (n + 4) 3) \<le> 3" by (simp add: word_le_nat_alt)
  have "stream_length n = (n + 4) - and (n + 4) 3"
    using word_and_plus_and_not [of "n + 4" 3] by (simp add: stream_length_def algebra_simps)
  moreover have "and (n + 4) 3 \<le> n + 4" by (simp add: word_and_le2)
  ultimately have "unat (stream_length n) = unat n + 4 - unat (and (n + 4) 3)" using n4 by (simp add: unat_sub)
  with le assms show "unat n < unat (stream_length n)" and "unat (stream_length n) \<le> 2 ^ 31" and "0 < unat (stream_length n)"
    by linarith+
qed

lemma sint_small: "unat (x :: u32) < 2 ^ 31 \<Longrightarrow> sint x = int (unat x)"
  by (rule sint_size) (simp add: word_less_nat_alt)

lemma sb_counts:
  assumes "sb_wf b"
  shows "sint (uxStreamBufferGetSpace b) = int (sb_capacity b - length (sb_contents b))"
    and "sint (uxStreamBufferGetSize b) = int (length (sb_contents b))"
    and "sb_capacity b < 2 ^ 31" and "length (sb_contents b) < 2 ^ 31"
proof -
  have *: "unat (uxStreamBufferGetSize b) + unat (uxStreamBufferGetSpace b) + 1 \<le> 2 ^ 31"
    using size_plus_space [OF assms] sb_wfD(2) [OF assms] by simp
  have sp: "sb_capacity b - length (sb_contents b) = unat (uxStreamBufferGetSpace b)"
    using size_plus_space [OF assms] by (simp add: sb_capacity_def)
  show "sint (uxStreamBufferGetSpace b) = int (sb_capacity b - length (sb_contents b))"
    unfolding sp using * by (intro sint_small) linarith
  show "sint (uxStreamBufferGetSize b) = int (length (sb_contents b))"
    unfolding length_contents using * by (intro sint_small) linarith
  show "sb_capacity b < 2 ^ 31" using sb_wfD(1,2) [OF assms] by (simp add: sb_capacity_def)
  show "length (sb_contents b) < 2 ^ 31" using * by simp
qed

lemma tx_space_room:
  assumes "sock_ok so"
  shows "0 \<le> FreeRTOS_tx_space e so" and "FreeRTOS_tx_space e so \<le> int (tx_room so)" and "FreeRTOS_tx_space e so < 2 ^ 31"
proof -
  have "0 \<le> FreeRTOS_tx_space e so \<and> FreeRTOS_tx_space e so \<le> int (tx_room so) \<and> FreeRTOS_tx_space e so < 2 ^ 31"
  proof (cases "txStream so")
    case None
    have u: "unat (uxTxStreamSize so) < 2 ^ 31 - 4" using assms by (simp add: sock_ok_def sock_wf_def)
    define m where "m = unat (uxTxStreamSize so)"
    have m: "m < 2 ^ 31 - 4" "m < unat (stream_length (uxTxStreamSize so))" using u unat_stream_length(1) [OF u] by (simp_all add: m_def)
    have "sint (uxTxStreamSize so) = int m" unfolding m_def using u by (intro sint_small) simp
    then have "FreeRTOS_tx_space e so = int m" using None assms by (simp add: FreeRTOS_tx_space_def sock_ok_def sock_wf_def)
    moreover have "m \<le> tx_room so" using None m(2) by (simp add: tx_room_def)
    ultimately show ?thesis using m(1) by simp
  next
    case (Some b)
    then have "sb_wf b" using assms by (simp add: sock_ok_def sock_wf_def)
    with Some assms sb_counts [OF this] show ?thesis
      by (simp add: FreeRTOS_tx_space_def sock_ok_def sock_wf_def tx_room_def)
  qed
  then show "0 \<le> FreeRTOS_tx_space e so" "FreeRTOS_tx_space e so \<le> int (tx_room so)" "FreeRTOS_tx_space e so < 2 ^ 31"
    by simp_all
qed

section \<open>Sending\<close>

text \<open>
  \<open>sent_ok so d r so'\<close>: a call that was to send \<open>d\<close> returned \<open>r\<close> and left the socket \<open>so'\<close>.  A
  failure sends nothing; otherwise the first \<open>r\<close> bytes are appended to the transmit stream, and
  these are as many as there was room for.
\<close>

definition sent_ok :: "tcp_socket \<Rightarrow> char list \<Rightarrow> int \<Rightarrow> tcp_socket \<Rightarrow> bool" where
  "sent_ok so d r so' \<longleftrightarrow> sock_ok so' \<and> rx_bytes so' = rx_bytes so
     \<and> (if r < 0 then tx_bytes so' = tx_bytes so
        else nat r \<le> length d \<and> min (length d) (tx_room so) \<le> nat r \<and> tx_bytes so' = tx_bytes so @ take (nat r) d)"

lemma stream_thresholds_kept:
  assumes "usMSS so \<noteq> 0"
  obtains l h where "stream_thresholds so = Some (so\<lparr>uxLittleSpace := l, uxEnoughSpace := h\<rparr>)"
proof -
  have *: "so\<lparr>uxLittleSpace := uxLittleSpace so\<rparr> = so" "so\<lparr>uxEnoughSpace := uxEnoughSpace so\<rparr> = so" for so :: tcp_socket by simp_all
  obtain l where l: "(if uxLittleSpace so = 0 then so\<lparr>uxLittleSpace := x\<rparr> else so) = so\<lparr>uxLittleSpace := l x\<rparr>" for x
    using that [of "\<lambda>x. if uxLittleSpace so = 0 then x else uxLittleSpace so"] by simp
  obtain h where h: "(if uxEnoughSpace so = 0 then so\<lparr>uxLittleSpace := y, uxEnoughSpace := x\<rparr> else so\<lparr>uxLittleSpace := y\<rparr>)
      = so\<lparr>uxLittleSpace := y, uxEnoughSpace := h x\<rparr>" for x y
    using that [of "\<lambda>x. if uxEnoughSpace so = 0 then x else uxEnoughSpace so"] by simp
  show thesis using assms by (intro that) (simp add: stream_thresholds_def Let_def split_beta l h del: stream_percent.simps)
qed

text \<open>The stream of one direction, and a socket with a new one; \<open>l\<close> and \<open>h\<close> are the thresholds.\<close>

definition stream_of :: "bool \<Rightarrow> tcp_socket \<Rightarrow> char stream_buffer option" where
  "stream_of inp so = (if inp then rxStream so else txStream so)"

definition stream_size :: "bool \<Rightarrow> tcp_socket \<Rightarrow> size_t" where
  "stream_size inp so = (if inp then uxRxStreamSize so else uxTxStreamSize so)"

definition with_stream :: "bool \<Rightarrow> size_t \<Rightarrow> size_t \<Rightarrow> char stream_buffer \<Rightarrow> tcp_socket \<Rightarrow> tcp_socket" where
  "with_stream inp l h b so =
     (if inp then so\<lparr>uxLittleSpace := l, uxEnoughSpace := h, rxStream := Some b\<rparr> else so\<lparr>txStream := Some b\<rparr>)"

lemma create_stream:
  assumes e: "rtos_ok e" and so: "sock_wf so" "stream_of inp so = None"
  obtains (failed) so' w' where "prvTCPCreateStream e w so inp = Some (so', w')" and "txStream so' = txStream so"
      and "rxStream so' = rxStream so" and "sock_wf so'" and "same_mode so so'"
  | (created) l h b w' where "prvTCPCreateStream e w so inp = Some (with_stream inp l h b so, w')" and "sb_wf b"
      and "sb_contents b = []" and "sb_capacity b = unat (stream_length (stream_size inp so)) - 1"
proof -
  let ?n = "stream_length (stream_size inp so)"
  have "unat (stream_size inp so) < 2 ^ 31 - 4" using so(1) by (simp add: sock_ok_def sock_wf_def stream_size_def)
  from unat_stream_length(2,3) [OF this] have n: "unat ?n \<le> 2 ^ 31" "0 < unat ?n" by simp_all
  have sz: "unat (20 + ?n) = 20 + unat ?n" using n(1) by (subst unat_plus_no_wrap) simp_all
  have "usMSS so \<noteq> 0" using so(1) by (simp add: sock_ok_def sock_wf_def)
  then obtain l h where t: "stream_thresholds so = Some (so\<lparr>uxLittleSpace := l, uxEnoughSpace := h\<rparr>)"
    by (rule stream_thresholds_kept)
  obtain blk w1 where m: "k_MallocLarge e w (unat (20 + ?n)) = (blk, w1)" by (cases "k_MallocLarge e w (unat (20 + ?n))")
  note eqs = prvTCPCreateStream_def t stream_length_def stream_size_def Let_def
  show thesis
  proof (cases blk)
    case None
    let ?so = "(if inp then so\<lparr>uxLittleSpace := l, uxEnoughSpace := h\<rparr> else so)\<lparr>bMallocError := True\<rparr>"
    obtain so' w' where c: "k_TCPStateChange e w1 ?so eCLOSE_WAIT = (so', w')" by (cases "k_TCPStateChange e w1 ?so eCLOSE_WAIT")
    obtain t u v where so': "so' = ?so\<lparr>eTCPState := t, usTimeout := u, bCloseRequested := v\<rparr>"
      using rtos_okD(8) [OF e c] by auto
    have "prvTCPCreateStream e w so inp = Some (so', w')" using m None c by (cases inp) (simp_all add: eqs)
    then show thesis by (rule failed) (use so in \<open>simp_all add: so' sock_wf_def same_mode_def stream_of_def split: if_splits\<close>)
  next
    case (Some mem)
    have len: "length mem = 20 + unat ?n" using rtos_okD(6) [OF e] m Some sz by fastforce
    define b where "b = \<lparr>uxTail = 0, uxMid = 0, uxHead = 0, uxFront = 0, sbLENGTH = ?n, ucArray = take (unat ?n) (drop 20 mem)\<rparr>"
    have "mem_read mem 20 (unat ?n) = Some (take (unat ?n) (drop 20 mem))" using len by (simp add: mem_read_def)
    then have eq: "prvTCPCreateStream e w so inp = Some (with_stream inp l h b so, w1)"
      using m Some by (cases inp) (simp_all add: eqs b_def with_stream_def)
    have wf: "sb_wf b" using n len by (simp add: b_def sb_wf_def)
    have "unat (uxStreamBufferGetSize b) = 0" using unat_size [OF wf] by (simp add: b_def ring_dist_def)
    then have "sb_contents b = []" by (simp add: sb_contents_def sb_view_def)
    then show thesis by (intro created [OF eq wf]) (simp_all add: sb_capacity_def b_def)
  qed
qed

text \<open>One pass of the loop appends as much of the data as there is room for.\<close>

lemma send_chunk:
  assumes so: "sock_wf so" and tx: "txStream so = Some b" and d: "length d < 2 ^ 31"
  defines "n \<equiv> min (length d) (tx_room so)"
  obtains so' where "tcp_send_chunk e w so (Some d) (int (length d)) (int (tx_room so)) =
      Some (int n, so', if k_CallingFromIPTask e then w else k_SendEventToIPTask e w)"
    and "sock_wf so'" and "same_mode so so'" and "rx_bytes so' = rx_bytes so" and "tx_bytes so' = tx_bytes so @ take n d"
    and "txStream so' \<noteq> None"
proof -
  have wf: "sb_wf b" using so tx by (simp add: sock_wf_def)
  have room: "tx_room so = sb_capacity b - length (sb_contents b)" using tx by (simp add: tx_room_def)
  have n: "int n < 2 ^ 31" using d by (simp add: n_def)
  have un: "unat (of_int (int n) :: size_t) = n" using n by (simp add: unat_of_nat_32)
  have le: "unat (of_int (int n) :: size_t) \<le> length d" unfolding un by (simp add: n_def)
  obtain c b' where a: "uxStreamBufferAdd b 0 (Some d) (of_int (int n)) = Some (c, b')"
      "unat c = min (unat (of_int (int n) :: size_t)) (sb_capacity b - length (sb_contents b))" "sb_wf b'"
      "sb_contents b' = sb_contents b @ take (unat c) d"
    by (rule sb_add_contents [OF wf le])
  have cn: "unat c = n" unfolding a(2) un room [symmetric] by (simp add: n_def)
  have sc: "sint c = int n" using sint_small [of c] cn n by simp
  define cr where "cr = (if bCloseAfterSend so \<and> n = length d then so\<lparr>bCloseRequested := True\<rparr> else so)"
  define so' where "so' = cr\<lparr>txStream := Some b', usTimeout := 1\<rparr>"
  have cnt: "(if int (length d) < int (tx_room so) then int (length d) else int (tx_room so)) = int n" by (simp add: n_def)
  have txc: "txStream cr = Some b" by (simp add: cr_def tx)
  have "tcp_send_chunk e w so (Some d) (int (length d)) (int (tx_room so)) =
      Some (int n, so', if k_CallingFromIPTask e then w else k_SendEventToIPTask e w)"
    using a(1) sc txc unfolding tcp_send_chunk_def cnt Let_def of_nat_eq_iff cr_def [symmetric] by (simp add: so'_def)
  then show thesis
    by (rule that) (use so a(3,4) cn tx in \<open>simp_all add: so'_def cr_def sock_wf_def same_mode_def rx_bytes_def tx_bytes_def\<close>)
qed

lemma space_room: "sock_wf so \<Longrightarrow> txStream so = Some b \<Longrightarrow> sint (uxStreamBufferGetSpace b) = int (tx_room so)"
  using sb_counts(1) [of b] by (simp add: sock_wf_def tx_room_def)

lemma send_loop_nonblocking:
  assumes so: "sock_ok so" and tx: "txStream so = Some b" and d: "length d < 2 ^ 31" "d \<noteq> []"
  defines "n \<equiv> min (length d) (tx_room so)"
  shows "\<exists>so' w'. prvTCPSendLoop e w so (Some d) (of_nat (length d)) flags = Some (int n, Some so', w')
    \<and> sock_ok so' \<and> rx_bytes so' = rx_bytes so \<and> tx_bytes so' = tx_bytes so @ take n d"
proof -
  have wf: "sock_wf so" and nb: "xSendBlockTime so = 0" using so by (simp_all add: sock_ok_def)
  have ul: "unat (of_nat (length d) :: size_t) = length d" using d by (simp add: unat_of_nat_32)
  have sl: "sint (of_nat (length d) :: size_t) = int (length d)" using sint_small [of "of_nat (length d)"] ul d by simp
  note room = space_room [OF wf tx]
  show ?thesis
  proof (cases "tx_room so = 0")
    case True
    then have "prvTCPSendLoop e w so (Some d) (of_nat (length d)) flags = Some (0, Some so, w)"
      using d nb by (simp add: prvTCPSendLoop_def tx sl room tcp_send_loop.simps)
    with True so show ?thesis by (simp add: n_def)
  next
    case False
    obtain so' where ch: "tcp_send_chunk e w so (Some d) (int (length d)) (int (tx_room so)) =
        Some (int n, so', if k_CallingFromIPTask e then w else k_SendEventToIPTask e w)"
      and so': "sock_wf so'" "same_mode so so'" "rx_bytes so' = rx_bytes so" "tx_bytes so' = tx_bytes so @ take n d"
      unfolding n_def by (rule send_chunk [OF wf tx d(1)])
    have "xSendBlockTime so' = 0" using nb so'(2) by (simp add: same_mode_def)
    then have "prvTCPSendLoop e w so (Some d) (of_nat (length d)) flags =
        Some (int n, Some so', if k_CallingFromIPTask e then w else k_SendEventToIPTask e w)"
      using False d by (simp add: prvTCPSendLoop_def tx sl room tcp_send_loop.simps ch)
    then show ?thesis using sock_ok_mode [OF so so'(1,2)] so'(3,4) by auto
  qed
qed

lemma send_check:
  assumes e: "rtos_ok e" and so: "sock_wf so"
  obtains (refused) r so' w' where "prvTCPSendCheck e w (Some so) n = Some (r, Some so', w')" and "r < 0 \<or> r = 0 \<and> (n = 0 \<or> bFinSent so)"
      and "sock_wf so'" and "same_mode so so'" and "tx_bytes so' = tx_bytes so" and "rx_bytes so' = rx_bytes so"
  | (ready) b so' w' where "prvTCPSendCheck e w (Some so) n = Some (1, Some so', w')" and "n \<noteq> 0" and "txStream so' = Some b"
      and "sock_wf so'" and "same_mode so so'" and "tx_bytes so' = tx_bytes so" and "rx_bytes so' = rx_bytes so" and "tx_room so' = tx_room so"
proof -
  let ?closed = "eTCPState so = eCLOSED \<or> eTCPState so = eCLOSE_WAIT \<or> eTCPState so = eCLOSING"
  define bad where "bad \<longleftrightarrow> \<not> prvValidSocket (Some so) IPPROTO_TCP True \<or> bMallocError so \<or> ?closed \<or> bFinSent so \<or> n = 0"
  define r where "r = (if \<not> prvValidSocket (Some so) IPPROTO_TCP True then - k_EINVAL e else if bMallocError so then - k_ENOMEM e
      else if ?closed then - k_ENOTCONN e else 0)"
  have eq: "prvTCPSendCheck e w (Some so) n = (if bad then Some (r, Some so, w)
      else if txStream so = None then do { (so, w) \<leftarrow> prvTCPCreateStream e w so False;
          Some (if txStream so = None then - k_ENOMEM e else 1, Some so, w) }
      else Some (1, Some so, w))"
    by (simp add: prvTCPSendCheck_def bad_def r_def)
  have r: "r < 0 \<or> r = 0 \<and> (n = 0 \<or> bFinSent so)" if bad using that rtos_okD(1-3) [OF e] by (auto simp: bad_def r_def)
  consider (early) bad | (old) b where "\<not> bad" "txStream so = Some b" | (new) "\<not> bad" "txStream so = None" by blast
  then show thesis
  proof cases
    case early
    with eq have "prvTCPSendCheck e w (Some so) n = Some (r, Some so, w)" by simp
    then show thesis by (rule refused) (use so r early in \<open>simp_all add: same_mode_def\<close>)
  next
    case (old b)
    with eq have "prvTCPSendCheck e w (Some so) n = Some (1, Some so, w)" by simp
    then show thesis by (rule ready) (use so old bad_def in \<open>simp_all add: same_mode_def\<close>)
  next
    case new
    then have None: "stream_of False so = None" by (simp add: stream_of_def)
    from e so None show thesis
    proof (cases rule: create_stream [where w = w])
      case (failed so' w')
      have "prvTCPSendCheck e w (Some so) n = Some (- k_ENOMEM e, Some so', w')" using failed new by (simp add: eq)
      then show thesis by (rule refused) (use failed rtos_okD(2) [OF e] in \<open>simp_all add: tx_bytes_def rx_bytes_def\<close>)
    next
      case (created l h b w')
      have "prvTCPSendCheck e w (Some so) n = Some (1, Some (with_stream False l h b so), w')"
        using created(1) new by (simp add: eq with_stream_def)
      then show thesis
        by (rule ready) (use so created new bad_def in
          \<open>simp_all add: with_stream_def same_mode_def sock_wf_def tx_bytes_def rx_bytes_def tx_room_def stream_size_def\<close>)
    qed
  qed
qed

lemma send_ok:
  assumes e: "rtos_ok e" and so: "sock_ok so" and d: "length d < 2 ^ 31"
  shows "\<exists>r so' w'. FreeRTOS_send e w (Some so) (Some d) (of_nat (length d)) flags = Some (r, Some so', w') \<and> sent_ok so d r so'"
proof -
  have wf: "sock_wf so" "\<not> bFinSent so" using so by (simp_all add: sock_ok_def)
  from e wf(1) show ?thesis
  proof (cases rule: send_check [where w = w and n = "of_nat (length d)"])
    case (refused r so' w')
    note ok = sock_ok_mode [OF so refused(3,4)]
    have "unat (of_nat (length d) :: size_t) = length d" using d by (simp add: unat_of_nat_32)
    then have "d = []" if "r = 0" using refused(2) that wf(2) by auto
    with refused ok show ?thesis by (auto simp: FreeRTOS_send_def sent_ok_def)
  next
    case (ready b so1 w1)
    note ok = sock_ok_mode [OF so ready(4,5)]
    have ne: "d \<noteq> []" using ready(2) by auto
    define n where "n = min (length d) (tx_room so1)"
    obtain so' w' where l: "prvTCPSendLoop e w1 so1 (Some d) (of_nat (length d)) flags = Some (int n, Some so', w')"
        "sock_ok so'" "rx_bytes so' = rx_bytes so1" "tx_bytes so' = tx_bytes so1 @ take n d"
      unfolding n_def using send_loop_nonblocking [OF ok ready(3) d ne, where e = e and w = w1 and flags = flags] by blast
    show ?thesis
    proof (cases "n = 0")
      case True
      define r where "r = (if 5 < tcp_state_value (eTCPState so') then - k_ENOTCONN e else - k_ENOSPC e)"
      have "FreeRTOS_send e w (Some so) (Some d) (of_nat (length d)) flags = Some (r, Some so', w')"
        using ready(1) l(1) True by (simp add: FreeRTOS_send_def r_def)
      moreover have "r < 0" using rtos_okD(3,4) [OF e] by (simp add: r_def)
      ultimately show ?thesis using l True ready(6,7) by (auto simp: sent_ok_def)
    next
      case False
      then have "FreeRTOS_send e w (Some so) (Some d) (of_nat (length d)) flags = Some (int n, Some so', w')"
        using ready(1) l(1) by (simp add: FreeRTOS_send_def)
      then show ?thesis using l ready(6-8) by (auto simp: sent_ok_def n_def)
    qed
  qed
qed

section \<open>Receiving\<close>

definition took :: "tcp_socket \<Rightarrow> nat \<Rightarrow> tcp_socket \<Rightarrow> bool" where
  "took so m so' \<longleftrightarrow> sock_wf so' \<and> same_mode so so' \<and> txStream so' = txStream so \<and> uxTxStreamSize so' = uxTxStreamSize so
     \<and> rx_bytes so' = drop m (rx_bytes so)"

definition rcvd_ok :: "tcp_socket \<Rightarrow> nat \<Rightarrow> int \<Rightarrow> char list \<Rightarrow> tcp_socket \<Rightarrow> bool" where
  "rcvd_ok so n r d so' \<longleftrightarrow> took so (nat r) so' \<and> r \<le> int n \<and> length d = nat r \<and> rx_bytes so = d @ rx_bytes so'"

text \<open>A copying read; with a \<^verbatim>\<open>NULL\<close> buffer the bytes are only taken off the stream.\<close>

lemma recv_data:
  fixes n :: size_t
  assumes so: "sock_wf so" and rx: "rxStream so = Some b" and fl: "and fl FREERTOS_ZERO_COPY = 0" "and fl FREERTOS_MSG_PEEK = 0"
  defines "m \<equiv> min (length (rx_bytes so)) (unat n)"
  obtains so' w' where "prvRecvData e w so want n fl = Some (int m, if want then take m (rx_bytes so) else [], so', w')"
    and "took so m so'"
proof -
  have wf: "sb_wf b" using so rx by (simp add: sock_wf_def)
  have m: "m = min (length (sb_contents b)) (unat n)" using rx by (simp add: m_def rx_bytes_def)
  obtain c b' where g: "uxStreamBufferGet b 0 want n False = Some (c, if want then take m (sb_contents b) else [], b')" "unat c = m"
      "sb_wf b'" "sb_contents b' = drop m (sb_contents b)"
    using uxStreamBufferGet_correct [OF wf, of 0 want n False] by (auto simp: m simp del: length_contents)
  have "m \<le> length (sb_contents b)" by (simp only: m min.cobounded1)
  then have "m < 2 ^ 31" using sb_counts(4) [OF wf] by linarith
  then have sc: "sint c = int m" using sint_small [of c] g(2) by simp
  define so1 where "so1 = so\<lparr>rxStream := Some b'\<rparr>"
  define low where "low = (bLowWater so1 \<and> uxEnoughSpace so1 \<le> uxStreamBufferFrontSpace b')"
  define so' where "so' = (if low then so1\<lparr>bLowWater := False, bWinChange := True, usTimeout := 1\<rparr> else so1)"
  have rb: "rx_bytes so = sb_contents b" using rx by (simp add: rx_bytes_def)
  let ?d = "if want then take m (rx_bytes so) else []"
  have "prvRecvData e w so want n fl =
      Some (if low then (int m, ?d, so1\<lparr>bLowWater := False, bWinChange := True, usTimeout := 1\<rparr>, k_SendEventToIPTask e w)
            else (int m, ?d, so1, w))"
    using g(1) rx sc fl unfolding low_def so1_def by (simp add: prvRecvData_def Let_def rb)
  then have "prvRecvData e w so want n fl = Some (int m, ?d, so', if low then k_SendEventToIPTask e w else w)"
    by (cases low) (simp_all only: so'_def if_True if_False)
  moreover have "took so m so'"
    using so rx g(3,4) by (simp add: took_def so'_def so1_def sock_wf_def same_mode_def rx_bytes_def)
  ultimately show thesis by (rule that)
qed

lemma flags_0 [simp]: "and 0 FREERTOS_ZERO_COPY = 0" "and 0 FREERTOS_MSG_PEEK = 0"
  by simp_all

lemma rcvd_okI: "took so m so' \<Longrightarrow> m = min (length (rx_bytes so)) n \<Longrightarrow> rcvd_ok so n (int m) (take m (rx_bytes so)) so'"
  by (simp add: rcvd_ok_def took_def)

lemma recv_ok:
  assumes e: "rtos_ok e" and so: "sock_ok so"
  shows "\<exists>r d so' w'. FreeRTOS_recv e w (Some so) True n 0 = Some (r, d, Some so', w') \<and> rcvd_ok so (unat n) r d so'"
proof -
  have none: "rcvd_ok so (unat n) r [] so" if "r \<le> 0" for r
    using that so order_trans [OF that of_nat_0_le_iff [of "unat n"]] by (simp add: rcvd_ok_def took_def sock_ok_def same_mode_def)
  have wf: "sock_wf so" and t0: "xReceiveBlockTime so = 0" using so by (simp_all add: sock_ok_def)
  have cnt: "rx_count so 0 = 0 \<or> (\<exists>b. rxStream so = Some b \<and> 0 < rx_count so 0)"
  proof (cases "rxStream so")
    case (Some b)
    then have "sint (uxStreamBufferGetSize b) = int (length (sb_contents b))" using so by (intro sb_counts) (simp add: sock_ok_def sock_wf_def)
    then show ?thesis using Some by (simp add: rx_count_def del: length_contents)
  qed (simp add: rx_count_def)
  consider (invalid) "\<not> prvValidSocket (Some so) IPPROTO_TCP True"
    | (some) b where "rxStream so = Some b" "0 < rx_count so 0" "prvValidSocket (Some so) IPPROTO_TCP True"
    | (empty) "rx_count so 0 = 0" "prvValidSocket (Some so) IPPROTO_TCP True"
    using cnt by blast
  then show ?thesis
  proof cases
    case invalid
    then show ?thesis using none [of "- k_EINVAL e"] rtos_okD(1) [OF e] by (simp add: FreeRTOS_recv_def)
  next
    case some
    obtain so' w' where "prvRecvData e w so True n 0 = Some (int (min (length (rx_bytes so)) (unat n)),
        if True then take (min (length (rx_bytes so)) (unat n)) (rx_bytes so) else [], so', w')"
        and t: "took so (min (length (rx_bytes so)) (unat n)) so'"
      by (rule recv_data [OF wf some(1) flags_0])
    then have "FreeRTOS_recv e w (Some so) True n 0 = Some (int (min (length (rx_bytes so)) (unat n)),
        take (min (length (rx_bytes so)) (unat n)) (rx_bytes so), Some so', w')"
      using some(2,3) by (simp add: FreeRTOS_recv_def prvRecvWait_def tcp_recv_wait.simps)
    then show ?thesis using rcvd_okI [OF t refl] by blast
  next
    case empty
    obtain bits so1 w1 where wb: "k_WaitBits e w so eSOCKET_INTR 0 = (bits, so1, w1)" by (cases "k_WaitBits e w so eSOCKET_INTR 0")
    have so1: "so1 = so" using rtos_okD(7) [OF e wb] .
    have "\<exists>r bits' w'. prvRecvWait e w so 0 = Some (r, bits', so, w') \<and> r \<le> 0"
      using empty(1) t0 wb so1 rtos_okD(2,3) [OF e] by (auto simp: prvRecvWait_def tcp_recv_wait.simps)
    then obtain r bits' w' where "prvRecvWait e w so 0 = Some (r, bits', so, w')" "r \<le> 0" by blast
    then show ?thesis
      using empty(2) none [of r] none [of "- k_EINTR e"] rtos_okD(5) [OF e]
      by (auto simp: FreeRTOS_recv_def FREERTOS_ZERO_COPY_def)
  qed
qed

section \<open>The IP task\<close>

lemma stored_ok:
  assumes so: "sock_wf so" and rx: "rxStream so = Some b"
  shows "\<exists>so' w'. vTCPAddRxdata_Stored e w so = Some (so', w') \<and> sock_wf so' \<and> same_mode so so'
    \<and> txStream so' = txStream so \<and> rxStream so' = rxStream so"
proof -
  define low where "low = (\<not> bLowWater so \<and> uxStreamBufferFrontSpace b \<le> uxLittleSpace so)"
  define so1 where "so1 = (if low then so\<lparr>bLowWater := True, bWinChange := True, usTimeout := 1\<rparr> else so)"
  have "\<exists>x. vTCPAddRxdata_Stored e w so = Some (so1\<lparr>xEventBits := x\<rparr>, if low then k_SendEventToIPTask e w else w)"
    using rx by (auto simp: vTCPAddRxdata_Stored_def so1_def low_def Let_def)
  moreover have "sock_wf (so1\<lparr>xEventBits := x\<rparr>) \<and> same_mode so (so1\<lparr>xEventBits := x\<rparr>)
      \<and> txStream (so1\<lparr>xEventBits := x\<rparr>) = txStream so \<and> rxStream (so1\<lparr>xEventBits := x\<rparr>) = rxStream so" for x
    using so by (simp add: so1_def sock_wf_def same_mode_def)
  ultimately show ?thesis by blast
qed

text \<open>
  Arriving bytes are appended to the receive stream, and its tail, where a pointer to lent bytes
  points, does not move.
\<close>

definition arrived :: "tcp_socket \<Rightarrow> char list \<Rightarrow> tcp_socket \<Rightarrow> bool" where
  "arrived so d so' \<longleftrightarrow> sock_wf so' \<and> same_mode so so' \<and> txStream so' = txStream so \<and> rx_bytes so' = rx_bytes so @ d
     \<and> (case rxStream so of None \<Rightarrow> True
        | Some b \<Rightarrow> (case rxStream so' of None \<Rightarrow> False | Some b' \<Rightarrow> uxTail b' = uxTail b \<and> sbLENGTH b' = sbLENGTH b))"

lemma add_rxdata:
  assumes so: "sock_wf so" and rx: "rxStream so = Some b" and d: "length d < 2 ^ 31"
  shows "\<exists>r so' w'. lTCPAddRxdata e w so 0 (Some d) (of_nat (length d)) = Some (r, so', w') \<and> arrived so (take (nat r) d) so'"
proof -
  have wf: "sb_wf b" using so rx by (simp add: sock_wf_def)
  have ul: "unat (of_nat (length d) :: u32) = length d" using d by (simp add: unat_of_nat_32)
  obtain c b' where a: "uxStreamBufferAdd b 0 (Some d) (of_nat (length d)) = Some (c, b')"
      "unat c = min (unat (of_nat (length d) :: u32)) (sb_capacity b - length (sb_contents b))" "sb_wf b'"
      "sb_contents b' = sb_contents b @ take (unat c) d"
    by (rule sb_add_contents [OF wf, of "of_nat (length d)" d]) (simp add: ul)
  have tl: "uxTail b' = uxTail b" "sbLENGTH b' = sbLENGTH b"
    using uxStreamBufferAdd_correct [OF wf, of "Some d" "of_nat (length d)" 0] ul a(1) by simp_all
  have sc: "sint c = int (unat c)" using a(2) d ul by (intro sint_small) simp
  let ?so = "so\<lparr>rxStream := Some b'\<rparr>"
  have "sock_wf ?so" using so a(3) by (simp add: sock_wf_def)
  then obtain so' w' where s: "vTCPAddRxdata_Stored e w ?so = Some (so', w')" "sock_wf so'" "same_mode ?so so'"
      "txStream so' = txStream so" "rxStream so' = Some b'"
    using stored_ok [of ?so b' e w] by auto
  have "lTCPAddRxdata e w so 0 (Some d) (of_nat (length d)) = Some (sint c, so', w')"
    using rx a(1) s(1) by (simp add: lTCPAddRxdata_def)
  moreover have "nat (sint c) = unat c" unfolding sc by simp
  moreover have "arrived so (take (unat c) d) so'"
    using s(2-5) rx a(4) tl by (simp add: arrived_def rx_bytes_def same_mode_def)
  ultimately show ?thesis by auto
qed

lemma deliver:
  assumes e: "rtos_ok e" and so: "sock_wf so" and d: "length d < 2 ^ 31"
  shows "\<exists>r so' w'. lTCPAddRxdata e w so 0 (Some d) (of_nat (length d)) = Some (r, so', w') \<and> arrived so (take (nat r) d) so'"
proof (cases "rxStream so")
  case (Some b)
  then show ?thesis using add_rxdata [OF so Some d, of e w] by blast
next
  case None
  then have "stream_of True so = None" by (simp add: stream_of_def)
  from e so this show ?thesis
  proof (cases rule: create_stream [where w = w])
    case (failed so' w')
    then have "arrived so (take (nat (- 1)) d) so'" using None by (simp add: arrived_def rx_bytes_def)
    then show ?thesis using failed None by (auto simp: lTCPAddRxdata_def)
  next
    case (created l h b w')
    let ?so = "with_stream True l h b so"
    have so1: "sock_wf ?so" "rxStream ?so = Some b" "same_mode so ?so" "txStream ?so = txStream so" "rx_bytes ?so = rx_bytes so"
      using so created None by (simp_all add: with_stream_def sock_wf_def same_mode_def rx_bytes_def)
    have "lTCPAddRxdata e w so 0 (Some d) (of_nat (length d)) = lTCPAddRxdata e w' ?so 0 (Some d) (of_nat (length d))"
      using created(1) None so1(2) by (simp add: lTCPAddRxdata_def)
    moreover have "arrived so x so'" if "arrived ?so x so'" for x so'
      using that None so1 same_mode_trans [of so ?so so'] by (simp add: arrived_def)
    ultimately show ?thesis using add_rxdata [OF so1(1,2) d, of e w'] by auto
  qed
qed

lemma deliver_ok:
  assumes e: "rtos_ok e" and so: "sock_ok so" and d: "length d < 2 ^ 31"
  shows "\<exists>r so' w'. lTCPAddRxdata e w so 0 (Some d) (of_nat (length d)) = Some (r, so', w') \<and> sock_ok so'
    \<and> tx_bytes so' = tx_bytes so \<and> rx_bytes so' = rx_bytes so @ take (nat r) d"
proof -
  have "sock_wf so" using so by (simp add: sock_ok_def)
  from deliver [OF e this d, of w] show ?thesis using sock_ok_mode [OF so] by (auto simp: arrived_def tx_bytes_def)
qed

lemma acked_ok:
  assumes so: "sock_ok so"
  shows "\<exists>so'. tcp_tx_acked e so n = Some so' \<and> sock_ok so' \<and> rx_bytes so' = rx_bytes so
    \<and> tx_bytes so' = drop (unat n) (tx_bytes so)"
proof (cases "txStream so = None \<or> n = 0")
  case True
  then show ?thesis using so by (auto simp: tcp_tx_acked_def tx_bytes_def split: option.splits)
next
  case False
  then obtain b where b: "txStream so = Some b" "n \<noteq> 0" by auto
  then have wf: "sb_wf b" using so by (simp add: sock_ok_def sock_wf_def)
  obtain c b' where g: "uxStreamBufferGet b 0 False n False = Some (c, [], b')" "sb_wf b'"
      "sb_contents b' = drop (unat n) (sb_contents b)"
    using uxStreamBufferGet_correct [OF wf, of 0 False n False] by (auto simp: min_def split: if_splits)
  have "\<exists>x. tcp_tx_acked e so n = Some (so\<lparr>txStream := Some b', xEventBits := x\<rparr>)"
  proof (cases "c = 0")
    case True
    then show ?thesis using b g(1) by (intro exI [of _ "xEventBits so"]) (simp add: tcp_tx_acked_def)
  qed (use b g(1) in \<open>auto simp: tcp_tx_acked_def Let_def\<close>)
  then show ?thesis using so b(1) g(2,3) by (auto simp: sock_ok_def sock_wf_def tx_bytes_def rx_bytes_def)
qed

section \<open>A history of a connection\<close>

text \<open>
  The calls of the application and the work of the IP task on one socket, in any order.  A run
  returns the bytes that were accepted for sending, the bytes that were stored on arrival, the
  bytes that the application received and the bytes that the peer acknowledged.
\<close>

datatype tcp_op = TSend "char list" | TRecv size_t | TArrive "char list" | TAck u32

fun tcp_op_fits :: "tcp_op \<Rightarrow> bool" where
  "tcp_op_fits (TSend d) = (length d < 2 ^ 31)"
| "tcp_op_fits (TArrive d) = (length d < 2 ^ 31)"
| "tcp_op_fits _ = True"

fun tcp_run :: "'k tcp_rtos \<Rightarrow> 'k \<Rightarrow> tcp_socket \<Rightarrow> tcp_op list
    \<Rightarrow> (char list \<times> char list \<times> char list \<times> char list \<times> tcp_socket) option" where
  "tcp_run e w so [] = Some ([], [], [], [], so)"
| "tcp_run e w so (TSend d # ops) =
     do { (r, oso, w) \<leftarrow> FreeRTOS_send e w (Some so) (Some d) (of_nat (length d)) 0;
          so \<leftarrow> oso;
          (sent, arrived, got, acked, so) \<leftarrow> tcp_run e w so ops;
          Some (take (nat r) d @ sent, arrived, got, acked, so) }"
| "tcp_run e w so (TRecv n # ops) =
     do { (r, d, oso, w) \<leftarrow> FreeRTOS_recv e w (Some so) True n 0;
          so \<leftarrow> oso;
          (sent, arrived, got, acked, so) \<leftarrow> tcp_run e w so ops;
          Some (sent, arrived, take (nat r) d @ got, acked, so) }"
| "tcp_run e w so (TArrive d # ops) =
     do { (r, so, w) \<leftarrow> lTCPAddRxdata e w so 0 (Some d) (of_nat (length d));
          (sent, arrived, got, acked, so) \<leftarrow> tcp_run e w so ops;
          Some (sent, take (nat r) d @ arrived, got, acked, so) }"
| "tcp_run e w so (TAck n # ops) =
     do { so' \<leftarrow> tcp_tx_acked e so n;
          (sent, arrived, got, acked, so') \<leftarrow> tcp_run e w so' ops;
          Some (sent, arrived, got, take (unat n) (tx_bytes so) @ acked, so') }"

definition tcp_queues :: "tcp_socket \<Rightarrow> char list \<times> char list \<times> char list \<times> char list \<times> tcp_socket \<Rightarrow> bool" where
  "tcp_queues so = (\<lambda>(sent, arrived, got, acked, so'). sock_ok so'
     \<and> tx_bytes so @ sent = acked @ tx_bytes so' \<and> rx_bytes so @ arrived = got @ rx_bytes so')"

lemma sent_ok_bytes:
  "sent_ok so d r so' \<Longrightarrow> sock_ok so' \<and> rx_bytes so' = rx_bytes so \<and> tx_bytes so' = tx_bytes so @ take (nat r) d"
  by (auto simp: sent_ok_def split: if_splits)

lemma rcvd_ok_bytes:
  assumes "sock_ok so" and "rcvd_ok so n r d so'"
  shows "sock_ok so' \<and> tx_bytes so' = tx_bytes so \<and> rx_bytes so = take (nat r) d @ rx_bytes so'"
proof -
  have t: "took so (nat r) so'" and d: "length d = nat r" "rx_bytes so = d @ rx_bytes so'" using assms(2) unfolding rcvd_ok_def by blast+
  have "take (nat r) d = d" using d(1) by simp
  moreover have "sock_ok so'" "tx_bytes so' = tx_bytes so"
    using sock_ok_mode [OF assms(1)] t by (simp_all add: took_def tx_bytes_def)
  ultimately show ?thesis using d(2) by simp
qed


end
