(* ===== verification/Tcp_Blocking.thy ===== *)
theory Tcp_Blocking
  imports Tcp_Stream "HOL-Library.Sublist"
begin

text \<open>
  The calls of a TCP socket in blocking mode.  While a call waits for an event the IP task works
  on the socket: acknowledged bytes leave the transmit stream and new bytes arrive.  The waiting
  loops end because a time-out that has not elapsed comes nearer with every event.
\<close>

section \<open>Waiting\<close>

definition ip_moved :: "tcp_socket \<Rightarrow> tcp_socket \<Rightarrow> bool" where
  "ip_moved so so' \<longleftrightarrow> sock_wf so' \<and> suffix (tx_bytes so') (tx_bytes so) \<and> prefix (rx_bytes so) (rx_bytes so')
     \<and> (txStream so \<noteq> None \<longrightarrow> txStream so' \<noteq> None)"

lemma ip_moved_refl: "sock_wf so \<Longrightarrow> ip_moved so so"
  by (simp add: ip_moved_def)

lemma ip_moved_trans: "ip_moved a b \<Longrightarrow> ip_moved b c \<Longrightarrow> ip_moved a c"
  by (auto simp: ip_moved_def intro: suffix_order.trans prefix_order.trans)

text \<open>
  What the kernel guarantees of a wait: the IP task keeps the streams, and \<open>rank\<close> bounds the
  number of checks until the time-out elapses.  Waiting for an unlimited time is excluded.
\<close>

definition rtos_waits :: "'k tcp_rtos \<Rightarrow> ('k \<Rightarrow> nat) \<Rightarrow> bool" where
  "rtos_waits e rank \<longleftrightarrow>
     (\<forall>w so bits t. sock_wf so \<longrightarrow> ip_moved so (fst (snd (k_WaitBits e w so bits t)))
        \<and> rank (snd (snd (k_WaitBits e w so bits t))) \<le> rank w)
   \<and> (\<forall>w t. \<not> fst (k_CheckForTimeOut e w t) \<longrightarrow> rank (snd (snd (k_CheckForTimeOut e w t))) < rank w)
   \<and> (\<forall>w. rank (k_SendEventToIPTask e w) \<le> rank w)"

lemma rtos_waitsD:
  assumes "rtos_waits e rank"
  shows "k_WaitBits e w so bits t = (bits', so', w') \<Longrightarrow> sock_wf so \<Longrightarrow> ip_moved so so' \<and> rank w' \<le> rank w"
    and "k_CheckForTimeOut e w t = (False, t', w') \<Longrightarrow> rank w' < rank w"
    and "rank (k_SendEventToIPTask e w) \<le> rank w"
proof -
  have *: "sock_wf so \<longrightarrow> ip_moved so (fst (snd (k_WaitBits e w so bits t))) \<and> rank (snd (snd (k_WaitBits e w so bits t))) \<le> rank w"
    "\<not> fst (k_CheckForTimeOut e w t) \<longrightarrow> rank (snd (snd (k_CheckForTimeOut e w t))) < rank w"
    "rank (k_SendEventToIPTask e w) \<le> rank w"
    using assms by (simp_all add: rtos_waits_def)
  then show "k_WaitBits e w so bits t = (bits', so', w') \<Longrightarrow> sock_wf so \<Longrightarrow> ip_moved so so' \<and> rank w' \<le> rank w"
    and "k_CheckForTimeOut e w t = (False, t', w') \<Longrightarrow> rank w' < rank w"
    and "rank (k_SendEventToIPTask e w) \<le> rank w" by simp_all
qed

section \<open>Receiving\<close>

definition waited :: "tcp_socket \<Rightarrow> (int \<times> u32 \<times> tcp_socket \<times> 'k) option \<Rightarrow> bool" where
  "waited so res \<longleftrightarrow> (\<exists>n bits so' w'. res = Some (n, bits, so', w') \<and> ip_moved so so' \<and> (0 < n \<longrightarrow> n = rx_count so' 0))"

lemma waited_now: "sock_wf so \<Longrightarrow> n \<le> 0 \<or> n = rx_count so 0 \<Longrightarrow> waited so (Some (n, bits, so, w))"
  by (auto simp: waited_def ip_moved_refl)

lemma waited_after: "ip_moved so so' \<Longrightarrow> waited so' res \<Longrightarrow> waited so res"
  unfolding waited_def using ip_moved_trans by blast

lemma recv_wait_timed:
  assumes e: "rtos_ok e" and k: "rtos_waits e rank"
  shows "sock_wf so \<Longrightarrow> waited so (tcp_recv_wait e fl w so (rx_count so 0) bits (Some t))"
proof (induction "rank w" arbitrary: so w bits t rule: less_induct)
  case less
  let ?closed = "eTCPState so = eCLOSED \<or> eTCPState so = eCLOSE_WAIT \<or> eTCPState so = eCLOSING"
  obtain out t1 w1 where c: "k_CheckForTimeOut e w t = (out, t1, w1)" by (cases "k_CheckForTimeOut e w t")
  obtain bits2 so2 w2 where wb: "k_WaitBits e w1 so (or eSOCKET_RECEIVE (or eSOCKET_CLOSED eSOCKET_INTR)) t1 = (bits2, so2, w2)"
    by (cases "k_WaitBits e w1 so (or eSOCKET_RECEIVE (or eSOCKET_CLOSED eSOCKET_INTR)) t1")
  note mv = rtos_waitsD(1) [OF k wb less.prems]
  have eq: "tcp_recv_wait e fl w so (rx_count so 0) bits (Some t) =
      (if rx_count so 0 \<noteq> 0 then Some (rx_count so 0, bits, so, w)
       else if ?closed then Some (if bMallocError so then - k_ENOMEM e else - k_ENOTCONN e, bits, so, w)
       else if out then Some (0, bits, so, w1)
       else if k_SUPPORT_SIGNALS e \<and> and bits2 eSOCKET_INTR \<noteq> 0 then Some (0, bits2, so2, w2)
       else tcp_recv_wait e fl w2 so2 (rx_count so2 0) bits2 (Some t1))"
    by (subst tcp_recv_wait.simps) (simp add: c wb)
  have more: "waited so2 (tcp_recv_wait e fl w2 so2 (rx_count so2 0) bits2 (Some t1))" if "\<not> out"
  proof (rule less.hyps)
    show "rank w2 < rank w" using rtos_waitsD(2) [OF k, of w t t1 w1] c that mv by simp
    show "sock_wf so2" using mv by (simp add: ip_moved_def)
  qed
  have "sock_wf so2" using mv by (simp add: ip_moved_def)
  then show ?case
    unfolding eq using less.prems mv more rtos_okD(2,3) [OF e]
    by (auto intro!: waited_now intro: waited_after)
qed

lemma recv_wait_returns:
  assumes e: "rtos_ok e" and k: "rtos_waits e rank" and so: "sock_wf so"
  shows "waited so (prvRecvWait e w so fl)"
proof -
  let ?closed = "eTCPState so = eCLOSED \<or> eTCPState so = eCLOSE_WAIT \<or> eTCPState so = eCLOSING"
  obtain bits so1 w1 where wb: "k_WaitBits e w so eSOCKET_INTR 0 = (bits, so1, w1)" by (cases "k_WaitBits e w so eSOCKET_INTR 0")
  have so1: "so1 = so" using rtos_okD(7) [OF e wb] .
  have "prvRecvWait e w so fl =
      (if rx_count so 0 \<noteq> 0 then Some (rx_count so 0, 0, so, w)
       else if ?closed then Some (if bMallocError so then - k_ENOMEM e else - k_ENOTCONN e, 0, so, w)
       else if xReceiveBlockTime so = 0 then Some (0, if k_SUPPORT_SIGNALS e then bits else 0, so, if k_SUPPORT_SIGNALS e then w1 else w)
       else if and fl FREERTOS_MSG_DONTWAIT \<noteq> 0 then Some (0, 0, so, w)
       else tcp_recv_wait e fl (k_SetTimeOutState e w) so (rx_count so 0) 0 (Some (xReceiveBlockTime so)))"
  proof -
    have "tcp_recv_wait e fl (k_SetTimeOutState e w) so (rx_count so 0) 0 (Some (xReceiveBlockTime so)) =
      (let (out, time, w) = k_CheckForTimeOut e (k_SetTimeOutState e w) (xReceiveBlockTime so)
           in if out then Some (0, 0, so, w)
              else let (bits, so, w) = k_WaitBits e w so (or eSOCKET_RECEIVE (or eSOCKET_CLOSED eSOCKET_INTR)) time
                   in if k_SUPPORT_SIGNALS e \<and> and bits eSOCKET_INTR \<noteq> 0 then Some (0, bits, so, w)
                      else tcp_recv_wait e fl w so (rx_count so 0) bits (Some time))" if "rx_count so 0 = 0" "\<not> ?closed"
      using that by (subst tcp_recv_wait.simps) simp
    then show ?thesis
      unfolding prvRecvWait_def by (subst tcp_recv_wait.simps) (simp add: wb so1)
  qed
  then show ?thesis
    using so rtos_okD(2,3) [OF e] recv_wait_timed [OF e k so]
    by (auto intro!: waited_now)
qed

lemma rx_count_pos: "0 < rx_count so 0 \<Longrightarrow> \<exists>b. rxStream so = Some b"
  by (cases "rxStream so") (simp_all add: rx_count_def)

lemma recv_returns:
  assumes e: "rtos_ok e" and k: "rtos_waits e rank" and so: "sock_wf so"
  shows "\<exists>r d so' w'. FreeRTOS_recv e w (Some so) True n 0 = Some (r, d, Some so', w') \<and> sock_wf so'
    \<and> r \<le> int (unat n) \<and> length d = nat r \<and> prefix (rx_bytes so) (d @ rx_bytes so') \<and> suffix (tx_bytes so') (tx_bytes so)"
proof (cases "prvValidSocket (Some so) IPPROTO_TCP True")
  case False
  then show ?thesis using so rtos_okD(1) [OF e] order_trans [of "- k_EINVAL e" 0 "int (unat n)"]
    by (auto simp: FreeRTOS_recv_def)
next
  case True
  obtain c bits so1 w1 where p: "prvRecvWait e w so 0 = Some (c, bits, so1, w1)" and mv: "ip_moved so so1"
    and c: "0 < c \<longrightarrow> c = rx_count so1 0"
    using recv_wait_returns [OF e k so, of w 0] by (auto simp: waited_def)
  have wf1: "sock_wf so1" using mv by (simp add: ip_moved_def)
  have neg: "r \<le> int (unat n)" if "r \<le> 0" for r by (rule order_trans [OF that]) simp
  consider (intr) "k_SUPPORT_SIGNALS e" "and bits eSOCKET_INTR \<noteq> 0" | (none) "\<not> (k_SUPPORT_SIGNALS e \<and> and bits eSOCKET_INTR \<noteq> 0)" "c \<le> 0"
    | (some) "\<not> (k_SUPPORT_SIGNALS e \<and> and bits eSOCKET_INTR \<noteq> 0)" "0 < c" by linarith
  then show ?thesis
  proof cases
    case intr
    then show ?thesis using True p mv rtos_okD(5) [OF e] neg [of "- k_EINTR e"] by (auto simp: FreeRTOS_recv_def ip_moved_def)
  next
    case none
    then show ?thesis using True p mv neg [of c] by (auto simp: FreeRTOS_recv_def ip_moved_def)
  next
    case some
    then obtain b where b: "rxStream so1 = Some b" using c rx_count_pos by auto
    let ?m = "min (length (rx_bytes so1)) (unat n)"
    obtain so' w' where d: "prvRecvData e w1 so1 True n 0 = Some (int ?m, if True then take ?m (rx_bytes so1) else [], so', w')"
        and t: "took so1 ?m so'"
      by (rule recv_data [OF wf1 b flags_0])
    have "FreeRTOS_recv e w (Some so) True n 0 = Some (int ?m, take ?m (rx_bytes so1), Some so', w')"
      using True p some d by (auto simp: FreeRTOS_recv_def)
    moreover have "take ?m (rx_bytes so1) @ rx_bytes so' = rx_bytes so1" "sock_wf so'" "tx_bytes so' = tx_bytes so1"
      using t by (simp_all add: took_def tx_bytes_def)
    moreover have "int ?m \<le> int (unat n)" by (simp only: of_nat_le_iff)
    ultimately show ?thesis using mv by (auto simp: ip_moved_def)
  qed
qed

section \<open>Sending\<close>

text \<open>\<open>k\<close> bytes of \<open>d\<close> have been accepted; what the peer acknowledged meanwhile has left the stream.\<close>

definition pushed :: "tcp_socket \<Rightarrow> char list \<Rightarrow> nat \<Rightarrow> tcp_socket \<Rightarrow> bool" where
  "pushed so d k so' \<longleftrightarrow> sock_wf so' \<and> k \<le> length d \<and> suffix (tx_bytes so') (tx_bytes so @ take k d)
     \<and> prefix (rx_bytes so) (rx_bytes so')"

lemma suffix_append_same: "suffix a b \<Longrightarrow> suffix (a @ x) (b @ x)"
  by (auto simp: suffix_def)

lemma pushed_moved: "pushed so d k so1 \<Longrightarrow> ip_moved so1 so2 \<Longrightarrow> pushed so d k so2"
  by (auto simp: pushed_def ip_moved_def intro: suffix_order.trans prefix_order.trans)

lemma pushed_more:
  assumes "pushed so d n so1" and "pushed so1 (drop n d) k so2"
  shows "pushed so d (n + k) so2"
proof -
  have "suffix (tx_bytes so1 @ take k (drop n d)) ((tx_bytes so @ take n d) @ take k (drop n d))"
    using assms(1) by (intro suffix_append_same) (simp add: pushed_def)
  then have "suffix (tx_bytes so2) (tx_bytes so @ take (n + k) d)"
    using assms(2) by (auto simp: pushed_def take_add intro: suffix_order.trans)
  then show ?thesis using assms by (auto simp: pushed_def intro: prefix_order.trans)
qed

lemma send_pass:
  assumes k: "rtos_waits e rank" and so: "sock_wf so" "txStream so \<noteq> None" and d: "length d < 2 ^ 31"
  defines "n \<equiv> min (length d) (tx_room so)"
  obtains so1 w1 where "(if 0 < int (tx_room so) then tcp_send_chunk e w so (Some d) (int (length d)) (int (tx_room so))
      else Some (0, so, w)) = Some (int n, so1, w1)"
    and "pushed so d n so1" and "txStream so1 \<noteq> None" and "rank w1 \<le> rank w" and "xSendBlockTime so1 = xSendBlockTime so"
proof (cases "tx_room so = 0")
  case True
  then show thesis using so by (intro that [of so w]) (simp_all add: n_def pushed_def)
next
  case False
  obtain b where b: "txStream so = Some b" using so(2) by auto
  obtain so1 where c: "tcp_send_chunk e w so (Some d) (int (length d)) (int (tx_room so)) =
      Some (int n, so1, if k_CallingFromIPTask e then w else k_SendEventToIPTask e w)"
    and so1: "sock_wf so1" "same_mode so so1" "rx_bytes so1 = rx_bytes so" "tx_bytes so1 = tx_bytes so @ take n d" "txStream so1 \<noteq> None"
    unfolding n_def by (rule send_chunk [OF so(1) b d])
  show thesis
  proof (rule that)
    show "(if 0 < int (tx_room so) then tcp_send_chunk e w so (Some d) (int (length d)) (int (tx_room so)) else Some (0, so, w)) =
      Some (int n, so1, if k_CallingFromIPTask e then w else k_SendEventToIPTask e w)" using False c by simp
    show "pushed so d n so1" using so1 by (simp add: pushed_def n_def)
    show "rank (if k_CallingFromIPTask e then w else k_SendEventToIPTask e w) \<le> rank w" using rtos_waitsD(3) [OF k] by simp
    show "xSendBlockTime so1 = xSendBlockTime so" using so1(2) by (simp add: same_mode_def)
  qed (rule so1(5))
qed

lemma send_check_again:
  "txStream so \<noteq> None \<Longrightarrow> \<exists>r. prvTCPSendCheck e w (Some so) n = Some (r, Some so, w)"
  by (auto simp: prvTCPSendCheck_def)

lemma send_loop_timed:
  assumes k: "rtos_waits e rank"
  shows "sock_wf so \<Longrightarrow> txStream so \<noteq> None \<Longrightarrow> length d < 2 ^ 31 \<Longrightarrow>
    \<exists>j so' w'. tcp_send_loop e fl len w so (Some d) (int (length d)) sent (int (tx_room so)) (Some t) = Some (sent + int j, Some so', w')
      \<and> pushed so d j so'"
proof (induction "rank w" arbitrary: so w d sent t rule: less_induct)
  case less
  define n where "n = min (length d) (tx_room so)"
  obtain so1 w1 where p: "(if 0 < int (tx_room so) then tcp_send_chunk e w so (Some d) (int (length d)) (int (tx_room so))
      else Some (0, so, w)) = Some (int n, so1, w1)" "pushed so d n so1" "txStream so1 \<noteq> None" "rank w1 \<le> rank w"
    unfolding n_def by (rule send_pass [OF k less.prems])
  have wf1: "sock_wf so1" using p(2) by (simp add: pushed_def)
  obtain out t1 w2 where c: "k_CheckForTimeOut e w1 t = (out, t1, w2)" by (cases "k_CheckForTimeOut e w1 t")
  obtain bits so3 w3 where wb: "k_WaitBits e w2 so1 (or eSOCKET_SEND eSOCKET_CLOSED) t1 = (bits, so3, w3)"
    by (cases "k_WaitBits e w2 so1 (or eSOCKET_SEND eSOCKET_CLOSED) t1")
  have mv: "ip_moved so1 so3" "rank w3 \<le> rank w2" using rtos_waitsD(1) [OF k wb wf1] by simp_all
  then have so3: "sock_wf so3" "txStream so3 \<noteq> None" using p(3) by (simp_all add: ip_moved_def)
  obtain r where ck: "prvTCPSendCheck e w3 (Some so3) len = Some (r, Some so3, w3)" using send_check_again [OF so3(2), of e w3] by blast
  obtain b where b: "txStream so3 = Some b" using so3(2) by auto
  note room = space_room [OF so3(1) b]
  have left: "int (length d) - int n = int (length (drop n d))" by (simp add: n_def)
  have eq: "tcp_send_loop e fl len w so (Some d) (int (length d)) sent (int (tx_room so)) (Some t) =
      (if d = [] then Some (sent, Some so, w)
       else if 0 < tx_room so \<and> length d = n then Some (sent + int n, Some so1, w1)
       else if out then Some (sent + int n, Some so1, w2)
       else if r < 0 then Some (sent + int n, Some so3, w3)
       else tcp_send_loop e fl len w3 so3 (Some (drop n d)) (int (length (drop n d))) (sent + int n) (int (tx_room so3)) (Some t1))"
    by (subst tcp_send_loop.simps, subst p(1)) (simp add: c wb ck b room left Let_def del: length_drop)
  show ?case
  proof (cases "d = [] \<or> 0 < tx_room so \<and> length d = n \<or> out \<or> r < 0")
    case True
    have "pushed so d 0 so" using less.prems by (simp add: pushed_def)
    then show ?thesis using True eq p(2) pushed_moved [OF p(2) mv(1)]
      by (cases "d = []") (auto intro: exI [of _ 0] exI [of _ n])
  next
    case False
    then have "rank w3 < rank w" using rtos_waitsD(2) [OF k, of w1 t t1 w2] c mv(2) p(4) by simp
    moreover have "length (drop n d) < 2 ^ 31" using less.prems(3) by simp
    ultimately obtain j so' w' where "tcp_send_loop e fl len w3 so3 (Some (drop n d)) (int (length (drop n d))) (sent + int n) (int (tx_room so3)) (Some t1)
        = Some (sent + int n + int j, Some so', w')" "pushed so3 (drop n d) j so'"
      using less.hyps [OF _ so3] by blast
    then show ?thesis using False eq pushed_more [OF pushed_moved [OF p(2) mv(1)]]
      by (intro exI [of _ "n + j"] exI [of _ so'] exI [of _ w']) auto
  qed
qed

lemma send_loop_returns:
  assumes k: "rtos_waits e rank" and so: "sock_wf so" "txStream so \<noteq> None" and d: "length d < 2 ^ 31" "d \<noteq> []"
  shows "\<exists>j so' w'. prvTCPSendLoop e w so (Some d) (of_nat (length d)) fl = Some (int j, Some so', w') \<and> pushed so d j so'"
proof -
  let ?len = "of_nat (length d) :: size_t"
  define n where "n = min (length d) (tx_room so)"
  have "unat ?len = length d" using d by (simp add: unat_of_nat_32)
  then have sl: "sint ?len = int (length d)" using sint_small [of ?len] d by simp
  obtain b0 where b0: "txStream so = Some b0" using so(2) by auto
  obtain so1 w1 where p: "(if 0 < int (tx_room so) then tcp_send_chunk e w so (Some d) (int (length d)) (int (tx_room so))
      else Some (0, so, w)) = Some (int n, so1, w1)" "pushed so d n so1" "txStream so1 \<noteq> None"
    unfolding n_def by (rule send_pass [OF k so d(1)])
  have wf1: "sock_wf so1" using p(2) by (simp add: pushed_def)
  define t1 where "t1 = (if k_CallingFromIPTask e then 0 else xSendBlockTime so1)"
  obtain bits so3 w3 where wb: "k_WaitBits e (k_SetTimeOutState e w1) so1 (or eSOCKET_SEND eSOCKET_CLOSED) t1 = (bits, so3, w3)"
    by (cases "k_WaitBits e (k_SetTimeOutState e w1) so1 (or eSOCKET_SEND eSOCKET_CLOSED) t1")
  have mv: "ip_moved so1 so3" using rtos_waitsD(1) [OF k wb wf1] by simp
  then have so3: "sock_wf so3" "txStream so3 \<noteq> None" using p(3) by (simp_all add: ip_moved_def)
  obtain r where ck: "prvTCPSendCheck e w3 (Some so3) ?len = Some (r, Some so3, w3)" using send_check_again [OF so3(2), of e w3] by blast
  obtain b where b: "txStream so3 = Some b" using so3(2) by auto
  note room = space_room [OF so3(1) b] space_room [OF so(1) b0]
  have left: "int (length d) - int n = int (length (drop n d))" by (simp add: n_def)
  have "prvTCPSendLoop e w so (Some d) ?len fl = tcp_send_loop e fl ?len w so (Some d) (int (length d)) 0 (int (tx_room so)) None"
    by (simp add: prvTCPSendLoop_def b0 sl room(2))
  also have "\<dots> =
      (if 0 < tx_room so \<and> length d = n then Some (int n, Some so1, w1)
       else if t1 = 0 \<or> and fl FREERTOS_MSG_DONTWAIT \<noteq> 0 then Some (int n, Some so1, w1)
       else if r < 0 then Some (int n, Some so3, w3)
       else tcp_send_loop e fl ?len w3 so3 (Some (drop n d)) (int (length (drop n d))) (int n) (int (tx_room so3)) (Some t1))"
    using d(2) wb
    by (subst tcp_send_loop.simps, subst p(1)) (simp add: ck b room(1) left Let_def t1_def [symmetric] del: length_drop)
  finally have eq: "prvTCPSendLoop e w so (Some d) ?len fl = \<dots>" .
  have short: "length (drop n d) < 2 ^ 31" using d(1) by simp
  obtain j so' w' where l: "tcp_send_loop e fl ?len w3 so3 (Some (drop n d)) (int (length (drop n d))) (int n) (int (tx_room so3)) (Some t1)
      = Some (int n + int j, Some so', w')" "pushed so3 (drop n d) j so'"
    using send_loop_timed [OF k so3 short, of fl ?len w3 "int n" t1] by blast
  have "pushed so d (n + j) so'" by (rule pushed_more [OF pushed_moved [OF p(2) mv] l(2)])
  then show ?thesis using eq l(1) p(2) pushed_moved [OF p(2) mv] by (auto simp: of_nat_add [symmetric] simp del: of_nat_add)
qed

lemma send_returns:
  assumes e: "rtos_ok e" and k: "rtos_waits e rank" and so: "sock_wf so" and d: "length d < 2 ^ 31"
  shows "\<exists>r so' w'. FreeRTOS_send e w (Some so) (Some d) (of_nat (length d)) fl = Some (r, Some so', w') \<and> pushed so d (nat r) so'"
  using e so
proof (cases rule: send_check [where w = w and n = "of_nat (length d)"])
  case (refused r so' w')
  then have "pushed so d (nat r) so'" by (auto simp: pushed_def)
  with refused show ?thesis by (auto simp: FreeRTOS_send_def)
next
  case (ready b so1 w1)
  then have "d \<noteq> []" "txStream so1 \<noteq> None" by auto
  then obtain j so' w' where l: "prvTCPSendLoop e w1 so1 (Some d) (of_nat (length d)) fl = Some (int j, Some so', w')" "pushed so1 d j so'"
    using send_loop_returns [OF k ready(4) _ d] by blast
  define r where "r = (if j = 0 then if 5 < tcp_state_value (eTCPState so') then - k_ENOTCONN e else - k_ENOSPC e else int j)"
  have "nat r = j" using rtos_okD(3,4) [OF e] by (simp add: r_def)
  moreover have "pushed so d j so'" using l(2) ready(6,7) by (simp add: pushed_def)
  moreover have "FreeRTOS_send e w (Some so) (Some d) (of_nat (length d)) fl = Some (r, Some so', w')"
    using ready(1) l(1) by (simp add: FreeRTOS_send_def r_def)
  ultimately show ?thesis by auto
qed


end
