(* ===== verification/Tcp_Select.thy ===== *)
theory Tcp_Select
  imports Tcp_Stream
begin

text \<open>
  The select functions of \<^verbatim>\<open>FreeRTOS_Sockets.c\<close>: \<^verbatim>\<open>FreeRTOS_FD_SET\<close>, \<^verbatim>\<open>FreeRTOS_FD_CLR\<close>, \<^verbatim>\<open>FreeRTOS_FD_ISSET\<close> and
  \<^verbatim>\<open>FreeRTOS_select\<close>, with the scan of the bound sockets that the IP task makes for them.  The event
  groups, the queue of the IP task and the waits are parameters.
\<close>

section \<open>Sockets and socket sets\<close>

text \<open>The fields of a UDP socket that a scan reads or writes; \<open>us_waiting\<close> is the length of the list of waiting packets.\<close>

record udp_sel_socket =
  us_SocketSet :: "nat option"
  us_SelectBits :: u32
  us_SocketBits :: u32
  us_waiting :: nat

text \<open>All sockets, and the two lists of bound sockets of the IP task.\<close>

record tcp_net =
  xBoundUDPSocketsList :: "nat list"
  xBoundTCPSocketsList :: "nat list"
  tw_socks :: "nat \<Rightarrow> tcp_socket"
  tw_udp :: "nat \<Rightarrow> udp_sel_socket"

text \<open>
  The event group of a socket set is read, set and cleared; a wait for its bits returns them with
  the sockets as the IP task has left them.  Sending an event to the IP task returns whether it was
  queued, and the sockets at the moment when the IP task takes it from its queue.
\<close>

record ('k, 'n) sel_rtos =
  g_GetBits :: "'k \<Rightarrow> nat \<Rightarrow> u32"
  g_SetBits :: "'k \<Rightarrow> nat \<Rightarrow> u32 \<Rightarrow> 'k"
  g_ClearBits :: "'k \<Rightarrow> nat \<Rightarrow> u32 \<Rightarrow> 'k"
  g_WaitBits :: "'k \<Rightarrow> 'n \<Rightarrow> nat \<Rightarrow> u32 \<Rightarrow> u32 \<Rightarrow> u32 \<times> 'n \<times> 'k"
  g_SendEventStruct :: "'k \<Rightarrow> 'n \<Rightarrow> bool \<times> 'n \<times> 'k"

definition eSELECT_INTR :: u32 where "eSELECT_INTR = 8"
definition eSELECT_CALL_IP :: u32 where "eSELECT_CALL_IP = 16"

section \<open>The scan of the IP task\<close>

definition vSocketSelectTCP :: "'k tcp_rtos \<Rightarrow> (nat \<Rightarrow> tcp_socket) \<Rightarrow> nat \<Rightarrow> u32 \<times> tcp_socket" where
  "vSocketSelectTCP e socks i =
     (let so = socks i; sel = so_sel so;
          bAccepted = (\<not> bPassQueued sel \<and> \<not> bPassAccept sel);
          rd = (if and (xSelectBits so) eSELECT_READ \<noteq> 0
                then if eTCPState so = eTCP_LISTEN
                     then (case pxPeerSocket sel of None \<Rightarrow> False | Some p \<Rightarrow> bPassAccept (so_sel (socks p)))
                     else if bReuseSocket sel \<and> bPassAccept sel then True
                     else bAccepted \<and> 0 < FreeRTOS_rx_size e so
                else False);
          ex = (and (xSelectBits so) eSELECT_EXCEPT \<noteq> 0 \<and> (eTCPState so = eCLOSE_WAIT \<or> eTCPState so = eCLOSED));
          space = (bAccepted \<and> 0 < FreeRTOS_tx_space e so);
          conn = (\<not> space \<and> bConnPrepared sel \<and> 5 \<le> tcp_state_value (eTCPState so) \<and> \<not> bConnPassed sel);
          sel_wr = (and (xSelectBits so) eSELECT_WRITE \<noteq> 0);
          so = (if sel_wr \<and> conn then so\<lparr>so_sel := sel\<lparr>bConnPassed := True\<rparr>\<rparr> else so)
      in (or (or (if rd then eSELECT_READ else 0) (if ex then eSELECT_EXCEPT else 0))
             (if sel_wr \<and> (space \<or> conn) then eSELECT_WRITE else 0), so))"

definition select_udp :: "nat \<Rightarrow> 'z tcp_net_scheme \<times> u32 \<Rightarrow> nat \<Rightarrow> 'z tcp_net_scheme \<times> u32" where
  "select_udp ss s i =
     (let (net, xGroupBits) = s; so = tw_udp net i
      in if us_SocketSet so \<noteq> Some ss then s
         else let bits = (if and (us_SelectBits so) eSELECT_READ \<noteq> 0 \<and> 0 < us_waiting so then eSELECT_READ else 0)
              in (net\<lparr>tw_udp := (tw_udp net)(i := so\<lparr>us_SocketBits := bits\<rparr>)\<rparr>, or xGroupBits bits))"

definition select_tcp :: "'k tcp_rtos \<Rightarrow> nat \<Rightarrow> 'z tcp_net_scheme \<times> u32 \<Rightarrow> nat \<Rightarrow> 'z tcp_net_scheme \<times> u32" where
  "select_tcp e ss s i =
     (let (net, xGroupBits) = s
      in if pxSocketSet (so_sel (tw_socks net i)) \<noteq> Some ss then s
         else let (bits, so) = vSocketSelectTCP e (tw_socks net) i
              in (net\<lparr>tw_socks := (tw_socks net)(i := so\<lparr>so_sel := so_sel so\<lparr>xSocketBits := bits\<rparr>\<rparr>)\<rparr>, or xGroupBits bits))"

text \<open>The first round visits the UDP sockets and the second one the TCP sockets.\<close>

definition vSocketSelect ::
    "'k tcp_rtos \<Rightarrow> ('k, 'z tcp_net_scheme) sel_rtos \<Rightarrow> 'z tcp_net_scheme \<Rightarrow> 'k \<Rightarrow> nat \<Rightarrow> 'z tcp_net_scheme \<times> 'k" where
  "vSocketSelect e g net w ss =
     (let s = foldl (select_udp ss) (net, 0) (xBoundUDPSocketsList net);
          (net, xGroupBits) = foldl (select_tcp e ss) s (xBoundTCPSocketsList net);
          xBitsToClear = and (and (g_GetBits g w ss) (not xGroupBits)) eSELECT_ALL;
          xBitsToClear = (if k_SUPPORT_SIGNALS e then and xBitsToClear (not eSELECT_INTR) else xBitsToClear);
          w = (if xBitsToClear \<noteq> 0 then g_ClearBits g w ss xBitsToClear else w)
      in (net, g_SetBits g w ss (or xGroupBits eSELECT_CALL_IP)))"

section \<open>The calls of a task\<close>

text \<open>
  The task clears \<^verbatim>\<open>eSELECT_CALL_IP\<close>, has the IP task make the scan and waits, without a time-out, for
  the bit that the scan sets, which the wait clears again.
\<close>

definition prvFindSelectedSocket ::
    "'k tcp_rtos \<Rightarrow> ('k, 'z tcp_net_scheme) sel_rtos \<Rightarrow> 'z tcp_net_scheme \<Rightarrow> 'k \<Rightarrow> nat \<Rightarrow> 'z tcp_net_scheme \<times> 'k" where
  "prvFindSelectedSocket e g net w ss =
     (let w = g_ClearBits g w ss eSELECT_CALL_IP;
          (queued, net, w) = g_SendEventStruct g w net
      in if \<not> queued then (net, w)
         else let (net, w) = vSocketSelect e g net w ss in (net, g_ClearBits g w ss eSELECT_CALL_IP))"

text \<open>\<open>None\<close> as a socket or a socket set is \<^verbatim>\<open>NULL\<close>, for which an assertion fails.\<close>

definition FreeRTOS_FD_SET ::
    "'k tcp_rtos \<Rightarrow> ('k, 'z tcp_net_scheme) sel_rtos \<Rightarrow> 'z tcp_net_scheme \<Rightarrow> 'k \<Rightarrow> nat option \<Rightarrow> nat option \<Rightarrow> u32
     \<Rightarrow> ('z tcp_net_scheme \<times> 'k) option" where
  "FreeRTOS_FD_SET e g net w xSocket xSocketSet xBitsToSet =
     do { i \<leftarrow> xSocket;
          ss \<leftarrow> xSocketSet;
          let so = tw_socks net i;
          let so = so\<lparr>xSelectBits := or (xSelectBits so) (and xBitsToSet eSELECT_ALL)\<rparr>;
          if and (xSelectBits so) eSELECT_ALL \<noteq> 0
          then Some (prvFindSelectedSocket e g (net\<lparr>tw_socks := (tw_socks net)(i := so\<lparr>so_sel := so_sel so\<lparr>pxSocketSet := Some ss\<rparr>\<rparr>)\<rparr>) w ss)
          else Some (net\<lparr>tw_socks := (tw_socks net)(i := so)\<rparr>, w) }"

definition FreeRTOS_FD_CLR ::
    "'z tcp_net_scheme \<Rightarrow> nat option \<Rightarrow> nat option \<Rightarrow> u32 \<Rightarrow> 'z tcp_net_scheme option" where
  "FreeRTOS_FD_CLR net xSocket xSocketSet xBitsToClear =
     do { i \<leftarrow> xSocket;
          ss \<leftarrow> xSocketSet;
          let so = tw_socks net i;
          let so = so\<lparr>xSelectBits := and (xSelectBits so) (not (and xBitsToClear eSELECT_ALL))\<rparr>;
          Some (net\<lparr>tw_socks := (tw_socks net)(i :=
            so\<lparr>so_sel := so_sel so\<lparr>pxSocketSet := (if and (xSelectBits so) eSELECT_ALL \<noteq> 0 then Some ss else None)\<rparr>\<rparr>)\<rparr>) }"

definition FreeRTOS_FD_ISSET :: "'z tcp_net_scheme \<Rightarrow> nat option \<Rightarrow> nat option \<Rightarrow> u32 option" where
  "FreeRTOS_FD_ISSET net xSocket xSocketSet =
     do { i \<leftarrow> xSocket;
          ss \<leftarrow> xSocketSet;
          Some (if pxSocketSet (so_sel (tw_socks net i)) = Some ss then and (xSocketBits (so_sel (tw_socks net i))) eSELECT_ALL else 0) }"

partial_function (option) select_loop ::
    "'k tcp_rtos \<Rightarrow> ('k, 'z tcp_net_scheme) sel_rtos \<Rightarrow> nat \<Rightarrow> 'z tcp_net_scheme \<Rightarrow> 'k \<Rightarrow> u32 \<Rightarrow> (u32 \<times> 'z tcp_net_scheme \<times> 'k) option" where
  "select_loop e g ss net w xRemainingTime =
     (let (uxResult, net, w) = g_WaitBits g w net ss eSELECT_ALL xRemainingTime
      in if k_SUPPORT_SIGNALS e \<and> and uxResult eSELECT_INTR \<noteq> 0
         then Some (uxResult, net, g_ClearBits g w ss eSELECT_INTR)
         else let (net, w) = prvFindSelectedSocket e g net w ss;
                  uxResult = g_GetBits g w ss
              in if uxResult \<noteq> 0 then Some (uxResult, net, w)
                 else let (out, time, w) = k_CheckForTimeOut e w xRemainingTime
                      in if out then Some (uxResult, net, w) else select_loop e g ss net w time)"

definition FreeRTOS_select ::
    "'k tcp_rtos \<Rightarrow> ('k, 'z tcp_net_scheme) sel_rtos \<Rightarrow> 'z tcp_net_scheme \<Rightarrow> 'k \<Rightarrow> nat option \<Rightarrow> u32 \<Rightarrow> (u32 \<times> 'z tcp_net_scheme \<times> 'k) option" where
  "FreeRTOS_select e g net w xSocketSet xBlockTimeTicks =
     do { ss \<leftarrow> xSocketSet; select_loop e g ss net (k_SetTimeOutState e w) xBlockTimeTicks }"

section \<open>Readiness\<close>

text \<open>
  What a scan promises for a TCP socket.  Bit 0 of an event mask is \<^verbatim>\<open>eSELECT_READ\<close>, bit 1 \<^verbatim>\<open>eSELECT_WRITE\<close> and
  bit 2 \<^verbatim>\<open>eSELECT_EXCEPT\<close>.
\<close>

lemma select_bits:
  "and x eSELECT_READ \<noteq> 0 \<longleftrightarrow> bit x 0" "and x eSELECT_WRITE \<noteq> 0 \<longleftrightarrow> bit x 1" "and x eSELECT_EXCEPT \<noteq> 0 \<longleftrightarrow> bit x 2"
  "and x eSELECT_INTR \<noteq> 0 \<longleftrightarrow> bit x 3"
  using and_exp_eq_0_iff_not_bit [of x 0] and_exp_eq_0_iff_not_bit [of x 1] and_exp_eq_0_iff_not_bit [of x 2] and_exp_eq_0_iff_not_bit [of x 3]
  by (simp_all add: eSELECT_READ_def eSELECT_WRITE_def eSELECT_EXCEPT_def eSELECT_INTR_def)

lemma select_const_bits:
  "bit eSELECT_READ n \<longleftrightarrow> n = 0" "bit eSELECT_WRITE n \<longleftrightarrow> n = 1" "bit eSELECT_EXCEPT n \<longleftrightarrow> n = 2"
  "bit eSELECT_INTR n \<longleftrightarrow> n = 3" "bit eSELECT_CALL_IP n \<longleftrightarrow> n = 4" "n < 4 \<Longrightarrow> bit eSELECT_ALL n"
proof -
  have e: "eSELECT_READ = 2 ^ 0" "eSELECT_WRITE = 2 ^ 1" "eSELECT_EXCEPT = 2 ^ 2" "eSELECT_INTR = 2 ^ 3" "eSELECT_CALL_IP = 2 ^ 4"
    "eSELECT_ALL = mask 4"
    by (simp_all add: eSELECT_READ_def eSELECT_WRITE_def eSELECT_EXCEPT_def eSELECT_INTR_def eSELECT_CALL_IP_def eSELECT_ALL_def mask_eq_exp_minus_1)
  show "bit eSELECT_READ n \<longleftrightarrow> n = 0" "bit eSELECT_WRITE n \<longleftrightarrow> n = 1" "bit eSELECT_EXCEPT n \<longleftrightarrow> n = 2"
    "bit eSELECT_INTR n \<longleftrightarrow> n = 3" "bit eSELECT_CALL_IP n \<longleftrightarrow> n = 4" "n < 4 \<Longrightarrow> bit eSELECT_ALL n"
    unfolding e bit_exp_iff bit_mask_iff by auto
qed

definition tcp_accepted :: "tcp_socket \<Rightarrow> bool" where
  "tcp_accepted so \<longleftrightarrow> \<not> bPassQueued (so_sel so) \<and> \<not> bPassAccept (so_sel so)"

text \<open>Select changes nothing of a socket but its event bits and whether its connection has been reported.\<close>

definition sel_same :: "tcp_socket \<Rightarrow> tcp_socket \<Rightarrow> bool" where
  "sel_same so so' \<longleftrightarrow> (\<exists>x c. so' = so\<lparr>so_sel := so_sel so\<lparr>bConnPassed := c, xSocketBits := x\<rparr>\<rparr>)"

lemma sel_same_refl [simp]: "sel_same so so"
  unfolding sel_same_def by (rule exI [of _ "xSocketBits (so_sel so)"], rule exI [of _ "bConnPassed (so_sel so)"]) simp

lemma sel_sameD:
  assumes "sel_same so so'"
  shows "sock_wf so' = sock_wf so" "sock_ok so' = sock_ok so" "tx_bytes so' = tx_bytes so" "rx_bytes so' = rx_bytes so"
    "tx_room so' = tx_room so" "xSelectBits so' = xSelectBits so" "eTCPState so' = eTCPState so"
    "pxSocketSet (so_sel so') = pxSocketSet (so_sel so)" "tcp_accepted so' = tcp_accepted so"
    "bPassAccept (so_sel so') = bPassAccept (so_sel so)" "FreeRTOS_tx_space e so' = FreeRTOS_tx_space e so"
  using assms by (auto simp: sel_same_def sock_wf_def sock_ok_def tx_bytes_def rx_bytes_def tx_room_def tcp_accepted_def
      FreeRTOS_tx_space_def cong: option.case_cong)

lemma vSocketSelectTCP_same: "sel_same (socks i) (snd (vSocketSelectTCP e socks i))"
proof -
  have "sel_same so (so\<lparr>so_sel := so_sel so\<lparr>bConnPassed := True\<rparr>\<rparr>)" for so
    unfolding sel_same_def by (rule exI [of _ "xSocketBits (so_sel so)"], rule exI [of _ True]) simp
  then show ?thesis by (simp add: vSocketSelectTCP_def Let_def)
qed

definition tcp_events :: "'k tcp_rtos \<Rightarrow> (nat \<Rightarrow> tcp_socket) \<Rightarrow> nat \<Rightarrow> u32" where
  "tcp_events e socks i = fst (vSocketSelectTCP e socks i)"

lemma tcp_events_ready:
  assumes wf: "sock_wf (socks i)" and acc: "tcp_accepted (socks i)"
  shows "eTCPState (socks i) \<noteq> eTCP_LISTEN \<Longrightarrow>
      bit (tcp_events e socks i) 0 \<longleftrightarrow> bit (xSelectBits (socks i)) 0 \<and> rx_bytes (socks i) \<noteq> []"
    and "bit (xSelectBits (socks i)) 1 \<Longrightarrow> 0 < FreeRTOS_tx_space e (socks i) \<Longrightarrow> bit (tcp_events e socks i) 1"
    and "bit (tcp_events e socks i) 2 \<longleftrightarrow> bit (xSelectBits (socks i)) 2 \<and> eTCPState (socks i) \<in> {eCLOSE_WAIT, eCLOSED}"
proof -
  have rx: "0 < FreeRTOS_rx_size e (socks i) \<longleftrightarrow> rx_bytes (socks i) \<noteq> []"
  proof (cases "rxStream (socks i)")
    case (Some b)
    then have "sint (uxStreamBufferGetSize b) = int (length (sb_contents b))" using wf by (intro sb_counts) (simp add: sock_wf_def)
    then show ?thesis using Some wf by (simp add: FreeRTOS_rx_size_def rx_bytes_def sock_wf_def del: length_contents)
  qed (use wf in \<open>simp add: FreeRTOS_rx_size_def rx_bytes_def sock_wf_def\<close>)
  show "bit (tcp_events e socks i) 0 \<longleftrightarrow> bit (xSelectBits (socks i)) 0 \<and> rx_bytes (socks i) \<noteq> []"
    if "eTCPState (socks i) \<noteq> eTCP_LISTEN"
    using that acc unfolding tcp_events_def vSocketSelectTCP_def Let_def tcp_accepted_def select_bits rx
    by (simp add: bit_or_iff select_const_bits)
  show "bit (tcp_events e socks i) 1" if "bit (xSelectBits (socks i)) 1" "0 < FreeRTOS_tx_space e (socks i)"
    using that acc unfolding tcp_events_def vSocketSelectTCP_def Let_def tcp_accepted_def select_bits
    by (simp add: bit_or_iff select_const_bits)
  show "bit (tcp_events e socks i) 2 \<longleftrightarrow> bit (xSelectBits (socks i)) 2 \<and> eTCPState (socks i) \<in> {eCLOSE_WAIT, eCLOSED}"
    unfolding tcp_events_def vSocketSelectTCP_def Let_def select_bits by (simp add: bit_or_iff select_const_bits)
qed

section \<open>The scan\<close>

definition scan_one :: "'k tcp_rtos \<Rightarrow> nat \<Rightarrow> (nat \<Rightarrow> tcp_socket) \<Rightarrow> nat \<Rightarrow> tcp_socket" where
  "scan_one e ss socks i = (if pxSocketSet (so_sel (socks i)) = Some ss
     then (snd (vSocketSelectTCP e socks i))\<lparr>so_sel := so_sel (snd (vSocketSelectTCP e socks i))\<lparr>xSocketBits := tcp_events e socks i\<rparr>\<rparr>
     else socks i)"

definition scan_tcp :: "'k tcp_rtos \<Rightarrow> nat \<Rightarrow> (nat \<Rightarrow> tcp_socket) \<Rightarrow> nat list \<Rightarrow> nat \<Rightarrow> tcp_socket" where
  "scan_tcp e ss socks is i = (if i \<in> set is then scan_one e ss socks i else socks i)"

lemma scan_one_same: "sel_same (socks i) (scan_one e ss socks i)"
proof -
  obtain x c where "snd (vSocketSelectTCP e socks i) = socks i\<lparr>so_sel := so_sel (socks i)\<lparr>bConnPassed := c, xSocketBits := x\<rparr>\<rparr>"
    using vSocketSelectTCP_same [of socks i e] unfolding sel_same_def by blast
  moreover have "sel_same so (so\<lparr>so_sel := so_sel so\<lparr>bConnPassed := c, xSocketBits := x\<rparr>\<rparr>)" for so x c
    unfolding sel_same_def by blast
  ultimately show ?thesis by (simp add: scan_one_def)
qed

lemma scan_one_bits:
  "pxSocketSet (so_sel (socks i)) = Some ss \<Longrightarrow> xSocketBits (so_sel (scan_one e ss socks i)) = tcp_events e socks i"
  by (simp add: scan_one_def)

lemma scan_tcp_same: "sel_same (socks i) (scan_tcp e ss socks is i)"
  by (simp add: scan_tcp_def scan_one_same)

text \<open>A scan of one socket does not change what a scan of another one sees.\<close>

lemma scan_one_cong:
  assumes "socks' i = socks i" and "\<And>p. bPassAccept (so_sel (socks' p)) = bPassAccept (so_sel (socks p))"
  shows "scan_one e ss socks' i = scan_one e ss socks i" and "tcp_events e socks' i = tcp_events e socks i"
proof -
  have "vSocketSelectTCP e socks' i = vSocketSelectTCP e socks i" by (simp only: vSocketSelectTCP_def assms)
  then show "scan_one e ss socks' i = scan_one e ss socks i" and "tcp_events e socks' i = tcp_events e socks i"
    using assms(1) by (simp_all add: scan_one_def tcp_events_def)
qed

lemma select_tcp_one:
  "select_tcp e ss (net, acc) i = (net\<lparr>tw_socks := (tw_socks net)(i := scan_one e ss (tw_socks net) i)\<rparr>,
     or acc (if pxSocketSet (so_sel (tw_socks net i)) = Some ss then tcp_events e (tw_socks net) i else 0))"
  by (simp add: select_tcp_def scan_one_def tcp_events_def case_prod_beta)

lemma scan_tcp_correct:
  "distinct is \<Longrightarrow> \<exists>acc'. foldl (select_tcp e ss) (net, acc) is = (net\<lparr>tw_socks := scan_tcp e ss (tw_socks net) is\<rparr>, acc')
     \<and> (\<forall>n. bit acc' n \<longleftrightarrow> bit acc n
          \<or> (\<exists>i\<in>set is. pxSocketSet (so_sel (tw_socks net i)) = Some ss \<and> bit (tcp_events e (tw_socks net) i) n))"
proof (induction "is" arbitrary: net acc)
  case Nil
  have "scan_tcp e ss (tw_socks net) [] = tw_socks net" by (simp add: scan_tcp_def fun_eq_iff)
  then show ?case by simp
next
  case (Cons i "is")
  let ?s = "tw_socks net"
  define s1 where "s1 = ?s(i := scan_one e ss ?s i)"
  let ?b = "if pxSocketSet (so_sel (?s i)) = Some ss then tcp_events e ?s i else 0"
  have pa: "bPassAccept (so_sel (s1 p)) = bPassAccept (so_sel (?s p))" for p
    using sel_sameD(10) [OF scan_one_same [of ?s i e ss]] by (simp add: s1_def)
  have ev: "scan_one e ss s1 j = scan_one e ss ?s j" "tcp_events e s1 j = tcp_events e ?s j" "s1 j = ?s j" if "j \<in> set is" for j
  proof -
    show s: "s1 j = ?s j" using that Cons.prems by (auto simp: s1_def)
    show "scan_one e ss s1 j = scan_one e ss ?s j" "tcp_events e s1 j = tcp_events e ?s j" by (rule scan_one_cong, rule s, rule pa)+
  qed
  have eq: "scan_tcp e ss s1 is = scan_tcp e ss ?s (i # is)"
    using Cons.prems ev by (auto simp: scan_tcp_def fun_eq_iff s1_def)
  obtain acc' where a: "foldl (select_tcp e ss) (net\<lparr>tw_socks := s1\<rparr>, or acc ?b) is = (net\<lparr>tw_socks := scan_tcp e ss s1 is\<rparr>, acc')"
      "\<forall>n. bit acc' n \<longleftrightarrow> bit (or acc ?b) n \<or> (\<exists>i\<in>set is. pxSocketSet (so_sel (s1 i)) = Some ss \<and> bit (tcp_events e s1 i) n)"
    using Cons.IH [of "net\<lparr>tw_socks := s1\<rparr>" "or acc ?b"] Cons.prems by auto
  have "bit acc' n \<longleftrightarrow> bit acc n \<or> (\<exists>j\<in>set (i # is). pxSocketSet (so_sel (?s j)) = Some ss \<and> bit (tcp_events e ?s j) n)" for n
    using a(2) ev by (auto simp: bit_or_iff)
  then show ?case using a(1) by (simp add: select_tcp_one eq flip: s1_def)
qed

lemma scan_udp_correct:
  "distinct is \<Longrightarrow> \<exists>u acc'. foldl (select_udp ss) (net, acc) is = (net\<lparr>tw_udp := u\<rparr>, acc')
     \<and> (\<forall>i. i \<notin> set is \<longrightarrow> u i = tw_udp net i)
     \<and> (\<forall>n. bit acc' n \<longleftrightarrow> bit acc n \<or> (\<exists>i\<in>set is. us_SocketSet (u i) = Some ss \<and> bit (us_SocketBits (u i)) n))"
proof (induction "is" arbitrary: net acc)
  case Nil
  show ?case by (rule exI [of _ "tw_udp net"], rule exI [of _ acc]) simp
next
  case (Cons i "is")
  obtain u1 acc1 where o: "select_udp ss (net, acc) i = (net\<lparr>tw_udp := u1\<rparr>, acc1)" "\<forall>j. j \<noteq> i \<longrightarrow> u1 j = tw_udp net j"
      "\<forall>n. bit acc1 n \<longleftrightarrow> bit acc n \<or> us_SocketSet (u1 i) = Some ss \<and> bit (us_SocketBits (u1 i)) n"
  proof (cases "us_SocketSet (tw_udp net i) = Some ss")
    case True
    show thesis by (rule that) (use True in \<open>auto simp: select_udp_def Let_def bit_or_iff\<close>)
  next
    case False
    then show thesis by (intro that [of "tw_udp net" acc]) (simp_all add: select_udp_def)
  qed
  obtain u acc' where r: "foldl (select_udp ss) (net\<lparr>tw_udp := u1\<rparr>, acc1) is = (net\<lparr>tw_udp := u\<rparr>, acc')"
      "\<forall>j. j \<notin> set is \<longrightarrow> u j = u1 j"
      "\<forall>n. bit acc' n \<longleftrightarrow> bit acc1 n \<or> (\<exists>i\<in>set is. us_SocketSet (u i) = Some ss \<and> bit (us_SocketBits (u i)) n)"
    using Cons.IH [of "net\<lparr>tw_udp := u1\<rparr>" acc1] Cons.prems by auto
  have "u i = u1 i" using r(2) Cons.prems by simp
  then show ?case using o r by (intro exI [of _ u] exI [of _ acc']) auto
qed

section \<open>What select reports\<close>

text \<open>A network in which a scan is exact: no socket is bound twice, and the TCP sockets are well formed.\<close>

definition net_ok :: "'z tcp_net_scheme \<Rightarrow> bool" where
  "net_ok net \<longleftrightarrow> distinct (xBoundUDPSocketsList net) \<and> distinct (xBoundTCPSocketsList net)
     \<and> (\<forall>i\<in>set (xBoundTCPSocketsList net). sock_wf (tw_socks net i))"

abbreviation isset :: "nat \<Rightarrow> 'z tcp_net_scheme \<Rightarrow> nat \<Rightarrow> u32" where
  "isset ss net i \<equiv> the (FreeRTOS_FD_ISSET net (Some i) (Some ss))"

text \<open>
  A result \<open>r\<close> of select is exact: an event is in \<open>r\<close> iff it is reported for some socket of the set; a
  connection is reported as readable iff the application asked for it and there are bytes to read,
  as writable if it asked for it and there is space, and as closed iff it asked for it and it is.
\<close>

definition select_exact :: "'k tcp_rtos \<Rightarrow> nat \<Rightarrow> 'z tcp_net_scheme \<Rightarrow> u32 \<Rightarrow> bool" where
  "select_exact e ss net r \<longleftrightarrow>
     (\<forall>b\<in>{eSELECT_READ, eSELECT_WRITE, eSELECT_EXCEPT}. and r b \<noteq> 0 \<longleftrightarrow>
        (\<exists>i\<in>set (xBoundTCPSocketsList net). and (isset ss net i) b \<noteq> 0)
      \<or> (\<exists>i\<in>set (xBoundUDPSocketsList net). us_SocketSet (tw_udp net i) = Some ss \<and> and (us_SocketBits (tw_udp net i)) b \<noteq> 0))
   \<and> (\<forall>i\<in>set (xBoundTCPSocketsList net).
        let so = tw_socks net i
        in pxSocketSet (so_sel so) = Some ss \<and> tcp_accepted so \<longrightarrow>
          (eTCPState so \<noteq> eTCP_LISTEN \<longrightarrow>
            (and (isset ss net i) eSELECT_READ \<noteq> 0 \<longleftrightarrow> and (xSelectBits so) eSELECT_READ \<noteq> 0 \<and> rx_bytes so \<noteq> []))
        \<and> (and (xSelectBits so) eSELECT_WRITE \<noteq> 0 \<and> 0 < FreeRTOS_tx_space e so \<longrightarrow> and (isset ss net i) eSELECT_WRITE \<noteq> 0)
        \<and> (and (isset ss net i) eSELECT_EXCEPT \<noteq> 0 \<longleftrightarrow>
            and (xSelectBits so) eSELECT_EXCEPT \<noteq> 0 \<and> eTCPState so \<in> {eCLOSE_WAIT, eCLOSED}))"

lemma isset_bits:
  "n < 4 \<Longrightarrow> bit (isset ss net i) n \<longleftrightarrow>
     pxSocketSet (so_sel (tw_socks net i)) = Some ss \<and> bit (xSocketBits (so_sel (tw_socks net i))) n"
  by (simp add: FreeRTOS_FD_ISSET_def bit_and_iff select_const_bits)

lemma select_event_bit:
  assumes "b \<in> {eSELECT_READ, eSELECT_WRITE, eSELECT_EXCEPT}"
  shows "\<exists>n < 3. \<forall>x. and x b \<noteq> 0 \<longleftrightarrow> bit x n"
proof -
  consider "b = eSELECT_READ" | "b = eSELECT_WRITE" | "b = eSELECT_EXCEPT" using assms by blast
  then show ?thesis
  proof cases
    case 1
    show ?thesis unfolding 1 by (rule exI [of _ 0]) (simp only: select_bits, simp)
  next
    case 2
    show ?thesis unfolding 2 by (rule exI [of _ 1]) (simp only: select_bits, simp)
  next
    case 3
    show ?thesis unfolding 3 by (rule exI [of _ 2]) (simp only: select_bits, simp)
  qed
qed

lemma select_exact_bits:
  assumes "bit r 0 = bit r' 0" "bit r 1 = bit r' 1" "bit r 2 = bit r' 2" and "select_exact e ss net r"
  shows "select_exact e ss net r'"
  using assms unfolding select_exact_def by (simp add: select_bits)

text \<open>The event groups of the kernel.\<close>

definition groups_ok :: "('k, 'n) sel_rtos \<Rightarrow> bool" where
  "groups_ok g \<longleftrightarrow> (\<forall>w ss b. g_GetBits g (g_SetBits g w ss b) ss = or (g_GetBits g w ss) b)
     \<and> (\<forall>w ss b. g_GetBits g (g_ClearBits g w ss b) ss = and (g_GetBits g w ss) (not b))"

lemma scanned_exact:
  assumes net: "net_ok net"
    and s: "tw_socks net' = scan_tcp e ss (tw_socks net) (xBoundTCPSocketsList net)"
      "xBoundTCPSocketsList net' = xBoundTCPSocketsList net" "xBoundUDPSocketsList net' = xBoundUDPSocketsList net"
    and r: "\<And>n. n < 3 \<Longrightarrow> bit r n \<longleftrightarrow>
        (\<exists>i\<in>set (xBoundTCPSocketsList net). pxSocketSet (so_sel (tw_socks net i)) = Some ss \<and> bit (tcp_events e (tw_socks net) i) n)
      \<or> (\<exists>i\<in>set (xBoundUDPSocketsList net). us_SocketSet (tw_udp net' i) = Some ss \<and> bit (us_SocketBits (tw_udp net' i)) n)"
  shows "net_ok net' \<and> select_exact e ss net' r"
proof -
  have same: "sel_same (tw_socks net i) (tw_socks net' i)" for i unfolding s(1) by (rule scan_tcp_same)
  note D = sel_sameD [OF same]
  have bits: "bit (isset ss net' i) n \<longleftrightarrow> pxSocketSet (so_sel (tw_socks net i)) = Some ss \<and> bit (tcp_events e (tw_socks net) i) n"
    if "i \<in> set (xBoundTCPSocketsList net)" "n < 4" for i n
  proof (cases "pxSocketSet (so_sel (tw_socks net i)) = Some ss")
    case True
    have "tw_socks net' i = scan_one e ss (tw_socks net) i" using that(1) by (simp add: s(1) scan_tcp_def)
    then have "xSocketBits (so_sel (tw_socks net' i)) = tcp_events e (tw_socks net) i" using scan_one_bits [of "tw_socks net", OF True] by simp
    then show ?thesis unfolding isset_bits [OF that(2)] D(8) by simp
  qed (unfold isset_bits [OF that(2)] D(8), simp)
  have wf: "sock_wf (tw_socks net i)" if "i \<in> set (xBoundTCPSocketsList net)" for i using net that by (simp add: net_ok_def)
  have ready: "(eTCPState so \<noteq> eTCP_LISTEN \<longrightarrow> (bit (isset ss net' i) 0 \<longleftrightarrow> bit (xSelectBits so) 0 \<and> rx_bytes so \<noteq> []))
      \<and> (bit (xSelectBits so) 1 \<and> 0 < FreeRTOS_tx_space e so \<longrightarrow> bit (isset ss net' i) 1)
      \<and> (bit (isset ss net' i) 2 \<longleftrightarrow> bit (xSelectBits so) 2 \<and> eTCPState so \<in> {eCLOSE_WAIT, eCLOSED})"
    if i: "i \<in> set (xBoundTCPSocketsList net)" and so: "so = tw_socks net' i"
      and m: "pxSocketSet (so_sel so) = Some ss" "tcp_accepted so" for i so
  proof -
    have m': "pxSocketSet (so_sel (tw_socks net i)) = Some ss" "tcp_accepted (tw_socks net i)" using m unfolding so D .
    note ev = tcp_events_ready [where socks = "tw_socks net", OF wf [OF i] m'(2), where e = e]
    have b: "bit (isset ss net' i) n = bit (tcp_events e (tw_socks net) i) n" if "n < 4" for n
      unfolding bits [OF i that] using m'(1) by simp
    have b3: "bit (isset ss net' i) 0 = bit (tcp_events e (tw_socks net) i) 0" "bit (isset ss net' i) 1 = bit (tcp_events e (tw_socks net) i) 1"
      "bit (isset ss net' i) 2 = bit (tcp_events e (tw_socks net) i) 2" by (rule b, simp)+
    show ?thesis unfolding so D b3 using ev by blast
  qed
  have "net_ok net'" using net unfolding net_ok_def s(2,3) D .
  moreover have "select_exact e ss net' r"
    unfolding select_exact_def s(2,3) Let_def
  proof (intro conjI ballI, goal_cases)
    case (1 b)
    then obtain n where n: "\<And>x. and x b \<noteq> 0 \<longleftrightarrow> bit x n" "n < 3" using select_event_bit by blast
    show ?case unfolding n(1) r [OF n(2)] using bits n(2) by auto
  next
    case (2 i)
    show ?case unfolding select_bits using ready [OF 2 refl] by blast
  qed
  ultimately show ?thesis ..
qed

lemma scan_bits:
  assumes "groups_ok g" and "n < 3"
    and c: "c = and (and (g_GetBits g w ss) (not xGroupBits)) eSELECT_ALL
      \<or> c = and (and (and (g_GetBits g w ss) (not xGroupBits)) eSELECT_ALL) (not eSELECT_INTR)"
  shows "bit (g_GetBits g (g_SetBits g (if c \<noteq> 0 then g_ClearBits g w ss c else w) ss (or xGroupBits eSELECT_CALL_IP)) ss) n
      \<longleftrightarrow> bit xGroupBits n"
proof -
  have "bit c n \<longleftrightarrow> bit (g_GetBits g w ss) n \<and> \<not> bit xGroupBits n"
    using c assms(2) by (auto simp: bit_and_iff bit_not_iff select_const_bits)
  moreover have "g_GetBits g (if c \<noteq> 0 then g_ClearBits g w ss c else w) ss = and (g_GetBits g w ss) (not c)"
    using assms(1) by (simp add: groups_ok_def)
  ultimately show ?thesis using assms by (auto simp: groups_ok_def bit_or_iff bit_and_iff bit_not_iff select_const_bits)
qed

lemma vSocketSelect_exact:
  assumes g: "groups_ok g" and net: "net_ok net" and s: "vSocketSelect e g net w ss = (net', w')"
  shows "net_ok net' \<and> select_exact e ss net' (g_GetBits g w' ss)"
proof -
  have d: "distinct (xBoundUDPSocketsList net)" "distinct (xBoundTCPSocketsList net)" using net by (simp_all add: net_ok_def)
  obtain u acc where u: "foldl (select_udp ss) (net, 0) (xBoundUDPSocketsList net) = (net\<lparr>tw_udp := u\<rparr>, acc)"
      "\<And>n. bit acc n \<longleftrightarrow> (\<exists>i\<in>set (xBoundUDPSocketsList net). us_SocketSet (u i) = Some ss \<and> bit (us_SocketBits (u i)) n)"
    using scan_udp_correct [OF d(1), of ss net 0] by auto
  obtain xg where t: "foldl (select_tcp e ss) (net\<lparr>tw_udp := u\<rparr>, acc) (xBoundTCPSocketsList net)
        = (net\<lparr>tw_udp := u, tw_socks := scan_tcp e ss (tw_socks net) (xBoundTCPSocketsList net)\<rparr>, xg)"
      "\<And>n. bit xg n \<longleftrightarrow> bit acc n
        \<or> (\<exists>i\<in>set (xBoundTCPSocketsList net). pxSocketSet (so_sel (tw_socks net i)) = Some ss \<and> bit (tcp_events e (tw_socks net) i) n)"
    using scan_tcp_correct [OF d(2), of e ss "net\<lparr>tw_udp := u\<rparr>" acc] by auto
  define c where "c = and (and (g_GetBits g w ss) (not xg)) eSELECT_ALL"
  define c' where "c' = (if k_SUPPORT_SIGNALS e then and c (not eSELECT_INTR) else c)"
  have eq: "net' = net\<lparr>tw_udp := u, tw_socks := scan_tcp e ss (tw_socks net) (xBoundTCPSocketsList net)\<rparr>"
    "w' = g_SetBits g (if c' \<noteq> 0 then g_ClearBits g w ss c' else w) ss (or xg eSELECT_CALL_IP)"
    using s [symmetric] unfolding vSocketSelect_def Let_def u(1) t(1) case_prod_conv prod.inject c'_def c_def by blast+
  have "bit (g_GetBits g w' ss) n \<longleftrightarrow> bit xg n" if "n < 3" for n
    unfolding eq(2) by (rule scan_bits [OF g that]) (simp add: c'_def c_def)
  then show "net_ok net' \<and> select_exact e ss net' (g_GetBits g w' ss)"
    using t(2) u(2) by (intro scanned_exact [OF net]) (auto simp: eq(1))
qed

text \<open>
  What select relies on: the event groups, time-outs that elapse, and an IP task that takes every
  event from its queue and keeps the bound sockets well formed.
\<close>

definition sel_ok :: "'k tcp_rtos \<Rightarrow> ('k, 'z tcp_net_scheme) sel_rtos \<Rightarrow> ('k \<Rightarrow> nat) \<Rightarrow> bool" where
  "sel_ok e g rank \<longleftrightarrow> groups_ok g
     \<and> (\<forall>w net q net' w'. net_ok net \<longrightarrow> g_SendEventStruct g w net = (q, net', w') \<longrightarrow> q \<and> net_ok net' \<and> rank w' \<le> rank w)
     \<and> (\<forall>w net ss b t r net' w'. net_ok net \<longrightarrow> g_WaitBits g w net ss b t = (r, net', w') \<longrightarrow> net_ok net' \<and> rank w' \<le> rank w)
     \<and> (\<forall>w ss b. rank (g_SetBits g w ss b) \<le> rank w \<and> rank (g_ClearBits g w ss b) \<le> rank w)
     \<and> (\<forall>w t t' w'. k_CheckForTimeOut e w t = (False, t', w') \<longrightarrow> rank w' < rank w)"

lemma sel_okD:
  assumes "sel_ok e g rank"
  shows "groups_ok g"
    and "net_ok net \<Longrightarrow> g_SendEventStruct g w net = (q, net', w') \<Longrightarrow> q \<and> net_ok net' \<and> rank w' \<le> rank w"
    and "net_ok net \<Longrightarrow> g_WaitBits g w net ss b t = (r, net', w') \<Longrightarrow> net_ok net' \<and> rank w' \<le> rank w"
    and "rank (g_SetBits g w ss b) \<le> rank w" and "rank (g_ClearBits g w ss b) \<le> rank w"
    and "k_CheckForTimeOut e w t = (False, t', w') \<Longrightarrow> rank w' < rank w"
  using assms unfolding sel_ok_def by blast+

lemma vSocketSelect_group:
  "\<exists>c b. snd (vSocketSelect e g net w ss) = g_SetBits g (if c \<noteq> 0 then g_ClearBits g w ss c else w) ss b"
  unfolding vSocketSelect_def Let_def case_prod_beta snd_conv by (rule exI, rule exI, rule refl)

lemma find_exact:
  assumes k: "sel_ok e g rank" and net: "net_ok net" and f: "prvFindSelectedSocket e g net w ss = (net', w')"
  shows "net_ok net' \<and> select_exact e ss net' (g_GetBits g w' ss) \<and> rank w' \<le> rank w"
proof -
  define w0 where "w0 = g_ClearBits g w ss eSELECT_CALL_IP"
  obtain q net1 w1 where s: "g_SendEventStruct g w0 net = (q, net1, w1)" by (cases "g_SendEventStruct g w0 net")
  have q: "q" "net_ok net1" "rank w1 \<le> rank w0" using sel_okD(2) [OF k net s] by simp_all
  obtain net2 w2 where v: "vSocketSelect e g net1 w1 ss = (net2, w2)" by (cases "vSocketSelect e g net1 w1 ss")
  have eq: "net' = net2" "w' = g_ClearBits g w2 ss eSELECT_CALL_IP"
    using f s q(1) v by (simp_all add: prvFindSelectedSocket_def flip: w0_def)
  have x: "net_ok net2" "select_exact e ss net2 (g_GetBits g w2 ss)"
    using vSocketSelect_exact [OF sel_okD(1) [OF k] q(2) v] by simp_all
  have "\<exists>c b. w2 = g_SetBits g (if c \<noteq> 0 then g_ClearBits g w1 ss c else w1) ss b"
    using vSocketSelect_group [of e g net1 w1 ss] by (simp add: v)
  then obtain c b where "w2 = g_SetBits g (if c \<noteq> 0 then g_ClearBits g w1 ss c else w1) ss b" by blast
  then have "rank w2 \<le> rank w1"
    using sel_okD(4) [OF k, of "if c \<noteq> 0 then g_ClearBits g w1 ss c else w1" ss b] sel_okD(5) [OF k, of w1 ss c] by (simp split: if_splits)
  then have "rank w' \<le> rank w"
    using sel_okD(5) [OF k, of w2 ss eSELECT_CALL_IP] sel_okD(5) [OF k, of w ss eSELECT_CALL_IP] q(3) by (simp add: eq w0_def)
  moreover have "g_GetBits g w' ss = and (g_GetBits g w2 ss) (not eSELECT_CALL_IP)"
    using sel_okD(1) [OF k] by (simp add: eq groups_ok_def)
  then have "select_exact e ss net' (g_GetBits g w' ss)"
    unfolding eq(1) by (intro select_exact_bits [OF _ _ _ x(2)]) (simp_all add: bit_and_iff bit_not_iff select_const_bits)
  ultimately show ?thesis using x(1) by (simp add: eq(1))
qed

lemma select_loop_exact:
  assumes k: "sel_ok e g rank"
  shows "net_ok net \<Longrightarrow> \<exists>r net' w'. select_loop e g ss net w t = Some (r, net', w') \<and> net_ok net'
    \<and> (and r eSELECT_INTR = 0 \<longrightarrow> select_exact e ss net' r)"
proof (induction "rank w" arbitrary: net w t rule: less_induct)
  case less
  obtain r1 net1 w1 where a: "g_WaitBits g w net ss eSELECT_ALL t = (r1, net1, w1)" by (cases "g_WaitBits g w net ss eSELECT_ALL t")
  have n1: "net_ok net1" "rank w1 \<le> rank w" using sel_okD(3) [OF k less.prems a] by simp_all
  obtain net2 w2 where f: "prvFindSelectedSocket e g net1 w1 ss = (net2, w2)" by (cases "prvFindSelectedSocket e g net1 w1 ss")
  have n2: "net_ok net2" "select_exact e ss net2 (g_GetBits g w2 ss)" "rank w2 \<le> rank w1" using find_exact [OF k n1(1) f] by simp_all
  obtain out t' w3 where c: "k_CheckForTimeOut e w2 t = (out, t', w3)" by (cases "k_CheckForTimeOut e w2 t")
  show ?case
  proof (cases "k_SUPPORT_SIGNALS e \<and> and r1 eSELECT_INTR \<noteq> 0")
    case True
    then have "select_loop e g ss net w t = Some (r1, net1, g_ClearBits g w1 ss eSELECT_INTR)"
      by (subst select_loop.simps) (simp add: a)
    then show ?thesis using True n1(1) by auto
  next
    case False
    have eq: "select_loop e g ss net w t = (if g_GetBits g w2 ss \<noteq> 0 then Some (g_GetBits g w2 ss, net2, w2)
        else if out then Some (g_GetBits g w2 ss, net2, w3) else select_loop e g ss net2 w3 t')"
      using False by (subst select_loop.simps) (auto simp: a f c Let_def)
    show ?thesis
    proof (cases "g_GetBits g w2 ss \<noteq> 0 \<or> out")
      case True
      then show ?thesis using eq n2(1,2) by (auto split: if_splits)
    next
      case False
      then have "rank w3 < rank w" using sel_okD(6) [OF k, of w2 t t' w3] c n1(2) n2(3) by simp
      from less.hyps [OF this n2(1), of t'] show ?thesis using False eq by simp
    qed
  qed
qed


section \<open>Select keeps the streams\<close>

lemma sel_same_trans:
  assumes "sel_same a b" and "sel_same b c"
  shows "sel_same a c"
proof -
  obtain x u x' u' where "b = a\<lparr>so_sel := so_sel a\<lparr>bConnPassed := u, xSocketBits := x\<rparr>\<rparr>"
    "c = b\<lparr>so_sel := so_sel b\<lparr>bConnPassed := u', xSocketBits := x'\<rparr>\<rparr>"
    using assms unfolding sel_same_def by blast
  then have "c = a\<lparr>so_sel := so_sel a\<lparr>bConnPassed := u', xSocketBits := x'\<rparr>\<rparr>" by simp
  then show ?thesis unfolding sel_same_def by blast
qed

text \<open>A scan changes nothing of the network but what \<open>sel_same\<close> and the event bits of UDP sockets allow.\<close>

definition scan_rel :: "'z tcp_net_scheme \<Rightarrow> 'z tcp_net_scheme \<Rightarrow> bool" where
  "scan_rel net net' \<longleftrightarrow> (\<exists>u s. net' = net\<lparr>tw_udp := u, tw_socks := s\<rparr> \<and> (\<forall>i. sel_same (tw_socks net i) (s i)))"

lemma scan_rel_refl: "scan_rel net net"
  unfolding scan_rel_def by (rule exI [of _ "tw_udp net"], rule exI [of _ "tw_socks net"]) simp

lemma scan_rel_trans:
  assumes "scan_rel a b" and "scan_rel b c"
  shows "scan_rel a c"
proof -
  obtain u s u' s' where "b = a\<lparr>tw_udp := u, tw_socks := s\<rparr>" "\<forall>i. sel_same (tw_socks a i) (s i)"
    "c = b\<lparr>tw_udp := u', tw_socks := s'\<rparr>" "\<forall>i. sel_same (tw_socks b i) (s' i)"
    using assms unfolding scan_rel_def by blast
  then have "c = a\<lparr>tw_udp := u', tw_socks := s'\<rparr>" "\<forall>i. sel_same (tw_socks a i) (s' i)" by (auto intro: sel_same_trans)
  then show ?thesis unfolding scan_rel_def by blast
qed

lemma foldl_scan_rel:
  assumes "\<And>s i. scan_rel (fst s) (fst (f s i))"
  shows "scan_rel (fst s) (fst (foldl f s is))"
proof (induction "is" arbitrary: s)
  case (Cons i "is")
  show ?case unfolding foldl_Cons by (rule scan_rel_trans [OF assms Cons.IH])
qed (simp add: scan_rel_refl)

lemma vSocketSelect_rel:
  fixes net :: "'z tcp_net_scheme"
  shows "scan_rel net (fst (vSocketSelect e g net w ss))"
proof -
  have "scan_rel (fst s) (fst (select_udp ss s i))" for s :: "'z tcp_net_scheme \<times> u32" and i
  proof (cases s)
    case (Pair n b)
    have "scan_rel n (n\<lparr>tw_udp := u\<rparr>)" for u
      unfolding scan_rel_def by (rule exI [of _ u], rule exI [of _ "tw_socks n"]) simp
    then show ?thesis by (simp add: select_udp_def Pair Let_def scan_rel_refl)
  qed
  moreover have "scan_rel (fst s) (fst (select_tcp e ss s i))" for s :: "'z tcp_net_scheme \<times> u32" and i
  proof (cases s)
    case (Pair n b)
    have "scan_rel n (n\<lparr>tw_socks := (tw_socks n)(i := scan_one e ss (tw_socks n) i)\<rparr>)"
      unfolding scan_rel_def
      by (rule exI [of _ "tw_udp n"], rule exI [of _ "(tw_socks n)(i := scan_one e ss (tw_socks n) i)"]) (simp add: scan_one_same)
    then show ?thesis by (simp add: Pair select_tcp_one)
  qed
  ultimately have "scan_rel net (fst (foldl (select_tcp e ss) (foldl (select_udp ss) (net, 0) us) ts))" for us ts
    using scan_rel_trans [OF foldl_scan_rel [of "select_udp ss" "(net, 0)" us, unfolded fst_conv]
        foldl_scan_rel [of "select_tcp e ss" "foldl (select_udp ss) (net, 0) us" ts]] by blast
  then show ?thesis by (simp add: vSocketSelect_def Let_def case_prod_beta)
qed

end
