(* ===== verification/Http_Common.thy ===== *)
theory Http_Common
  imports Net_Env
begin

text \<open>
  \<^verbatim>\<open>uni_net_http_common.[ch]\<close> and the pure helpers at the top of \<^verbatim>\<open>uni_net_http_server.c\<close>: the
  command and status enumerations, the registry entries, the MIME table and the content type
  of a URL.
\<close>

section \<open>Definitions\<close>

datatype http_command =
    HTTP_COMMAND_UNKNOWN | HTTP_COMMAND_GET | HTTP_COMMAND_POST | HTTP_COMMAND_HEAD
  | HTTP_COMMAND_PUT | HTTP_COMMAND_DELETE | HTTP_COMMAND_TRACE | HTTP_COMMAND_OPTIONS
  | HTTP_COMMAND_CONNECT | HTTP_COMMAND_PATCH

datatype http_status =
    STATUS_OK | STATUS_NOCONTENT | STATUS_BADREQUEST | STATUS_UNAUTHORIZED | STATUS_NOTFOUND
  | STATUS_GONE | STATUS_PRECONDFAILED | STATUS_INTERNALSERVERR

fun http_status_code :: "http_status \<Rightarrow> nat" where
  "http_status_code STATUS_OK = 200"
| "http_status_code STATUS_NOCONTENT = 204"
| "http_status_code STATUS_BADREQUEST = 400"
| "http_status_code STATUS_UNAUTHORIZED = 401"
| "http_status_code STATUS_NOTFOUND = 404"
| "http_status_code STATUS_GONE = 410"
| "http_status_code STATUS_PRECONDFAILED = 412"
| "http_status_code STATUS_INTERNALSERVERR = 500"

text \<open>
  A handler function is called with the size of the output buffer (\<open>None\<close> for a \<^verbatim>\<open>NULL\<close>
  buffer) and the input bytes (\<open>None\<close> for \<^verbatim>\<open>NULL\<close>); it returns its \<^verbatim>\<open>size_t\<close> result and
  the bytes it stored at the start of the output buffer.  The \<^verbatim>\<open>userdata\<close> pointer is part of
  the function value.
\<close>

type_synonym 'w http_handler_fn =
  "'w \<Rightarrow> nat option \<Rightarrow> char list option \<Rightarrow> size_t \<times> char list \<times> 'w"

record http_file =
  file_path :: string
  file_data :: "char list"
  file_size :: u32

record 'w http_handler =
  handler_path :: string
  handler_command :: http_command
  handler_function :: "'w http_handler_fn option"

definition g_uni_net_http_types :: "(string \<times> string) list" where
  "g_uni_net_http_types =
    [(''html'', ''text/html''), (''json'', ''application/json''), (''css'', ''text/css''),
     (''js'', ''text/javascript''), (''png'', ''image/png''), (''jpg'', ''image/jpeg''),
     (''gif'', ''image/gif''), (''txt'', ''text/plain''), (''mp3'', ''audio/mpeg3''),
     (''wav'', ''audio/wav''), (''flac'', ''audio/ogg''), (''pdf'', ''application/pdf''),
     (''ttf'', ''application/x-font-ttf''), (''ttc'', ''application/x-font-ttf'')]"

fun mime_lookup :: "string \<Rightarrow> (string \<times> string) list \<Rightarrow> string option" where
  "mime_lookup x [] = None"
| "mime_lookup x ((ext, ty) # rest) = (if strcasecmp_eq x ext then Some ty else mime_lookup x rest)"

definition uni_net_http_get_mime_type :: "string option \<Rightarrow> string" where
  "uni_net_http_get_mime_type extension =
     (case extension of
        None \<Rightarrow> ''application/octet-stream''
      | Some x \<Rightarrow> (case mime_lookup x g_uni_net_http_types of
            None \<Rightarrow> ''application/octet-stream'' | Some ty \<Rightarrow> ty))"

fun http_status_name :: "http_status \<Rightarrow> string" where
  "http_status_name STATUS_OK = ''OK''"
| "http_status_name STATUS_NOCONTENT = ''No content''"
| "http_status_name STATUS_BADREQUEST = ''Bad request''"
| "http_status_name STATUS_UNAUTHORIZED = ''Authorization Required''"
| "http_status_name STATUS_NOTFOUND = ''Not Found''"
| "http_status_name STATUS_GONE = ''Done''"
| "http_status_name STATUS_PRECONDFAILED = ''Precondition Failed''"
| "http_status_name STATUS_INTERNALSERVERR = ''Internal Server Error''"

text \<open>The scan of \<^verbatim>\<open>_uni_net_http_server_content_type\<close> for the last dot and the last slash.\<close>

fun content_type_scan :: "string \<Rightarrow> nat \<Rightarrow> nat option \<Rightarrow> nat option \<Rightarrow> nat option \<times> nat option" where
  "content_type_scan [] i dot slash = (dot, slash)"
| "content_type_scan (c # cs) i dot slash =
     content_type_scan cs (Suc i) (if c = CHR ''.'' then Some i else dot)
       (if c = CHR ''/'' then Some i else slash)"

text \<open>\<^verbatim>\<open>dot > slash\<close> on pointers, where \<^verbatim>\<open>NULL\<close> is below every address.\<close>

definition ptr_greater :: "nat option \<Rightarrow> nat option \<Rightarrow> bool" where
  "ptr_greater a b = (case a of None \<Rightarrow> False | Some i \<Rightarrow> (case b of None \<Rightarrow> True | Some j \<Rightarrow> j < i))"

definition http_server_content_type :: "string option \<Rightarrow> string" where
  "http_server_content_type filename =
     (case filename of
        None \<Rightarrow> ''text/html''
      | Some f \<Rightarrow> (case content_type_scan f 0 None None of
            (Some dot, slash) \<Rightarrow>
              (if ptr_greater (Some dot) slash then uni_net_http_get_mime_type (Some (drop (Suc dot) f))
               else ''text/html'')
          | (None, slash) \<Rightarrow> ''text/html''))"

section \<open>The MIME table\<close>

definition http_content_types :: "string set" where
  "http_content_types = insert ''text/html'' (insert ''text/plain''
     (insert ''application/octet-stream'' (snd ` set g_uni_net_http_types)))"

lemma mime_lookup_range: "mime_lookup x t = Some ty \<Longrightarrow> ty \<in> snd ` set t"
  by (induction x t rule: mime_lookup.induct) (auto split: if_splits)

lemma mime_type_range: "uni_net_http_get_mime_type x \<in> http_content_types"
  by (auto simp: uni_net_http_get_mime_type_def http_content_types_def dest: mime_lookup_range
      split: option.split)

lemma content_type_range: "http_server_content_type f \<in> http_content_types"
  using mime_type_range
  by (auto simp: http_server_content_type_def split: option.split prod.split)
     (auto simp: http_content_types_def)

lemma content_type_length: "ty \<in> http_content_types \<Longrightarrow> length ty \<le> 24"
  by (auto simp: http_content_types_def g_uni_net_http_types_def)

lemma mime_lookup_case: "map c_tolower x = map c_tolower y \<Longrightarrow> mime_lookup x t = mime_lookup y t"
  by (induction x t rule: mime_lookup.induct) (auto simp: strcasecmp_eq_def)

section \<open>What the scan finds\<close>

lemma content_type_scan_append:
  "content_type_scan (xs @ ys) i d s =
     (case content_type_scan xs i d s of (d', s') \<Rightarrow> content_type_scan ys (i + length xs) d' s')"
  by (induction xs arbitrary: i d s) auto

lemma content_type_scan_none:
  "CHR ''.'' \<notin> set xs \<Longrightarrow> CHR ''/'' \<notin> set xs \<Longrightarrow> content_type_scan xs i d s = (d, s)"
  by (induction xs arbitrary: i d s) auto

lemma content_type_scan_slash:
  "case snd (content_type_scan xs i d s) of
     None \<Rightarrow> s = None | Some k \<Rightarrow> s = Some k \<or> i \<le> k \<and> k < i + length xs"
proof (induction xs arbitrary: i d s)
  case Nil
  then show ?case by (cases s) simp_all
next
  case (Cons c cs)
  define d' where "d' = (if c = CHR ''.'' then Some i else d)"
  define s' where "s' = (if c = CHR ''/'' then Some i else s)"
  have "snd (content_type_scan (c # cs) i d s) = snd (content_type_scan cs (Suc i) d' s')"
    by (simp only: content_type_scan.simps d'_def s'_def)
  then show ?case
    using Cons.IH [where i = "Suc i" and d = d' and s = s'] by (auto simp: s'_def split: option.splits if_splits)
qed

text \<open>The suffix after the last dot decides, unless a slash follows that dot.\<close>

lemma content_type_of_extension:
  assumes "CHR ''.'' \<notin> set ext" and "CHR ''/'' \<notin> set ext"
  shows "http_server_content_type (Some (base @ ''.'' @ ext)) = uni_net_http_get_mime_type (Some ext)"
proof -
  obtain d s where ds: "content_type_scan base 0 None None = (d, s)"
    by (cases "content_type_scan base 0 None None")
  then have s: "case s of None \<Rightarrow> True | Some k \<Rightarrow> k < length base"
    using content_type_scan_slash [where xs = base and i = 0 and d = None and s = None] by (simp split: option.splits)
  have "content_type_scan (base @ ''.'' @ ext) 0 None None = (Some (length base), s)"
    by (simp add: content_type_scan_append ds content_type_scan_none [OF assms])
  moreover have "ptr_greater (Some (length base)) s"
    using s by (simp add: ptr_greater_def split: option.splits)
  ultimately show ?thesis
    by (simp add: http_server_content_type_def)
qed

end
