(* ===== verification/Http_Request.thy ===== *)
theory Http_Request
  imports Http_Common
begin

text \<open>
  The request parser in the middle of \<^verbatim>\<open>_uni_net_http_server_client_work\<close>: the search for the
  end of the headers, the command table, the URL, and the \<^verbatim>\<open>Content-Length\<close> header.  Pointers
  into \<^verbatim>\<open>buf_rx\<close> are offsets; every access goes through \<^const>\<open>mem_get\<close> or \<^const>\<open>mem_read\<close>, so that
  a result \<open>Some\<close> means that no access was out of bounds.
\<close>

section \<open>Definitions\<close>

record http_command_entry =
  cmd_len :: nat
  cmd_name :: string
  cmd_type :: http_command

definition g_UNI_NET_http_cmd :: "http_command_entry list" where
  "g_UNI_NET_http_cmd =
    [\<lparr>cmd_len = 3, cmd_name = ''GET'', cmd_type = HTTP_COMMAND_GET\<rparr>,
     \<lparr>cmd_len = 4, cmd_name = ''HEAD'', cmd_type = HTTP_COMMAND_HEAD\<rparr>,
     \<lparr>cmd_len = 4, cmd_name = ''POST'', cmd_type = HTTP_COMMAND_POST\<rparr>,
     \<lparr>cmd_len = 3, cmd_name = ''PUT'', cmd_type = HTTP_COMMAND_PUT\<rparr>,
     \<lparr>cmd_len = 6, cmd_name = ''DELETE'', cmd_type = HTTP_COMMAND_DELETE\<rparr>,
     \<lparr>cmd_len = 5, cmd_name = ''TRACE'', cmd_type = HTTP_COMMAND_TRACE\<rparr>,
     \<lparr>cmd_len = 7, cmd_name = ''OPTIONS'', cmd_type = HTTP_COMMAND_OPTIONS\<rparr>,
     \<lparr>cmd_len = 7, cmd_name = ''CONNECT'', cmd_type = HTTP_COMMAND_CONNECT\<rparr>,
     \<lparr>cmd_len = 5, cmd_name = ''PATCH'', cmd_type = HTTP_COMMAND_PATCH\<rparr>,
     \<lparr>cmd_len = 4, cmd_name = ''UNKN'', cmd_type = HTTP_COMMAND_UNKNOWN\<rparr>]"

text \<open>A conjunction of comparisons \<^verbatim>\<open>p[0] == c0 && p[1] == c1 && ...\<close>, left to right.\<close>

fun match_at :: "char list \<Rightarrow> nat \<Rightarrow> char list \<Rightarrow> bool option" where
  "match_at buf i [] = Some True"
| "match_at buf i (c # cs) =
     do { x \<leftarrow> mem_get buf i; if x = c then match_at buf (Suc i) cs else Some False }"

text \<open>The loop that looks for \<^verbatim>\<open>"\r\n\r\n"\<close>; the result is \<^verbatim>\<open>hdr_end\<close>, \<open>None\<close> for -1.\<close>

function find_hdr_end :: "char list \<Rightarrow> nat \<Rightarrow> nat \<Rightarrow> nat option option" where
  "find_hdr_end buf rx_len i =
     (if i + 3 < rx_len
      then do { m \<leftarrow> match_at buf i [CR, LF, CR, LF];
                if m then Some (Some (i + 4)) else find_hdr_end buf rx_len (Suc i) }
      else Some None)"
  by pat_completeness auto
termination by (relation "measure (\<lambda>(buf, rx_len, i). rx_len - i)") auto

text \<open>
  The command loop, over the table without its last entry: the index of the first entry whose
  name starts the buffer, or the number of entries when there is none.
\<close>

fun find_cmd :: "char list \<Rightarrow> nat \<Rightarrow> http_command_entry list \<Rightarrow> nat \<Rightarrow> nat option" where
  "find_cmd buf rx_len [] idx = Some idx"
| "find_cmd buf rx_len (c # cs) idx =
     (if cmd_len c \<le> rx_len
      then do { d \<leftarrow> mem_read buf 0 (cmd_len c);
                if d = take (cmd_len c) (cmd_name c) then Some idx
                else find_cmd buf rx_len cs (Suc idx) }
      else find_cmd buf rx_len cs (Suc idx))"

function url_scan :: "char list \<Rightarrow> nat \<Rightarrow> nat \<Rightarrow> (char list \<times> nat) option" where
  "url_scan buf hdr_end i =
     (if i < hdr_end
      then do { ch \<leftarrow> mem_get buf i;
                if ch = CR \<or> ch = LF \<or> ch = SPC \<or> ch = TAB then Some (buf[i := NUL], i)
                else url_scan buf hdr_end (Suc i) }
      else Some (buf, i))"
  by pat_completeness auto
termination by (relation "measure (\<lambda>(buf, hdr_end, i). hdr_end - i)") auto

function skip_request_line :: "char list \<Rightarrow> nat \<Rightarrow> nat \<Rightarrow> nat option" where
  "skip_request_line buf hdr_end p =
     (if p + 1 < hdr_end
      then do { m \<leftarrow> match_at buf p [CR, LF];
                if m then Some (p + 2) else skip_request_line buf hdr_end (Suc p) }
      else Some p)"
  by pat_completeness auto
termination by (relation "measure (\<lambda>(buf, hdr_end, p). hdr_end - p)") auto

function line_end :: "char list \<Rightarrow> nat \<Rightarrow> nat \<Rightarrow> nat option" where
  "line_end buf hdr_end e =
     (if e + 1 < hdr_end
      then do { m \<leftarrow> match_at buf e [CR, LF];
                if m then Some e else line_end buf hdr_end (Suc e) }
      else Some e)"
  by pat_completeness auto
termination by (relation "measure (\<lambda>(buf, hdr_end, e). hdr_end - e)") auto

fun match_name :: "char list \<Rightarrow> nat \<Rightarrow> string \<Rightarrow> bool option" where
  "match_name buf i [] = Some True"
| "match_name buf i (b # bs) =
     do { a \<leftarrow> mem_get buf i;
          if c_tolower a = c_tolower b then match_name buf (Suc i) bs else Some False }"

function skip_blanks :: "char list \<Rightarrow> nat \<Rightarrow> nat \<Rightarrow> nat option" where
  "skip_blanks buf e j =
     (if j < e
      then do { c \<leftarrow> mem_get buf j;
                if c = SPC \<or> c = TAB then skip_blanks buf e (Suc j) else Some j }
      else Some j)"
  by pat_completeness auto
termination by (relation "measure (\<lambda>(buf, e, j). e - j)") auto

text \<open>The digit loop keeps \<^verbatim>\<open>val\<close> at its 32 bits.\<close>

function scan_digits :: "char list \<Rightarrow> nat \<Rightarrow> nat \<Rightarrow> u32 \<Rightarrow> bool \<Rightarrow> (u32 \<times> bool) option" where
  "scan_digits buf e j v found =
     (if j < e
      then do { c \<leftarrow> mem_get buf j;
                if c_isdigit c
                then scan_digits buf e (Suc j) (v * 10 + (of_nat (of_char c) - 48)) True
                else Some (v, found) }
      else Some (v, found))"
  by pat_completeness auto
termination by (relation "measure (\<lambda>(buf, e, j, v, found). e - j)") auto

definition http_header_name :: string where
  "http_header_name = ''Content-Length:''"

text \<open>The body of the header loop on the line from \<open>p\<close> to \<open>e\<close>.\<close>

definition header_line ::
    "char list \<Rightarrow> nat \<Rightarrow> nat \<Rightarrow> u32 \<times> bool \<Rightarrow> (u32 \<times> bool) option" where
  "header_line buf p e acc =
     (let name_len = length http_header_name in
      if name_len \<le> e - p
      then do { m \<leftarrow> match_name buf p http_header_name;
                if m
                then do { j \<leftarrow> skip_blanks buf e (p + name_len);
                          (val, any_digit) \<leftarrow> scan_digits buf e j 0 False;
                          Some (if any_digit then (val, True) else acc) }
                else Some acc }
      else Some acc)"

declare find_hdr_end.simps [simp del] url_scan.simps [simp del] skip_request_line.simps [simp del]
  line_end.simps [simp del] skip_blanks.simps [simp del] scan_digits.simps [simp del]

lemma line_end_ge: "line_end buf hdr_end e = Some e' \<Longrightarrow> e \<le> e'"
proof (induction buf hdr_end e rule: line_end.induct)
  case (1 buf hdr_end e)
  then show ?case
    by (subst (asm) line_end.simps) (fastforce split: if_splits bind_splits)
qed

function header_loop ::
    "char list \<Rightarrow> nat \<Rightarrow> nat \<Rightarrow> u32 \<times> bool \<Rightarrow> (u32 \<times> bool) option" where
  "header_loop buf hdr_end p acc =
     (if p + 1 < hdr_end
      then do { m \<leftarrow> match_at buf p [CR, LF];
                if m then Some acc
                else do { e \<leftarrow> line_end buf hdr_end p;
                          acc' \<leftarrow> header_line buf p e acc;
                          header_loop buf hdr_end (e + 2) acc' } }
      else Some acc)"
  by pat_completeness auto
termination
  by (relation "measure (\<lambda>(buf, hdr_end, p, acc). hdr_end - p)") (auto dest: line_end_ge)

text \<open>
  The parser as a whole: lines 482 to 593 of \<^verbatim>\<open>uni_net_http_server.c\<close> without the replies.
  \<^verbatim>\<open>P_Request cmd_idx url_offset buf hdr_end content_length cl_found\<close> carries the buffer with the
  \<^verbatim>\<open>NUL\<close> stored after the URL.
\<close>

datatype http_parse_result =
    P_Incomplete
  | P_Bad "char list"
  | P_Request nat nat "char list" nat u32 bool

definition http_parse :: "char list \<Rightarrow> nat \<Rightarrow> http_parse_result option" where
  "http_parse buf rx_len =
     do { h \<leftarrow> find_hdr_end buf rx_len 0;
          case h of
            None \<Rightarrow> Some P_Incomplete
          | Some hdr_end \<Rightarrow>
             do { cmd_idx \<leftarrow> find_cmd buf rx_len (butlast g_UNI_NET_http_cmd) 0;
                  if length g_UNI_NET_http_cmd - 1 \<le> cmd_idx then Some (P_Bad buf)
                  else do {
                    let url = cmd_len (g_UNI_NET_http_cmd ! cmd_idx) + 1;
                    (buf', url_end) \<leftarrow> url_scan buf hdr_end url;
                    if hdr_end \<le> url_end then Some (P_Bad buf')
                    else do {
                      p \<leftarrow> skip_request_line buf' hdr_end 0;
                      (content_length, cl_found) \<leftarrow> header_loop buf' hdr_end p (0, False);
                      Some (P_Request cmd_idx url buf' hdr_end content_length cl_found) } } } }"

declare header_loop.simps [simp del]

section \<open>The scanning loops\<close>

lemma mem_get_nth [simp]: "i < length a \<Longrightarrow> mem_get a i = Some (a ! i)"
  by (simp add: mem_get_Some)

lemma take_drop_Cons: "j < e \<Longrightarrow> e \<le> length a \<Longrightarrow> take (e - j) (drop j a) = a ! j # take (e - Suc j) (drop (Suc j) a)"
  by (metis Cons_nth_drop_Suc Suc_diff_Suc less_le_trans take_Suc_Cons)

lemma match_at_spec:
  "i + length cs \<le> length buf \<Longrightarrow> match_at buf i cs = Some (take (length cs) (drop i buf) = cs)"
proof (induction cs arbitrary: i)
  case (Cons c cs)
  then have "drop i buf = buf ! i # drop (Suc i) buf"
    by (simp add: Cons_nth_drop_Suc)
  with Cons show ?case by simp
qed simp

lemma match_name_spec:
  "i + length bs \<le> length buf \<Longrightarrow>
   match_name buf i bs = Some (strcasecmp_eq (take (length bs) (drop i buf)) bs)"
proof (induction bs arbitrary: i)
  case (Cons b bs)
  then have "drop i buf = buf ! i # drop (Suc i) buf"
    by (simp add: Cons_nth_drop_Suc)
  with Cons show ?case by (simp add: strcasecmp_eq_def)
qed (simp add: strcasecmp_eq_def)

text \<open>Where the blank line is: the first occurrence of \<^verbatim>\<open>"\r\n\r\n"\<close> below \<open>rx_len\<close>.\<close>

definition blank_line_at :: "char list \<Rightarrow> nat \<Rightarrow> bool" where
  "blank_line_at buf k \<longleftrightarrow> take 4 (drop k buf) = [CR, LF, CR, LF]"

lemma find_hdr_end_spec:
  "rx_len \<le> length buf \<Longrightarrow>
   (\<exists>h. find_hdr_end buf rx_len i = Some (Some h) \<and> i + 4 \<le> h \<and> h \<le> rx_len \<and> blank_line_at buf (h - 4)
        \<and> (\<forall>k. i \<le> k \<and> k + 4 < h \<longrightarrow> \<not> blank_line_at buf k))
   \<or> find_hdr_end buf rx_len i = Some None \<and> (\<forall>k. i \<le> k \<and> k + 3 < rx_len \<longrightarrow> \<not> blank_line_at buf k)"
proof (induction buf rx_len i rule: find_hdr_end.induct)
  case (1 buf rx_len i)
  show ?case
  proof (cases "i + 3 < rx_len")
    case True
    then have m: "match_at buf i [CR, LF, CR, LF] = Some (blank_line_at buf i)"
      using match_at_spec [of i "[CR, LF, CR, LF]" buf] "1.prems"
      by (simp add: blank_line_at_def numeral_eq_Suc del: match_at.simps)
    have eq: "find_hdr_end buf rx_len i =
        (if blank_line_at buf i then Some (Some (i + 4)) else find_hdr_end buf rx_len (Suc i))"
      by (subst find_hdr_end.simps) (simp only: True m if_True Option.bind.bind_lunit)
    show ?thesis
    proof (cases "blank_line_at buf i")
      case False
      have ge: "k = i \<or> Suc i \<le> k" if "i \<le> k" for k using that by linarith
      have "find_hdr_end buf rx_len i = find_hdr_end buf rx_len (Suc i)"
        using eq False by simp
      then show ?thesis
        using "1.IH" [OF True m False "1.prems"] False
        by (elim disjE exE conjE) (simp, metis ge Suc_leD add_Suc)+
    next
      case True
      then have "find_hdr_end buf rx_len i = Some (Some (i + 4))" using eq by simp
      then show ?thesis using True \<open>i + 3 < rx_len\<close> by (simp add: not_less [symmetric])
    qed
  next
    case False
    then have "find_hdr_end buf rx_len i = Some None" by (simp add: find_hdr_end.simps)
    moreover have "\<not> k + 3 < rx_len" if "i \<le> k" for k using that False by linarith
    ultimately show ?thesis by blast
  qed
qed

lemma url_scan_spec:
  "hdr_end \<le> length buf \<Longrightarrow> i \<le> hdr_end \<Longrightarrow>
   \<exists>b j. url_scan buf hdr_end i = Some (b, j) \<and> i \<le> j \<and> j \<le> hdr_end \<and> length b = length buf
        \<and> b = (if j < hdr_end then buf[j := NUL] else buf)
        \<and> list_all (\<lambda>c. c \<notin> {CR, LF, SPC, TAB}) (take (j - i) (drop i buf))"
proof (induction buf hdr_end i rule: url_scan.induct)
  case (1 buf hdr_end i)
  show ?case
  proof (cases "i < hdr_end")
    case True
    then have g: "mem_get buf i = Some (buf ! i)" using "1.prems" by simp
    show ?thesis
    proof (cases "buf ! i \<in> {CR, LF, SPC, TAB}")
      case False
      with "1.IH" [OF True g] "1.prems" True obtain b j where
        u: "url_scan buf hdr_end (Suc i) = Some (b, j)" and j: "Suc i \<le> j" "j \<le> hdr_end"
        and b: "length b = length buf" "b = (if j < hdr_end then buf[j := NUL] else buf)"
        and l: "list_all (\<lambda>c. c \<notin> {CR, LF, SPC, TAB}) (take (j - Suc i) (drop (Suc i) buf))"
        by auto
      have "url_scan buf hdr_end i = Some (b, j)"
        using True False g u by (subst url_scan.simps) simp
      moreover have "take (j - i) (drop i buf) = buf ! i # take (j - Suc i) (drop (Suc i) buf)"
        using j "1.prems" by (intro take_drop_Cons) auto
      ultimately show ?thesis using j b l False by auto
    qed (use True g in \<open>auto simp: url_scan.simps\<close>)
  qed (use "1.prems" in \<open>auto simp: url_scan.simps\<close>)
qed

text \<open>The two line loops pass over every character that is not a carriage return.\<close>

lemma line_end_spec:
  "hdr_end \<le> length buf \<Longrightarrow>
   \<exists>e'. line_end buf hdr_end e = Some e' \<and> e \<le> e' \<and> (e < hdr_end \<longrightarrow> e' < hdr_end)"
proof (induction buf hdr_end e rule: line_end.induct)
  case (1 buf hdr_end e)
  show ?case
  proof (cases "e + 1 < hdr_end")
    case True
    then have m: "match_at buf e [CR, LF] = Some (take 2 (drop e buf) = [CR, LF])"
      using "1.prems" by (subst match_at_spec) (simp_all add: numeral_2_eq_2)
    with "1.IH" [OF True m] "1.prems" True show ?thesis
      by (subst line_end.simps) (auto simp del: match_at.simps)
  qed (simp add: line_end.simps)
qed

lemma skip_request_line_spec:
  "hdr_end \<le> length buf \<Longrightarrow> \<exists>p'. skip_request_line buf hdr_end p = Some p'"
proof (induction buf hdr_end p rule: skip_request_line.induct)
  case (1 buf hdr_end p)
  show ?case
  proof (cases "p + 1 < hdr_end")
    case True
    then have m: "match_at buf p [CR, LF] = Some (take 2 (drop p buf) = [CR, LF])"
      using "1.prems" by (subst match_at_spec) (simp_all add: numeral_2_eq_2)
    with "1.IH" [OF True m] "1.prems" True show ?thesis
      by (subst skip_request_line.simps) (auto simp del: match_at.simps)
  qed (simp add: skip_request_line.simps)
qed

abbreviation is_blank :: "char \<Rightarrow> bool" where
  "is_blank c \<equiv> c = SPC \<or> c = TAB"

lemma skip_blanks_spec:
  "e \<le> length buf \<Longrightarrow>
   skip_blanks buf e j = Some (j + length (takeWhile is_blank (take (e - j) (drop j buf))))"
proof (induction buf e j rule: skip_blanks.induct)
  case (1 buf e j)
  show ?case
  proof (cases "j < e")
    case True
    with "1.prems" have "mem_get buf j = Some (buf ! j)" by simp
    with "1.IH" [OF True this] "1.prems" True take_drop_Cons [OF True "1.prems"] show ?thesis
      by (subst skip_blanks.simps) simp
  qed (simp add: skip_blanks.simps)
qed

definition dec_step :: "u32 \<Rightarrow> char \<Rightarrow> u32" where
  "dec_step v c = v * 10 + (of_nat (of_char c) - 48)"

lemma scan_digits_spec:
  "e \<le> length buf \<Longrightarrow>
   scan_digits buf e j v found =
     (let ds = takeWhile c_isdigit (take (e - j) (drop j buf))
      in Some (foldl dec_step v ds, found \<or> ds \<noteq> []))"
proof (induction buf e j v found rule: scan_digits.induct)
  case (1 buf e j v found)
  show ?case
  proof (cases "j < e")
    case True
    with "1.prems" have g: "mem_get buf j = Some (buf ! j)" by simp
    with "1.IH" [OF True g] "1.prems" True take_drop_Cons [OF True "1.prems"] show ?thesis
      by (subst scan_digits.simps) (simp add: Let_def flip: dec_step_def)
  qed (simp add: scan_digits.simps)
qed

section \<open>The header lines\<close>

text \<open>
  What one header line contributes, as a function of the line: nothing, unless it starts with
  the name in any case and a digit follows the blanks; then the value of the digits.
\<close>

definition header_value :: "string \<Rightarrow> u32 \<times> bool \<Rightarrow> u32 \<times> bool" where
  "header_value line acc =
     (let n = length http_header_name;
          ds = takeWhile c_isdigit (dropWhile is_blank (drop n line))
      in if n \<le> length line \<and> strcasecmp_eq (take n line) http_header_name \<and> ds \<noteq> []
         then (foldl dec_step 0 ds, True) else acc)"

lemma drop_length_takeWhile: "drop (length (takeWhile P xs)) xs = dropWhile P xs"
  by (metis append_eq_conv_conj takeWhile_dropWhile_id)

lemma header_line_spec:
  assumes "p \<le> e" and "e \<le> length buf"
  shows "header_line buf p e acc = Some (header_value (take (e - p) (drop p buf)) acc)"
proof -
  define n where "n = length http_header_name"
  define line where "line = take (e - p) (drop p buf)"
  have len: "length line = e - p" using assms by (simp add: line_def)
  show ?thesis
  proof (cases "n \<le> e - p")
    case True
    have "take n (drop p buf) = take n line" using True by (simp add: line_def)
    then have m: "match_name buf p http_header_name = Some (strcasecmp_eq (take n line) http_header_name)"
      using match_name_spec [of p http_header_name buf] assms True by (simp add: n_def)
    have d: "take (e - (p + n)) (drop (p + n) buf) = drop n line"
      by (simp add: line_def drop_take add.commute diff_add_eq_diff_diff_swap)
    define j where "j = p + n + length (takeWhile is_blank (drop n line))"
    have sb: "skip_blanks buf e (p + n) = Some j"
      using skip_blanks_spec [OF assms(2), of "p + n"] by (simp add: d j_def)
    have "take (e - j) (drop j buf) = drop (length (takeWhile is_blank (drop n line))) (drop n line)"
      by (simp add: j_def drop_take line_def add.commute add.left_commute diff_add_eq_diff_diff_swap)
    then have "take (e - j) (drop j buf) = dropWhile is_blank (drop n line)"
      by (simp only: drop_length_takeWhile)
    then have sd: "scan_digits buf e j 0 False =
        (let ds = takeWhile c_isdigit (dropWhile is_blank (drop n line))
         in Some (foldl dec_step 0 ds, ds \<noteq> []))"
      using scan_digits_spec [OF assms(2), of j 0 False] by simp
    show ?thesis
      using True len by (simp add: header_line_def header_value_def m sb sd Let_def
          flip: n_def line_def)
  next
    case False
    with len show ?thesis
      by (simp add: header_line_def header_value_def Let_def flip: n_def line_def)
  qed
qed

lemma header_loop_total:
  "hdr_end \<le> length buf \<Longrightarrow> \<exists>r. header_loop buf hdr_end p acc = Some r"
proof (induction buf hdr_end p acc rule: header_loop.induct)
  case (1 buf hdr_end p acc)
  show ?case
  proof (cases "p + 1 < hdr_end")
    case True
    then have m: "match_at buf p [CR, LF] = Some (take 2 (drop p buf) = [CR, LF])"
      using "1.prems" by (subst match_at_spec) (simp_all add: numeral_2_eq_2)
    obtain e where e: "line_end buf hdr_end p = Some e" "p \<le> e" "e < hdr_end"
      using line_end_spec [OF "1.prems", of p] True by auto
    obtain acc' where h: "header_line buf p e acc = Some acc'"
      using header_line_spec [OF e(2), of buf acc] e(3) "1.prems" by simp
    from "1.IH" [OF True m _ e(1) h "1.prems"] show ?thesis
      using True m e h by (subst header_loop.simps) (auto simp del: match_at.simps)
  qed (simp add: header_loop.simps)
qed

section \<open>Memory safety of the parser\<close>

definition cmd_matches :: "char list \<Rightarrow> nat \<Rightarrow> http_command_entry \<Rightarrow> bool" where
  "cmd_matches buf rx_len c \<longleftrightarrow>
     cmd_len c \<le> rx_len \<and> take (cmd_len c) buf = take (cmd_len c) (cmd_name c)"

lemma find_cmd_Cons:
  assumes "rx_len \<le> length buf"
  shows "find_cmd buf rx_len (c # cs) idx =
    (if cmd_matches buf rx_len c then Some idx else find_cmd buf rx_len cs (Suc idx))"
  using assms by (simp add: cmd_matches_def mem_read_def)

lemma find_cmd_spec:
  assumes "rx_len \<le> length buf"
  shows "\<exists>k. find_cmd buf rx_len cs idx = Some (idx + k) \<and> k \<le> length cs
     \<and> (k < length cs \<longrightarrow> cmd_matches buf rx_len (cs ! k)) \<and> (\<forall>j<k. \<not> cmd_matches buf rx_len (cs ! j))"
proof (induction cs arbitrary: idx)
  case (Cons c cs)
  show ?case
  proof (cases "cmd_matches buf rx_len c")
    case False
    from Cons.IH [of "Suc idx"] obtain k where
      "find_cmd buf rx_len cs (Suc idx) = Some (Suc idx + k)" "k \<le> length cs"
      "k < length cs \<longrightarrow> cmd_matches buf rx_len (cs ! k)" "\<forall>j<k. \<not> cmd_matches buf rx_len (cs ! j)"
      by blast
    with False show ?thesis
      by (intro exI [of _ "Suc k"])
         (auto simp: find_cmd_Cons [OF assms] less_Suc_eq_0_disj simp del: find_cmd.simps)
  qed (auto simp: find_cmd_Cons [OF assms] simp del: find_cmd.simps intro: exI [of _ 0])
qed simp

lemma blank_line_first_lines:
  assumes "blank_line_at buf k" and "take n buf = take n name" and "n \<le> length buf" and "CR \<notin> set name"
    and "length name = n"
  shows "n \<le> k"
proof (rule ccontr)
  assume "\<not> n \<le> k"
  have "4 = length (take 4 (drop k buf))" using assms(1) by (simp add: blank_line_at_def)
  then have k: "k < length buf" by simp
  have "hd (take 4 (drop k buf)) = CR" using assms(1) by (simp add: blank_line_at_def)
  then have "buf ! k = CR" using k by (simp add: hd_drop_conv_nth)
  moreover have "buf ! k = take n buf ! k" "name ! k = take n name ! k"
    using \<open>\<not> n \<le> k\<close> by simp_all
  moreover have "name ! k \<in> set name" using assms(5) \<open>\<not> n \<le> k\<close> by simp
  ultimately show False using assms(2,4) by simp
qed

definition cmd_entry_ok :: "http_command_entry \<Rightarrow> bool" where
  "cmd_entry_ok c \<longleftrightarrow> cmd_len c = length (cmd_name c) \<and> 3 \<le> cmd_len c \<and> cmd_len c \<le> 7
     \<and> list_all (\<lambda>x. x \<notin> {CR, LF, SPC, TAB, NUL}) (cmd_name c) \<and> cmd_type c \<noteq> HTTP_COMMAND_UNKNOWN"

lemma g_UNI_NET_http_cmd_ok:
  assumes "k < 9"
  shows "cmd_entry_ok (g_UNI_NET_http_cmd ! k)"
proof -
  have "list_all cmd_entry_ok (take 9 g_UNI_NET_http_cmd)"
    by (simp add: g_UNI_NET_http_cmd_def cmd_entry_ok_def)
  moreover have "k < length (take 9 g_UNI_NET_http_cmd)"
    using assms by (simp add: g_UNI_NET_http_cmd_def)
  ultimately have "cmd_entry_ok (take 9 g_UNI_NET_http_cmd ! k)"
    by (simp only: list_all_length)
  then show ?thesis using assms by (simp only: nth_take)
qed

lemma length_g_UNI_NET_http_cmd [simp]: "length g_UNI_NET_http_cmd = 10"
  by (simp add: g_UNI_NET_http_cmd_def)

lemma nth_butlast_cmd: "k < 9 \<Longrightarrow> butlast g_UNI_NET_http_cmd ! k = g_UNI_NET_http_cmd ! k"
  by (simp add: nth_butlast)

text \<open>What a parsed request guarantees: every index the dispatcher uses is inside the buffer.\<close>

definition request_ok :: "char list \<Rightarrow> nat \<Rightarrow> http_parse_result \<Rightarrow> bool" where
  "request_ok buf rx_len r \<longleftrightarrow>
     (case r of
        P_Incomplete \<Rightarrow> True
      | P_Bad b \<Rightarrow> length b = length buf
      | P_Request cmd_idx url b hdr_end content_length cl_found \<Rightarrow>
          cmd_idx < 9 \<and> length b = length buf \<and> url < hdr_end \<and> hdr_end \<le> rx_len
          \<and> cmd_type (g_UNI_NET_http_cmd ! cmd_idx) \<noteq> HTTP_COMMAND_UNKNOWN
          \<and> NUL \<in> set (take (hdr_end - url) (drop url b)))"

lemma http_parse_total:
  assumes len: "rx_len \<le> length buf"
  shows "\<exists>r. http_parse buf rx_len = Some r \<and> request_ok buf rx_len r"
proof (cases "find_hdr_end buf rx_len 0 = Some None")
  case False
  then obtain h where h: "find_hdr_end buf rx_len 0 = Some (Some h)" "4 \<le> h" "h \<le> rx_len"
    and bl: "blank_line_at buf (h - 4)"
    using find_hdr_end_spec [OF len, of 0] by (metis add_0)
  obtain k where k: "find_cmd buf rx_len (butlast g_UNI_NET_http_cmd) 0 = Some k" "k \<le> 9"
    and km: "k < 9 \<longrightarrow> cmd_matches buf rx_len (g_UNI_NET_http_cmd ! k)"
    using find_cmd_spec [OF len, of "butlast g_UNI_NET_http_cmd" 0]
    by (fastforce simp: nth_butlast_cmd)
  show ?thesis
  proof (cases "k < 9")
    case True
    define c where "c = g_UNI_NET_http_cmd ! k"
    have ok: "cmd_entry_ok c" unfolding c_def using True by (rule g_UNI_NET_http_cmd_ok)
    have m: "cmd_matches buf rx_len c" using km True by (simp add: c_def)
    have "cmd_len c \<le> h - 4"
    proof (rule blank_line_first_lines [OF bl])
      show "take (cmd_len c) buf = take (cmd_len c) (cmd_name c)" "cmd_len c \<le> length buf"
        using m len by (simp_all add: cmd_matches_def)
      show "CR \<notin> set (cmd_name c)" "length (cmd_name c) = cmd_len c"
        using ok by (auto simp: cmd_entry_ok_def list_all_iff)
    qed
    then have u: "cmd_len c + 1 \<le> h" using h by linarith
    obtain b j where us: "url_scan buf h (cmd_len c + 1) = Some (b, j)" "cmd_len c + 1 \<le> j" "j \<le> h"
      "length b = length buf" "b = (if j < h then buf[j := NUL] else buf)"
      using url_scan_spec [of h buf "cmd_len c + 1"] u h(3) len by (meson le_trans)
    obtain p where p: "skip_request_line b h 0 = Some p"
      using skip_request_line_spec [of h b 0] us(4) h(3) len by auto
    obtain cl f where cl: "header_loop b h p (0, False) = Some (cl, f)"
      using header_loop_total [of h b p "(0, False)"] us(4) h(3) len by auto
    have nul: "NUL \<in> set (take (h - (cmd_len c + 1)) (drop (cmd_len c + 1) b))" if "j < h"
    proof -
      let ?t = "take (h - (cmd_len c + 1)) (drop (cmd_len c + 1) b)"
      have lt: "j - (cmd_len c + 1) < length ?t" using that us(2-4) h(3) len by simp
      then have "?t ! (j - (cmd_len c + 1)) = b ! j" using that us(2-4) h(3) len by simp
      also have "\<dots> = NUL" using that us(5) h(3) len by simp
      finally show ?thesis using nth_mem [OF lt] by simp
    qed
    have eq: "http_parse buf rx_len =
        (if h \<le> j then Some (P_Bad b) else Some (P_Request k (cmd_len c + 1) b h cl f))"
      using True by (simp add: http_parse_def h(1) k(1) us(1) [simplified] p cl Let_def flip: c_def)
    show ?thesis
      using eq nul True us(2-4) h(3) ok
      by (cases "h \<le> j") (simp_all add: request_ok_def cmd_entry_ok_def flip: c_def)
  next
    case False
    then have "http_parse buf rx_len = Some (P_Bad buf)" by (simp add: http_parse_def h(1) k(1))
    then show ?thesis by (simp add: request_ok_def)
  qed
qed (simp add: http_parse_def request_ok_def)

section \<open>Printing and parsing a request\<close>

text \<open>
  Three loops look for a pattern that starts with a carriage return: the blank line, the end of
  the request line and the end of a header line.  Their common contract is the locale; a text
  without a carriage return is passed over, and the pattern is found behind it.
\<close>

locale crlf_scan =
  fixes scan :: "char list \<Rightarrow> nat \<Rightarrow> nat \<Rightarrow> 'r option" and pat :: "char list" and stop :: "nat \<Rightarrow> 'r"
  assumes pat_CR: "pat \<noteq> []" "hd pat = CR"
    and scan_step: "i + length pat \<le> n \<Longrightarrow> n \<le> length buf \<Longrightarrow>
      scan buf n i = (if take (length pat) (drop i buf) = pat then Some (stop i) else scan buf n (Suc i))"
begin

lemma scan_skip:
  assumes "CR \<notin> set xs" and "drop i buf = xs @ zs" and "i + length xs + length pat \<le> n" and "n \<le> length buf"
  shows "scan buf n i = scan buf n (i + length xs)"
  using assms
proof (induction xs arbitrary: i)
  case (Cons x xs)
  then have "hd (take (length pat) (drop i buf)) = x" using pat_CR by (simp add: hd_take)
  with Cons.prems(1) have "take (length pat) (drop i buf) \<noteq> pat"
    using pat_CR(2) by (metis list.set_intros(1))
  then have "scan buf n i = scan buf n (Suc i)"
    using scan_step [of i n buf] Cons.prems by simp
  moreover have "drop (Suc i) buf = xs @ zs"
    using Cons.prems(2) by (metis append_Cons drop_Suc list.sel(3) tl_drop)
  ultimately show ?case using Cons.IH [of "Suc i"] Cons.prems by simp
qed simp

lemma scan_hit:
  assumes "CR \<notin> set xs" and "drop i buf = xs @ pat @ zs" and "i + length xs + length pat \<le> n" and "n \<le> length buf"
  shows "scan buf n i = Some (stop (i + length xs))"
proof -
  have "drop (i + length xs) buf = pat @ zs"
    using assms(2) by (metis add.commute append_eq_conv_conj drop_drop)
  then show ?thesis
    using scan_skip [OF assms] scan_step [of "i + length xs" n buf] assms(3,4) by simp
qed

end

interpretation le: crlf_scan line_end "[CR, LF]" "\<lambda>i. i"
proof
  fix i n and buf :: "char list"
  assume "i + length [CR, LF] \<le> n" "n \<le> length buf"
  then show "line_end buf n i = (if take (length [CR, LF]) (drop i buf) = [CR, LF] then Some i else line_end buf n (Suc i))"
    using match_at_spec [of i "[CR, LF]" buf]
    by (subst line_end.simps) (simp del: match_at.simps)
qed simp_all

interpretation rl: crlf_scan skip_request_line "[CR, LF]" "\<lambda>i. i + 2"
proof
  fix i n and buf :: "char list"
  assume "i + length [CR, LF] \<le> n" "n \<le> length buf"
  then show "skip_request_line buf n i =
      (if take (length [CR, LF]) (drop i buf) = [CR, LF] then Some (i + 2) else skip_request_line buf n (Suc i))"
    using match_at_spec [of i "[CR, LF]" buf]
    by (subst skip_request_line.simps) (simp del: match_at.simps)
qed simp_all

interpretation bl: crlf_scan find_hdr_end "[CR, LF, CR, LF]" "\<lambda>i. Some (i + 4)"
proof
  fix i n and buf :: "char list"
  assume "i + length [CR, LF, CR, LF] \<le> n" "n \<le> length buf"
  then show "find_hdr_end buf n i =
      (if take (length [CR, LF, CR, LF]) (drop i buf) = [CR, LF, CR, LF] then Some (Some (i + 4))
       else find_hdr_end buf n (Suc i))"
    using match_at_spec [of i "[CR, LF, CR, LF]" buf]
    by (subst find_hdr_end.simps) (simp del: match_at.simps)
qed simp_all

definition crlf_lines :: "string list \<Rightarrow> string" where
  "crlf_lines ls = concat (map (\<lambda>l. l @ [CR, LF]) ls)"

lemma crlf_lines_simps [simp]:
  "crlf_lines [] = []" "crlf_lines (l # ls) = l @ CR # LF # crlf_lines ls"
  by (simp_all add: crlf_lines_def)

definition header_ok :: "string \<Rightarrow> bool" where
  "header_ok l \<longleftrightarrow> l \<noteq> [] \<and> CR \<notin> set l"

definition http_request_text :: "string \<Rightarrow> string \<Rightarrow> string \<Rightarrow> string list \<Rightarrow> string" where
  "http_request_text name url version hdrs =
     name @ [SPC] @ url @ [SPC] @ version @ [CR, LF] @ crlf_lines hdrs @ [CR, LF]"

lemma drop_plus: "drop i xs = ys @ zs \<Longrightarrow> drop (i + length ys) xs = zs"
  by (metis add.commute append_eq_conv_conj drop_drop)

lemma find_hdr_end_lines:
  assumes "drop i buf = l @ CR # LF # crlf_lines hdrs @ CR # LF # tl'" and "CR \<notin> set l"
    and "list_all header_ok hdrs" and "i + length l + length (crlf_lines hdrs) + 4 \<le> n" and "n \<le> length buf"
  shows "find_hdr_end buf n i = Some (Some (i + length l + length (crlf_lines hdrs) + 4))"
  using assms
proof (induction hdrs arbitrary: i l)
  case Nil
  then show ?case using bl.scan_hit [of l i buf tl' n] by simp
next
  case (Cons h hs)
  then obtain x h' where h: "h = x # h'" "x \<noteq> CR" "CR \<notin> set h"
    by (cases h) (auto simp: header_ok_def)
  let ?j = "i + length l"
  have j: "drop ?j buf = CR # LF # x # h' @ CR # LF # crlf_lines hs @ CR # LF # tl'"
    using drop_plus [OF Cons.prems(1)] h by simp
  have j2: "drop (?j + 2) buf = h @ CR # LF # crlf_lines hs @ CR # LF # tl'"
    using drop_plus [of ?j buf "[CR, LF]"] j h by simp
  have "find_hdr_end buf n i = find_hdr_end buf n ?j"
    using Cons.prems h by (intro bl.scan_skip) auto
  also have "\<dots> = find_hdr_end buf n (Suc ?j)"
    using Cons.prems h bl.scan_step [of ?j n buf] j by (simp add: drop_Cons')
  also have "\<dots> = find_hdr_end buf n (?j + 2)"
    using bl.scan_skip [of "[LF]" "Suc ?j" buf "drop (?j + 2) buf" n] Cons.prems h j j2
      drop_plus [of ?j buf "[CR]"] by simp
  also have "\<dots> = Some (Some (?j + 2 + length h + length (crlf_lines hs) + 4))"
    using Cons.prems h(3) j2 by (intro Cons.IH) auto
  finally show ?case by (simp add: algebra_simps)
qed

lemma header_loop_lines:
  assumes "drop p buf = crlf_lines hdrs @ CR # LF # tl'" and "list_all header_ok hdrs"
    and "p + length (crlf_lines hdrs) + 2 = hdr_end" and "hdr_end \<le> length buf"
  shows "header_loop buf hdr_end p acc = Some (fold header_value hdrs acc)"
  using assms
proof (induction hdrs arbitrary: p acc)
  case Nil
  then show ?case
    using match_at_spec [of p "[CR, LF]" buf]
    by (subst header_loop.simps) (simp del: match_at.simps)
next
  case (Cons h hs)
  then obtain x h' where h: "h = x # h'" "x \<noteq> CR" "CR \<notin> set h"
    by (cases h) (auto simp: header_ok_def)
  let ?e = "p + length h"
  have d: "drop p buf = h @ CR # LF # crlf_lines hs @ CR # LF # tl'" using Cons.prems(1) by simp
  have m: "match_at buf p [CR, LF] = Some False"
    using match_at_spec [of p "[CR, LF]" buf] Cons.prems h by simp
  have e: "line_end buf hdr_end p = Some ?e"
    using le.scan_hit [of h p buf] d h(3) Cons.prems by simp
  have l: "header_line buf p ?e acc = Some (header_value h acc)"
    using header_line_spec [of p ?e buf acc] d Cons.prems by simp
  have "drop (?e + 2) buf = crlf_lines hs @ CR # LF # tl'"
    using drop_plus [of p buf "h @ [CR, LF]"] d by simp
  then have "header_loop buf hdr_end (?e + 2) (header_value h acc) = Some (fold header_value hs (header_value h acc))"
    using Cons.prems by (intro Cons.IH) auto
  then show ?case
    using m e l Cons.prems h
    by (subst header_loop.simps) (simp del: match_at.simps)
qed

text \<open>The URL ends at the first separator, where a \<^verbatim>\<open>NUL\<close> is stored.\<close>

lemma url_scan_token:
  assumes "list_all (\<lambda>c. c \<notin> {CR, LF, SPC, TAB}) url" and "drop i buf = url @ SPC # zs"
    and "i + length url < hdr_end" and "hdr_end \<le> length buf"
  shows "url_scan buf hdr_end i = Some (buf[i + length url := NUL], i + length url)"
  using assms
proof (induction url arbitrary: i)
  case Nil
  then have "buf ! i = SPC" by (metis append_Nil hd_drop_conv_nth list.sel(1) add_0_right less_le_trans list.size(3))
  with Nil show ?case by (subst url_scan.simps) simp
next
  case (Cons c url)
  then have "buf ! i = c" by (metis append_Cons hd_drop_conv_nth list.sel(1) add_lessD1 less_le_trans)
  moreover have "drop (Suc i) buf = url @ SPC # zs"
    using Cons.prems(2) by (metis append_Cons drop_Suc list.sel(3) tl_drop)
  ultimately show ?case
    using Cons.IH [of "Suc i"] Cons.prems by (subst url_scan.simps) simp
qed

lemma find_cmd_unique:
  assumes "k < 9" and "rx_len \<le> length buf" and "buf = cmd_name (g_UNI_NET_http_cmd ! k) @ SPC # zs"
    and "length (cmd_name (g_UNI_NET_http_cmd ! k)) < rx_len"
  shows "find_cmd buf rx_len (butlast g_UNI_NET_http_cmd) 0 = Some k"
proof -
  have k: "k \<in> {0, 1, 2, 3, 4, 5, 6, 7, 8}" using assms(1) by auto
  have m: "cmd_matches buf rx_len c \<longleftrightarrow> cmd_len c \<le> rx_len
      \<and> take (cmd_len c) (cmd_name (g_UNI_NET_http_cmd ! k) @ SPC # zs) = take (cmd_len c) (cmd_name c)" for c
    using assms(3) by (simp add: cmd_matches_def)
  show ?thesis
    using k assms(4)
    by (elim insertE emptyE)
       (simp_all add: g_UNI_NET_http_cmd_def find_cmd_Cons [OF assms(2)] m del: find_cmd.simps(2))
qed

lemma blank_line_split:
  assumes "rx_len \<le> length buf"
  shows "(\<exists>pre post. take rx_len buf = pre @ [CR, LF, CR, LF] @ post) \<longleftrightarrow>
      (\<exists>k. k + 3 < rx_len \<and> blank_line_at buf k)"
proof
  assume "\<exists>pre post. take rx_len buf = pre @ [CR, LF, CR, LF] @ post"
  then obtain pre post where t: "take rx_len buf = pre @ [CR, LF, CR, LF] @ post" by blast
  then have "length (pre @ [CR, LF, CR, LF] @ post) = rx_len" using assms by (metis length_take min.absorb2)
  then have l: "length pre + 3 < rx_len" by simp
  have "take 4 (drop (length pre) buf) = take 4 (drop (length pre) (take rx_len buf))"
    using l by (simp add: drop_take)
  also have "\<dots> = [CR, LF, CR, LF]" by (simp add: t)
  finally show "\<exists>k. k + 3 < rx_len \<and> blank_line_at buf k"
    using l by (auto simp: blank_line_at_def)
next
  assume "\<exists>k. k + 3 < rx_len \<and> blank_line_at buf k"
  then obtain k where k: "k + 3 < rx_len" "take 4 (drop k buf) = [CR, LF, CR, LF]"
    by (auto simp: blank_line_at_def)
  have "take rx_len buf = take k (take rx_len buf) @ take 4 (drop k (take rx_len buf)) @ drop 4 (drop k (take rx_len buf))"
    by (simp only: append_take_drop_id)
  also have "take 4 (drop k (take rx_len buf)) = [CR, LF, CR, LF]"
    using k by (simp add: drop_take)
  finally show "\<exists>pre post. take rx_len buf = pre @ [CR, LF, CR, LF] @ post" by blast
qed

lemma dec_step_digit [simp]: "n < 10 \<Longrightarrow> dec_step v (char_of (48 + n)) = v * 10 + of_nat n"
  by (simp add: dec_step_def)

lemma foldl_dec_string: "foldl dec_step 0 (dec_string n) = of_nat n"
proof (induction n rule: dec_string.induct)
  case (1 n)
  show ?case
  proof (cases "n < 10")
    case True
    then show ?thesis by (simp add: dec_string.simps [of n])
  next
    case False
    have "(of_nat n :: u32) = of_nat (n div 10 * 10 + n mod 10)" by simp
    also have "\<dots> = of_nat (n div 10) * 10 + of_nat (n mod 10)" by (simp only: of_nat_add of_nat_mult) simp
    finally show ?thesis
      using False 1 by (simp add: dec_string.simps [of n])
  qed
qed

lemma dec_string_nonempty: "dec_string n \<noteq> []"
  by (subst dec_string.simps) simp

text \<open>The request line with a \<^verbatim>\<open>NUL\<close> behind the URL, as the later loops see it.\<close>

lemma request_text_parts:
  assumes "buf = http_request_text name url version hdrs @ tl'"
  shows "buf = name @ SPC # url @ SPC # version @ CR # LF # crlf_lines hdrs @ CR # LF # tl'"
    and "buf[Suc (length name + length url) := NUL] =
      name @ SPC # url @ NUL # version @ CR # LF # crlf_lines hdrs @ CR # LF # tl'"
    and "length (http_request_text name url version hdrs) =
      length name + length url + length version + length (crlf_lines hdrs) + 6"
  using assms by (simp_all add: http_request_text_def list_update_append)

text \<open>
  C6.  Parsing what a client prints gives the request back: for every command of the table, every
  URL without separators, every list of non-empty header lines and every body behind them, the
  parser finds the command, leaves the URL as a C string, computes the \<^verbatim>\<open>Content-Length\<close>
  from the header lines in order, and places the body where the headers end.
\<close>

theorem http_parse_request_text:
  assumes k: "k < 9"
    and url: "list_all (\<lambda>c. c \<notin> {CR, LF, SPC, TAB, NUL}) url"
    and version: "CR \<notin> set version" and hdrs: "list_all header_ok hdrs"
    and buf: "buf = http_request_text (cmd_name (g_UNI_NET_http_cmd ! k)) url version hdrs @ body @ rest"
    and rx_len: "rx_len = length (http_request_text (cmd_name (g_UNI_NET_http_cmd ! k)) url version hdrs) + length body"
  shows "\<exists>b cl found. http_parse buf rx_len =
      Some (P_Request k (cmd_len (g_UNI_NET_http_cmd ! k) + 1) b (rx_len - length body) cl found)
      \<and> (cl, found) = fold header_value hdrs (0, False)
      \<and> c_string b (cmd_len (g_UNI_NET_http_cmd ! k) + 1) = url
      \<and> drop (rx_len - length body) b = body @ rest"
proof -
  define c where "c = g_UNI_NET_http_cmd ! k"
  define h where "h = rx_len - length body"
  define b where "b = buf[Suc (length (cmd_name c) + length url) := NUL]"
  have ok: "cmd_len c = length (cmd_name c)" "CR \<notin> set (cmd_name c)"
    using g_UNI_NET_http_cmd_ok [OF k] by (auto simp: c_def cmd_entry_ok_def list_all_iff)
  note parts = request_text_parts [OF buf, folded c_def]
  have h: "h = length (cmd_name c) + length url + length version + length (crlf_lines hdrs) + 6"
    using rx_len parts(3) by (simp add: h_def c_def)
  have len: "rx_len \<le> length buf" "h \<le> rx_len" "h \<le> length buf"
    using rx_len buf by (simp_all add: h_def)
  have url4: "list_all (\<lambda>c. c \<notin> {CR, LF, SPC, TAB}) url" and url_CR: "CR \<notin> set url"
    and url_NUL: "\<forall>x \<in> set url. x \<noteq> NUL" using url by (auto simp: list_all_iff)
  have e1: "find_hdr_end buf rx_len 0 = Some (Some h)"
    using find_hdr_end_lines [of 0 buf "cmd_name c @ SPC # url @ SPC # version" hdrs "body @ rest" rx_len]
      parts(1) ok url_CR version hdrs len h by (simp add: algebra_simps)
  have e2: "find_cmd buf rx_len (butlast g_UNI_NET_http_cmd) 0 = Some k"
    using parts(1) len h k by (intro find_cmd_unique) (auto simp flip: c_def)
  have "drop (Suc (length (cmd_name c))) buf = url @ SPC # version @ CR # LF # crlf_lines hdrs @ CR # LF # body @ rest"
    by (subst parts(1)) simp
  then have e3: "url_scan buf h (Suc (cmd_len c)) = Some (b, Suc (cmd_len c + length url))"
    using url_scan_token [OF url4, of "Suc (length (cmd_name c))" buf _ h] len h ok(1)
    by (simp add: b_def)
  note pb = parts(2) [folded b_def]
  have len_b: "length b = length buf" by (simp add: b_def)
  define p where "p = length (cmd_name c) + length url + length version + 4"
  have e4: "skip_request_line b h 0 = Some p"
    using rl.scan_hit [of "cmd_name c @ SPC # url @ NUL # version" 0 b] pb ok(2) url_CR version len len_b h
    by (simp add: p_def)
  have "drop p b = crlf_lines hdrs @ CR # LF # body @ rest"
    using drop_plus [of 0 b "cmd_name c @ SPC # url @ NUL # version @ [CR, LF]"] pb
    by (simp add: p_def ac_simps)
  then have e5: "header_loop b h p (0, False) = Some (fold header_value hdrs (0, False))"
    using hdrs len len_b h by (intro header_loop_lines) (simp_all add: p_def)
  obtain cl found where cl: "fold header_value hdrs (0, False) = (cl, found)" by fastforce
  have "\<not> h \<le> Suc (cmd_len c + length url)" using h ok(1) by simp
  with cl have "http_parse buf rx_len = Some (P_Request k (Suc (cmd_len c)) b h cl found)"
    using k by (simp add: http_parse_def e1 e2 e3 e4 e5 Let_def flip: c_def)
  moreover have "c_string b (Suc (cmd_len c)) = url"
    using url_NUL by (subst pb) (simp add: c_string_def ok(1) takeWhile_append2)
  moreover have "drop h b = body @ rest"
    using drop_plus [of 0 b "cmd_name c @ SPC # url @ NUL # version @ CR # LF # crlf_lines hdrs @ [CR, LF]"] pb
    by (simp add: h ac_simps)
  ultimately show ?thesis using cl by (simp flip: c_def h_def)
qed

theorem http_parse_request_text_witness:
  "\<exists>b. http_parse (http_request_text ''POST'' ''/led'' ''HTTP/1.1'' [''Host: a'', ''content-length:  5''] @ ''state'')
        (length (http_request_text ''POST'' ''/led'' ''HTTP/1.1'' [''Host: a'', ''content-length:  5'']) + 5) =
      Some (P_Request 2 5 b
        (length (http_request_text ''POST'' ''/led'' ''HTTP/1.1'' [''Host: a'', ''content-length:  5''])) 5 True)
     \<and> c_string b 5 = ''/led''"
proof -
  define hs where "hs = [''Host: a'', ''content-length:  5'']"
  define t where "t = http_request_text ''POST'' ''/led'' ''HTTP/1.1'' hs"
  have c: "cmd_name (g_UNI_NET_http_cmd ! 2) = ''POST''" "cmd_len (g_UNI_NET_http_cmd ! 2) = 4"
    by (simp_all add: g_UNI_NET_http_cmd_def)
  have "strcasecmp_eq ''content-length:'' http_header_name" by code_simp
  then have f: "fold header_value hs (0, False) = (5, True)"
    by (simp add: hs_def header_value_def http_header_name_def c_isdigit_def dec_step_def)
  have "(2 :: nat) < 9" "list_all (\<lambda>c. c \<notin> {CR, LF, SPC, TAB, NUL}) ''/led''" "CR \<notin> set ''HTTP/1.1''"
    "list_all header_ok hs" by (simp_all add: hs_def header_ok_def)
  from http_parse_request_text [OF this refl refl, of "''state''" "[]", unfolded c, folded t_def]
  obtain b cl found where "http_parse (t @ ''state'') (length t + 5) = Some (P_Request 2 5 b (length t) cl found)"
    and "(cl, found) = fold header_value hs (0, False)" and "c_string b 5 = ''/led''"
    by (auto simp: numeral_eq_Suc)
  with f show ?thesis unfolding hs_def [symmetric] t_def [symmetric] by auto
qed

text \<open>
  C19.  The parser never reads or writes outside the receive buffer: on every buffer content and
  every fill level within the buffer it returns, the returned buffer has the same length, a
  parsed request names one of the nine commands, its headers end within the received bytes, and
  its URL is terminated before that end.
\<close>

theorem http_parse_memory_safe:
  assumes "rx_len \<le> length buf"
  shows "\<exists>r. http_parse buf rx_len = Some r \<and> request_ok buf rx_len r"
  using assms by (rule http_parse_total)

theorem http_parse_memory_safe_witness:
  "\<exists>r. http_parse ''GETX'' 4 = Some r \<and> request_ok ''GETX'' 4 r"
  using http_parse_memory_safe [of 4 "''GETX''"] by simp

text \<open>
  C27.  The parser waits exactly while the headers are incomplete: the result is
  \<^const>\<open>P_Incomplete\<close> if and only if the received bytes contain no blank line.
\<close>

theorem http_parse_incomplete:
  assumes "rx_len \<le> length buf"
  shows "http_parse buf rx_len = Some P_Incomplete \<longleftrightarrow>
    (\<forall>pre post. take rx_len buf \<noteq> pre @ [CR, LF, CR, LF] @ post)"
proof -
  have none: "http_parse buf rx_len = Some P_Incomplete \<longleftrightarrow> find_hdr_end buf rx_len 0 = Some None"
    by (auto simp: http_parse_def Let_def split: option.splits bind_splits if_splits)
  have some: "(\<exists>pre post. take rx_len buf = pre @ [CR, LF, CR, LF] @ post) \<longleftrightarrow>
      (\<exists>k. k + 3 < rx_len \<and> blank_line_at buf k)"
    by (rule blank_line_split [OF assms])
  show ?thesis
    using find_hdr_end_spec [OF assms, of 0] none some by auto
qed

theorem http_parse_incomplete_witness:
  "http_parse ''GET /'' 5 = Some P_Incomplete \<longleftrightarrow>
    (\<forall>pre post. take 5 ''GET /'' \<noteq> pre @ [CR, LF, CR, LF] @ post)"
  by (rule http_parse_incomplete) simp



end
