(* ===== verification/Http_Server.thy ===== *)
theory Http_Server
  imports Http_Request
begin

text \<open>
  \<^verbatim>\<open>uni_net_http_server.[ch]\<close>: the client state machine, the replies, the GET and POST commands,
  the select loop and the public functions.  A result \<open>None\<close> is a run that dereferences
  \<^verbatim>\<open>NULL\<close> or accesses an array out of bounds, or a loop that does not end.
\<close>

section \<open>State\<close>

record 'w http_client =
  cl_socket :: socket_t
  cl_command_type :: http_command
  cl_file :: "http_file option"
  cl_handler :: "'w http_handler option"
  cl_file_offset :: u32
  cl_content_length :: u32
  cl_header_sent :: bool
  cl_content_type :: "string option"
  cl_rx_len :: u32
  cl_headers_done :: bool
  cl_buf_rx :: "char list"
  cl_buf_tx :: "char list"

record ('w, 'ha, 'fa) http_ctx =
  cfg_handlers :: 'ha
  cfg_files :: 'fa
  cfg_max_clients :: nat
  st_initialized :: bool
  st_handle :: bool
  st_socket :: socket_t
  st_clients :: "'w http_client option list option"
  st_buf_tx_hdr :: "char list"

datatype sock_setup =
    SU_bind nat | SU_listen nat | SU_RCVTIMEO nat | SU_SNDTIMEO nat | SU_WIN_PROPERTIES nat nat nat nat

text \<open>
  The calls only the server makes, and the operations of \<^verbatim>\<open>uni_common_array_t\<close> on the two
  registries.
\<close>

record ('w, 'ha, 'fa) http_env = "'w net_os" +
  os_accept :: "'w \<Rightarrow> socket_t \<Rightarrow> socket_t \<times> 'w"
  os_IsNetworkUp :: "'w \<Rightarrow> bool \<times> 'w"
  os_CreateSocketSet :: "'w \<Rightarrow> 'w"
  os_socket :: "'w \<Rightarrow> socket_t \<times> 'w"
  os_setup :: "'w \<Rightarrow> socket_t \<Rightarrow> sock_setup \<Rightarrow> 'w"
  os_SignalSocket :: "'w \<Rightarrow> socket_t \<Rightarrow> 'w"
  os_SignalSocketFromISR :: "'w \<Rightarrow> socket_t \<Rightarrow> 'w"
  os_calloc :: "'w \<Rightarrow> bool \<times> 'w"
  os_xTaskCreate :: "'w \<Rightarrow> bool \<times> 'w"
  handlers_valid :: "'ha \<Rightarrow> bool"
  handlers_size :: "'ha \<Rightarrow> nat"
  handlers_get :: "'ha \<Rightarrow> nat \<Rightarrow> 'w http_handler"
  handlers_push :: "'ha \<Rightarrow> 'w http_handler \<Rightarrow> bool \<times> 'ha"
  files_valid :: "'fa \<Rightarrow> bool"
  files_size :: "'fa \<Rightarrow> nat"
  files_get :: "'fa \<Rightarrow> nat \<Rightarrow> http_file"
  files_push :: "'fa \<Rightarrow> http_file \<Rightarrow> bool \<times> 'fa"

abbreviation HTTP_SERVER_PORT :: nat where "HTTP_SERVER_PORT \<equiv> 80"
abbreviation HTTP_SERVER_RX_WIN :: nat where "HTTP_SERVER_RX_WIN \<equiv> 2"
abbreviation HTTP_SERVER_TX_WIN :: nat where "HTTP_SERVER_TX_WIN \<equiv> 2"

section \<open>Replies\<close>

definition http_header_lines :: "http_status \<Rightarrow> 'w http_client \<Rightarrow> string list" where
  "http_header_lines status client =
    [''HTTP/1.1 '' @ dec_string (http_status_code status) @ '' '' @ http_status_name status @ [CR, LF],
     ''Content-Type: '' @ (case cl_content_type client of Some t \<Rightarrow> t | None \<Rightarrow> ''text/html'') @ [CR, LF],
     ''Cache-Control: no-store, no-cache, must-revalidate, max-age=0'' @ [CR, LF],
     ''Pragma: no-cache'' @ [CR, LF],
     ''Expires: 0'' @ [CR, LF],
     ''Connection: keep-alive'' @ [CR, LF],
     ''Content-Length: '' @ dec_string (unat (cl_content_length client)) @ [CR, LF, CR, LF]]"

text \<open>One \<^verbatim>\<open>idx += snprintf(&buf[idx], sizeof(buf) - idx - 1, ...)\<close>.\<close>

definition hdr_printf ::
    "('w, 'z) net_os_scheme \<Rightarrow> string \<Rightarrow> char list \<times> size_t \<Rightarrow> (char list \<times> size_t) option" where
  "hdr_printf e out bi =
     (let (buf, idx) = bi;
          size = of_nat (length buf) - idx - 1;
          (stored, ret) = lib_snprintf e (unat size) out
      in do { buf' \<leftarrow> (if size = 0 then Some buf else mem_write buf (unat idx) (stored @ [NUL]));
              Some (buf', idx + of_nat ret) })"

fun hdr_printf_all ::
    "('w, 'z) net_os_scheme \<Rightarrow> string list \<Rightarrow> char list \<times> size_t \<Rightarrow> (char list \<times> size_t) option" where
  "hdr_printf_all e [] bi = Some bi"
| "hdr_printf_all e (l # ls) bi = do { bi' \<leftarrow> hdr_printf e l bi; hdr_printf_all e ls bi' }"

definition http_server_send_header ::
    "('w, 'ha, 'fa) http_env \<Rightarrow> ('w, 'ha, 'fa) http_ctx \<Rightarrow> 'w http_client \<Rightarrow> 'w \<Rightarrow> http_status \<Rightarrow>
     (int \<times> ('w, 'ha, 'fa) http_ctx \<times> 'w http_client \<times> 'w) option" where
  "http_server_send_header e ctx client w status =
     do { buf0 \<leftarrow> mem_write (st_buf_tx_hdr ctx) 0 [NUL];
          let client = (if status \<noteq> STATUS_OK
                        then client\<lparr>cl_content_type := None, cl_content_length := 0\<rparr> else client);
          (buf, idx) \<leftarrow> hdr_printf_all e (http_header_lines status client) (buf0, 0);
          data \<leftarrow> mem_read buf 0 (unat idx);
          let (result, w') = os_send e w (cl_socket client) data;
          Some (result, ctx\<lparr>st_buf_tx_hdr := buf\<rparr>, client\<lparr>cl_header_sent := True\<rparr>, w') }"

definition http_server_client_clear :: "'w http_client \<Rightarrow> 'w http_client" where
  "http_server_client_clear client =
     client\<lparr>cl_command_type := HTTP_COMMAND_UNKNOWN, cl_file := None, cl_handler := None,
            cl_file_offset := 0, cl_content_length := 0, cl_header_sent := False,
            cl_content_type := None, cl_rx_len := 0, cl_headers_done := False\<rparr>"

section \<open>GET\<close>

text \<open>The \<^verbatim>\<open>do ... while (uxCount > 0)\<close> loop; \<open>result\<close> is its value before the iteration.\<close>

partial_function (option) sendfile_loop ::
    "('w, 'ha, 'fa) http_env \<Rightarrow> http_file \<Rightarrow> int \<Rightarrow> 'w http_client \<Rightarrow> 'w \<Rightarrow> (int \<times> 'w http_client \<times> 'w) option"
where
  "sendfile_loop e file result client w =
     (let (space, w1) = os_tx_space e w (cl_socket client);
          uxCount = lib_min3 e (of_int space) (file_size file - cl_file_offset client)
                      (of_nat (length (cl_buf_tx client)))
      in if 0 < uxCount
         then do { d \<leftarrow> mem_read (file_data file) (unat (cl_file_offset client)) (unat uxCount);
                   buf \<leftarrow> mem_write (cl_buf_tx client) 0 d;
                   d' \<leftarrow> mem_read buf 0 (unat uxCount);
                   let client' = client\<lparr>cl_buf_tx := buf, cl_file_offset := cl_file_offset client + uxCount\<rparr>;
                   let (r, w2) = os_send e w1 (cl_socket client) d';
                   if r < 0 then Some (r, client', w2) else sendfile_loop e file r client' w2 }
         else Some (result, client, w1))"

definition http_server_cmd_get_sendfile ::
    "('w, 'ha, 'fa) http_env \<Rightarrow> ('w, 'ha, 'fa) http_ctx \<Rightarrow> 'w http_client \<Rightarrow> 'w \<Rightarrow> string option \<Rightarrow>
     (int \<times> ('w, 'ha, 'fa) http_ctx \<times> 'w http_client \<times> 'w) option" where
  "http_server_cmd_get_sendfile e ctx client w url =
     do { file \<leftarrow> cl_file client;
          (result, ctx, client, w) \<leftarrow>
            (if \<not> cl_header_sent client
             then http_server_send_header e ctx
                    (client\<lparr>cl_content_type := Some (http_server_content_type url),
                            cl_content_length := file_size file\<rparr>) w STATUS_OK
             else Some (0, ctx, client, w));
          (result, client, w) \<leftarrow>
            (if 0 \<le> result then sendfile_loop e file result client w else Some (result, client, w));
          if file_size file \<le> cl_file_offset client
          then Some (result, ctx, http_server_client_clear client,
                     os_FD_CLR e w (cl_socket client) eSELECT_WRITE)
          else Some (result, ctx, client, os_FD_SET e w (cl_socket client) eSELECT_WRITE) }"

text \<open>
  The reply computed by a handler: what \<^verbatim>\<open>get_sendresponse\<close> and \<^verbatim>\<open>post_next\<close> do from the call
  of the handler function to the second \<^verbatim>\<open>FreeRTOS_send\<close>.
\<close>

definition http_server_reply ::
    "('w, 'ha, 'fa) http_env \<Rightarrow> ('w, 'ha, 'fa) http_ctx \<Rightarrow> 'w http_client \<Rightarrow> 'w \<Rightarrow>
     'w http_handler_fn \<Rightarrow> char list option \<Rightarrow> string \<Rightarrow>
     (int \<times> ('w, 'ha, 'fa) http_ctx \<times> 'w http_client \<times> 'w) option" where
  "http_server_reply e ctx client w fn input content_type =
     do { let (ret, out, w) = fn w (Some (length (cl_buf_tx client))) input;
          let result = sint ret;
          buf \<leftarrow> mem_write (cl_buf_tx client) 0 out;
          let (space, w) = os_tx_space e w (cl_socket client);
          let client = client\<lparr>cl_buf_tx := buf, cl_content_length := lib_min e (of_int space) (of_int result),
                              cl_content_type := Some content_type\<rparr>;
          (hdr, ctx, client, w) \<leftarrow> http_server_send_header e ctx client w STATUS_OK;
          if 0 \<le> hdr \<and> 0 \<le> result
          then do { d \<leftarrow> mem_read (cl_buf_tx client) 0 (unat (cl_content_length client));
                    let (r, w) = os_send e w (cl_socket client) d;
                    Some (r, ctx, client, w) }
          else Some (result, ctx, client, w) }"

definition http_server_cmd_get_sendresponse ::
    "('w, 'ha, 'fa) http_env \<Rightarrow> ('w, 'ha, 'fa) http_ctx \<Rightarrow> 'w http_client \<Rightarrow> 'w \<Rightarrow> string \<Rightarrow>
     (int \<times> ('w, 'ha, 'fa) http_ctx \<times> 'w http_client \<times> 'w) option" where
  "http_server_cmd_get_sendresponse e ctx client w url =
     do { handler \<leftarrow> cl_handler client;
          (result, ctx, client, w) \<leftarrow>
            (case (handler_command handler, handler_function handler) of
               (HTTP_COMMAND_GET, Some fn) \<Rightarrow>
                 http_server_reply e ctx client w fn (Some (cl_buf_rx client))
                   (http_server_content_type (Some url))
             | _ \<Rightarrow> http_server_send_header e ctx client w STATUS_INTERNALSERVERR);
          Some (result, ctx, http_server_client_clear client,
                os_FD_CLR e w (cl_socket client) eSELECT_WRITE) }"

text \<open>The search loops over the two registries.\<close>

definition find_handler ::
    "('w, 'ha, 'fa) http_env \<Rightarrow> 'ha \<Rightarrow> http_command \<Rightarrow> string \<Rightarrow> 'w http_handler option" where
  "find_handler e ha cmd url =
     (if handlers_valid e ha
      then find (\<lambda>h. handler_command h = cmd \<and> handler_path h = url)
             (map (handlers_get e ha) [0..<handlers_size e ha])
      else None)"

definition find_file :: "('w, 'ha, 'fa) http_env \<Rightarrow> 'fa \<Rightarrow> string \<Rightarrow> http_file option" where
  "find_file e fa url =
     (if files_valid e fa
      then find (\<lambda>f. file_path f = url) (map (files_get e fa) [0..<files_size e fa])
      else None)"

definition http_server_cmd_get_start ::
    "('w, 'ha, 'fa) http_env \<Rightarrow> ('w, 'ha, 'fa) http_ctx \<Rightarrow> 'w http_client \<Rightarrow> 'w \<Rightarrow> string \<Rightarrow>
     (int \<times> ('w, 'ha, 'fa) http_ctx \<times> 'w http_client \<times> 'w) option" where
  "http_server_cmd_get_start e ctx client w url =
     (let client = client\<lparr>cl_command_type := HTTP_COMMAND_GET\<rparr>;
          client = (case find_handler e (cfg_handlers ctx) HTTP_COMMAND_GET url of
                      Some h \<Rightarrow> client\<lparr>cl_handler := Some h\<rparr> | None \<Rightarrow> client)
      in if cl_handler client \<noteq> None
         then http_server_cmd_get_sendresponse e ctx client w url
         else let client = (case find_file e (cfg_files ctx) url of
                              Some f \<Rightarrow> client\<lparr>cl_file := Some f\<rparr> | None \<Rightarrow> client)
              in if cl_file client \<noteq> None
                 then http_server_cmd_get_sendfile e ctx client w (Some url)
                 else do { (result, ctx, client, w) \<leftarrow> http_server_send_header e ctx client w STATUS_NOTFOUND;
                           Some (result, ctx, http_server_client_clear client, w) })"

definition http_server_cmd_get_next ::
    "('w, 'ha, 'fa) http_env \<Rightarrow> ('w, 'ha, 'fa) http_ctx \<Rightarrow> 'w http_client \<Rightarrow> 'w \<Rightarrow>
     (int \<times> ('w, 'ha, 'fa) http_ctx \<times> 'w http_client \<times> 'w) option" where
  "http_server_cmd_get_next e ctx client w =
     (if cl_file client \<noteq> None then http_server_cmd_get_sendfile e ctx client w None
      else Some (0, ctx, client, w))"

section \<open>POST\<close>

definition http_server_cmd_post_next ::
    "('w, 'ha, 'fa) http_env \<Rightarrow> ('w, 'ha, 'fa) http_ctx \<Rightarrow> 'w http_client \<Rightarrow> 'w \<Rightarrow>
     (int \<times> ('w, 'ha, 'fa) http_ctx \<times> 'w http_client \<times> 'w) option" where
  "http_server_cmd_post_next e ctx client w =
     (case cl_handler client of
        None \<Rightarrow> Some (0, ctx, client, w)
      | Some handler \<Rightarrow>
         (let remaining = cl_content_length client - cl_file_offset client
          in if 0 < remaining
             then let to_recv = lib_min e remaining (of_nat (length (cl_buf_rx client)));
                      (result, data, w) = os_recv e w (cl_socket client) (unat to_recv)
                  in if 0 < result
                     then do { buf \<leftarrow> mem_write (cl_buf_rx client) 0 data;
                               let deliver = lib_min e (of_int result) remaining;
                               d \<leftarrow> mem_read buf 0 (unat deliver);
                               fn \<leftarrow> handler_function handler;
                               let (ret, out, w) = fn w None (Some d);
                               Some (result, ctx,
                                     client\<lparr>cl_buf_rx := buf, cl_file_offset := cl_file_offset client + deliver\<rparr>, w) }
                     else Some (result, ctx, client, w)
             else do { fn \<leftarrow> handler_function handler;
                       (result, ctx, client, w) \<leftarrow> http_server_reply e ctx client w fn None ''text/plain'';
                       Some (result, ctx, http_server_client_clear client,
                             os_FD_CLR e w (cl_socket client) (or eSELECT_READ eSELECT_WRITE)) }))"

text \<open>The body bytes that arrived with the headers are handed to the handler at once.\<close>

definition http_server_post_initial ::
    "('w, 'ha, 'fa) http_env \<Rightarrow> 'w http_handler \<Rightarrow> 'w http_client \<Rightarrow> 'w \<Rightarrow> char list \<Rightarrow> ('w http_client \<times> 'w) option" where
  "http_server_post_initial e handler client w data =
     (if data \<noteq> [] \<and> cl_file_offset client \<le> cl_content_length client
      then let remaining = cl_content_length client - cl_file_offset client;
               chunk = lib_min e remaining (of_nat (length data))
           in if 0 < chunk
              then do { d \<leftarrow> mem_read data 0 (unat chunk);
                        fn \<leftarrow> handler_function handler;
                        let (ret, out, w) = fn w None (Some d);
                        Some (client\<lparr>cl_file_offset := cl_file_offset client + chunk\<rparr>, w) }
              else Some (client, w)
      else Some (client, w))"

definition http_server_cmd_post_start ::
    "('w, 'ha, 'fa) http_env \<Rightarrow> ('w, 'ha, 'fa) http_ctx \<Rightarrow> 'w http_client \<Rightarrow> 'w \<Rightarrow> string \<Rightarrow> char list \<Rightarrow>
     (int \<times> ('w, 'ha, 'fa) http_ctx \<times> 'w http_client \<times> 'w) option" where
  "http_server_cmd_post_start e ctx client w url data =
     (let client = client\<lparr>cl_command_type := HTTP_COMMAND_POST\<rparr>;
          client = (case find_handler e (cfg_handlers ctx) HTTP_COMMAND_POST url of
                      Some h \<Rightarrow> client\<lparr>cl_handler := Some h\<rparr> | None \<Rightarrow> client)
      in case cl_handler client of
           Some handler \<Rightarrow>
             do { (client, w) \<leftarrow> http_server_post_initial e handler client w data;
                  if cl_content_length client \<le> cl_file_offset client
                  then http_server_cmd_post_next e ctx client w
                  else Some (0, ctx, client, os_FD_SET e w (cl_socket client) eSELECT_READ) }
         | None \<Rightarrow>
             do { (result, ctx, client, w) \<leftarrow> http_server_send_header e ctx client w STATUS_NOTFOUND;
                  Some (result, ctx, http_server_client_clear client, w) })"

section \<open>Dispatch\<close>

record ('w, 'ha, 'fa) http_cmd_map =
  map_cmd_type :: http_command
  map_start_handler :: "('w, 'ha, 'fa) http_env \<Rightarrow> ('w, 'ha, 'fa) http_ctx \<Rightarrow> 'w http_client \<Rightarrow> 'w \<Rightarrow> string \<Rightarrow>
     char list \<Rightarrow> (int \<times> ('w, 'ha, 'fa) http_ctx \<times> 'w http_client \<times> 'w) option"
  map_next_handler :: "('w, 'ha, 'fa) http_env \<Rightarrow> ('w, 'ha, 'fa) http_ctx \<Rightarrow> 'w http_client \<Rightarrow> 'w \<Rightarrow>
     (int \<times> ('w, 'ha, 'fa) http_ctx \<times> 'w http_client \<times> 'w) option"

definition g_http_cmd_map :: "('w, 'ha, 'fa) http_cmd_map list" where
  "g_http_cmd_map =
     [\<lparr>map_cmd_type = HTTP_COMMAND_GET,
       map_start_handler = (\<lambda>e ctx client w url data. http_server_cmd_get_start e ctx client w url),
       map_next_handler = http_server_cmd_get_next\<rparr>,
      \<lparr>map_cmd_type = HTTP_COMMAND_POST, map_start_handler = http_server_cmd_post_start,
       map_next_handler = http_server_cmd_post_next\<rparr>]"

definition http_server_cmd_process_start ::
    "('w, 'ha, 'fa) http_env \<Rightarrow> ('w, 'ha, 'fa) http_ctx \<Rightarrow> 'w http_client \<Rightarrow> 'w \<Rightarrow> http_command_entry \<Rightarrow>
     string \<Rightarrow> char list \<Rightarrow> (int \<times> ('w, 'ha, 'fa) http_ctx \<times> 'w http_client \<times> 'w) option" where
  "http_server_cmd_process_start e ctx client w cmd url data =
     (case find (\<lambda>m. map_cmd_type m = cmd_type cmd) g_http_cmd_map of
        Some m \<Rightarrow> map_start_handler m e ctx client w url data
      | None \<Rightarrow> Some (0, ctx, client, w))"

definition http_server_cmd_process_next ::
    "('w, 'ha, 'fa) http_env \<Rightarrow> ('w, 'ha, 'fa) http_ctx \<Rightarrow> 'w http_client \<Rightarrow> 'w \<Rightarrow>
     (int \<times> ('w, 'ha, 'fa) http_ctx \<times> 'w http_client \<times> 'w) option" where
  "http_server_cmd_process_next e ctx client w =
     (case find (\<lambda>m. map_cmd_type m = cl_command_type client) g_http_cmd_map of
        Some m \<Rightarrow> map_next_handler m e ctx client w
      | None \<Rightarrow> Some (0, ctx, client, w))"

text \<open>
  The refusal that \<^verbatim>\<open>client_work\<close> sends in four places: a 400 header, a cleared client and no
  further select events; the result is the caller's.
\<close>

definition http_server_refuse ::
    "('w, 'ha, 'fa) http_env \<Rightarrow> ('w, 'ha, 'fa) http_ctx \<Rightarrow> 'w http_client \<Rightarrow> 'w \<Rightarrow> int \<Rightarrow>
     (int \<times> ('w, 'ha, 'fa) http_ctx \<times> 'w http_client \<times> 'w) option" where
  "http_server_refuse e ctx client w result =
     do { (_, ctx, client, w) \<leftarrow> http_server_send_header e ctx client w STATUS_BADREQUEST;
          Some (result, ctx, http_server_client_clear client,
                os_FD_CLR e w (cl_socket client) (or eSELECT_READ eSELECT_WRITE)) }"

text \<open>What happens after a reception of \<open>recv_cnt > 0\<close> bytes.\<close>

definition http_server_client_request ::
    "('w, 'ha, 'fa) http_env \<Rightarrow> ('w, 'ha, 'fa) http_ctx \<Rightarrow> 'w http_client \<Rightarrow> 'w \<Rightarrow> int \<Rightarrow>
     (int \<times> ('w, 'ha, 'fa) http_ctx \<times> 'w http_client \<times> 'w) option" where
  "http_server_client_request e ctx client w recv_cnt =
     do { r \<leftarrow> http_parse (cl_buf_rx client) (unat (cl_rx_len client));
          case r of
            P_Incomplete \<Rightarrow>
              (if unat (cl_rx_len client) = length (cl_buf_rx client)
               then http_server_refuse e ctx client w recv_cnt
               else Some (recv_cnt, ctx, client, w))
          | P_Bad buf \<Rightarrow>
              http_server_refuse e ctx (client\<lparr>cl_headers_done := True, cl_buf_rx := buf\<rparr>) w (- 1)
          | P_Request cmd_idx url buf hdr_end content_length cl_found \<Rightarrow>
              (let client = client\<lparr>cl_headers_done := True, cl_buf_rx := buf\<rparr>;
                   cmd = g_UNI_NET_http_cmd ! cmd_idx;
                   body = take (unat (cl_rx_len client) - hdr_end) (drop hdr_end buf)
               in if cmd_type cmd = HTTP_COMMAND_POST \<and> \<not> cl_found
                  then http_server_refuse e ctx client w (- 1)
                  else let client = (if cmd_type cmd = HTTP_COMMAND_POST
                                     then client\<lparr>cl_content_length := content_length\<rparr> else client)
                       in do { (result, ctx, client, w) \<leftarrow>
                                 http_server_cmd_process_start e ctx client w cmd (c_string buf url) body;
                               Some (result, ctx, client\<lparr>cl_rx_len := 0\<rparr>, w) }) }"

definition http_server_client_work ::
    "('w, 'ha, 'fa) http_env \<Rightarrow> ('w, 'ha, 'fa) http_ctx \<Rightarrow> 'w http_client \<Rightarrow> 'w \<Rightarrow>
     (int \<times> ('w, 'ha, 'fa) http_ctx \<times> 'w http_client \<times> 'w) option" where
  "http_server_client_work e ctx client w =
     (let (connected, w) = os_issocketconnected e w (cl_socket client)
      in if connected = 0 then Some (- 1, ctx, client, w)
         else if cl_command_type client = HTTP_COMMAND_UNKNOWN
         then let (recv_cnt, data, w) = os_recv e w (cl_socket client)
                    (length (cl_buf_rx client) - unat (cl_rx_len client))
              in if 0 < recv_cnt
                 then do { buf \<leftarrow> mem_write (cl_buf_rx client) (unat (cl_rx_len client)) data;
                           let rx_len = cl_rx_len client + of_int recv_cnt;
                           let rx_len = (if of_nat (length buf) < rx_len then of_nat (length buf) else rx_len);
                           http_server_client_request e ctx
                             (client\<lparr>cl_buf_rx := buf, cl_rx_len := rx_len\<rparr>) w recv_cnt }
                 else Some (0, ctx, client, w)
         else http_server_cmd_process_next e ctx client w)"

definition http_server_client_delete ::
    "('w, 'ha, 'fa) http_env \<Rightarrow> 'w http_client \<Rightarrow> 'w \<Rightarrow> 'w" where
  "http_server_client_delete e client w =
     (if cl_socket client \<noteq> NULL_SOCKET
      then os_closesocket e (os_FD_CLR e w (cl_socket client) eSELECT_ALL) (cl_socket client)
      else w)"

section \<open>The server\<close>

text \<open>\<^verbatim>\<open>pvPortCalloc(sizeof(*client), 1)\<close>: every field zero.\<close>

definition http_client_zero :: "('w, 'z) net_os_scheme \<Rightarrow> 'w http_client" where
  "http_client_zero e =
     \<lparr>cl_socket = NULL_SOCKET, cl_command_type = HTTP_COMMAND_UNKNOWN, cl_file = None, cl_handler = None,
      cl_file_offset = 0, cl_content_length = 0, cl_header_sent = False, cl_content_type = None,
      cl_rx_len = 0, cl_headers_done = False,
      cl_buf_rx = replicate (2 * cfg_MSS e) NUL, cl_buf_tx = replicate (6 * cfg_MSS e) NUL\<rparr>"

text \<open>The loop that stores the client in the first free slot; a full table drops it.\<close>

fun place_client :: "'w http_client \<Rightarrow> 'w http_client option list \<Rightarrow> 'w http_client option list" where
  "place_client c [] = []"
| "place_client c (None # cs) = Some c # cs"
| "place_client c (Some x # cs) = Some x # place_client c cs"

definition http_server_client_new ::
    "('w, 'ha, 'fa) http_env \<Rightarrow> ('w, 'ha, 'fa) http_ctx \<Rightarrow> socket_t \<Rightarrow> 'w \<Rightarrow> (('w, 'ha, 'fa) http_ctx \<times> 'w) option" where
  "http_server_client_new e ctx socket w =
     (if socket \<noteq> NULL_SOCKET
      then let (ok, w) = os_calloc e w
           in if \<not> ok then None
              else let client = (http_client_zero e)\<lparr>cl_socket := socket\<rparr>;
                       w = os_FD_SET e w socket (or eSELECT_READ eSELECT_EXCEPT)
                   in do { cs \<leftarrow> st_clients ctx;
                           Some (ctx\<lparr>st_clients := Some (place_client client cs)\<rparr>, w) }
      else Some (ctx, w))"

text \<open>The loop over the client table.\<close>

fun http_server_work_clients ::
    "('w, 'ha, 'fa) http_env \<Rightarrow> ('w, 'ha, 'fa) http_ctx \<Rightarrow> 'w http_client option list \<Rightarrow> 'w \<Rightarrow>
     (('w, 'ha, 'fa) http_ctx \<times> 'w http_client option list \<times> 'w) option" where
  "http_server_work_clients e ctx [] w = Some (ctx, [], w)"
| "http_server_work_clients e ctx (None # cs) w =
     do { (ctx, cs', w) \<leftarrow> http_server_work_clients e ctx cs w; Some (ctx, None # cs', w) }"
| "http_server_work_clients e ctx (Some c # cs) w =
     do { (result, ctx, c', w) \<leftarrow> http_server_client_work e ctx c w;
          let (slot, w) = (if result < 0 then (None, http_server_client_delete e c' w) else (Some c', w));
          (ctx, cs', w) \<leftarrow> http_server_work_clients e ctx cs w;
          Some (ctx, slot # cs', w) }"

definition http_server_work ::
    "('w, 'ha, 'fa) http_env \<Rightarrow> ('w, 'ha, 'fa) http_ctx \<Rightarrow> 'w \<Rightarrow> (bool \<times> ('w, 'ha, 'fa) http_ctx \<times> 'w) option" where
  "http_server_work e ctx w =
     do { let (flags, w) = os_select e w;
          (ctx, w) \<leftarrow> (if flags \<noteq> 0
                       then let (s, w) = os_accept e w (st_socket ctx)
                            in if socket_valid s then http_server_client_new e ctx s w else Some (ctx, w)
                       else Some (ctx, w));
          cs \<leftarrow> st_clients ctx;
          (ctx, cs', w) \<leftarrow> http_server_work_clients e ctx cs w;
          Some (True, ctx\<lparr>st_clients := Some cs'\<rparr>, w) }"

partial_function (option) wait_network :: "('w, 'ha, 'fa) http_env \<Rightarrow> 'w \<Rightarrow> 'w option" where
  "wait_network e w = (let (up, w) = os_IsNetworkUp e w in if up then Some w else wait_network e w)"

definition http_server_init_state :: "('w, 'ha, 'fa) http_env \<Rightarrow> ('w, 'ha, 'fa) http_ctx \<Rightarrow> ('w, 'ha, 'fa) http_ctx" where
  "http_server_init_state e ctx =
     ctx\<lparr>st_initialized := False, st_handle := False, st_socket := NULL_SOCKET, st_clients := None,
         st_buf_tx_hdr := replicate (cfg_MSS e) NUL\<rparr>"

definition http_server_init_thread ::
    "('w, 'ha, 'fa) http_env \<Rightarrow> ('w, 'ha, 'fa) http_ctx option \<Rightarrow> 'w \<Rightarrow>
     (bool \<times> ('w, 'ha, 'fa) http_ctx option \<times> 'w) option" where
  "http_server_init_thread e octx w =
     (case octx of
        None \<Rightarrow> Some (False, None, w)
      | Some ctx \<Rightarrow>
          do { let ctx = http_server_init_state e ctx;
               w \<leftarrow> wait_network e w;
               let (ok, w) = os_calloc e w;
               let ctx = ctx\<lparr>st_clients := (if ok then Some (replicate (cfg_max_clients ctx) None) else None)\<rparr>;
               let w = os_CreateSocketSet e w;
               let (s, w) = os_socket e w;
               let w = os_setup e w s (SU_bind HTTP_SERVER_PORT);
               let w = os_setup e w s (SU_listen (cfg_max_clients ctx));
               let w = os_setup e w s (SU_RCVTIMEO 0);
               let w = os_setup e w s (SU_SNDTIMEO 0);
               let w = os_setup e w s (SU_WIN_PROPERTIES (6 * cfg_MSS e) HTTP_SERVER_TX_WIN (2 * cfg_MSS e) HTTP_SERVER_RX_WIN);
               let w = os_FD_SET e w s (or eSELECT_READ eSELECT_EXCEPT);
               Some (True, Some (ctx\<lparr>st_socket := s\<rparr>), w) })"

text \<open>The thread: initialisation, then \<open>n\<close> rounds of its endless loop.\<close>

fun http_server_rounds ::
    "nat \<Rightarrow> ('w, 'ha, 'fa) http_env \<Rightarrow> ('w, 'ha, 'fa) http_ctx \<Rightarrow> 'w \<Rightarrow> (('w, 'ha, 'fa) http_ctx \<times> 'w) option" where
  "http_server_rounds 0 e ctx w = Some (ctx, w)"
| "http_server_rounds (Suc n) e ctx w =
     do { (_, ctx, w) \<leftarrow> http_server_work e ctx w; http_server_rounds n e ctx w }"

definition uni_net_http_thread ::
    "nat \<Rightarrow> ('w, 'ha, 'fa) http_env \<Rightarrow> ('w, 'ha, 'fa) http_ctx \<Rightarrow> 'w \<Rightarrow> (('w, 'ha, 'fa) http_ctx \<times> 'w) option" where
  "uni_net_http_thread n e ctx w =
     do { (_, octx, w) \<leftarrow> http_server_init_thread e (Some ctx) w;
          ctx \<leftarrow> octx;
          http_server_rounds n e ctx w }"

section \<open>Public functions\<close>

definition uni_net_http_server_is_inited :: "('w, 'ha, 'fa) http_ctx option \<Rightarrow> bool" where
  "uni_net_http_server_is_inited octx = (case octx of None \<Rightarrow> False | Some ctx \<Rightarrow> st_initialized ctx)"

definition uni_net_http_server_init ::
    "('w, 'ha, 'fa) http_env \<Rightarrow> ('w, 'ha, 'fa) http_ctx option \<Rightarrow> 'w \<Rightarrow> bool \<times> ('w, 'ha, 'fa) http_ctx option \<times> 'w" where
  "uni_net_http_server_init e octx w =
     (case octx of
        None \<Rightarrow> (False, None, w)
      | Some ctx \<Rightarrow>
          (if uni_net_http_server_is_inited octx then (False, octx, w)
           else let (ok, w) = os_xTaskCreate e w
                in (ok, Some (ctx\<lparr>st_handle := ok, st_initialized := ok\<rparr>), w)))"

definition uni_net_http_server_signal ::
    "('w, 'ha, 'fa) http_env \<Rightarrow> ('w, 'ha, 'fa) http_ctx option \<Rightarrow> 'w \<Rightarrow> bool \<times> 'w" where
  "uni_net_http_server_signal e octx w =
     (case octx of None \<Rightarrow> (False, w) | Some ctx \<Rightarrow> (True, os_SignalSocket e w (st_socket ctx)))"

definition uni_net_http_server_register_file ::
    "('w, 'ha, 'fa) http_env \<Rightarrow> ('w, 'ha, 'fa) http_ctx option \<Rightarrow> http_file option \<Rightarrow>
     bool \<times> ('w, 'ha, 'fa) http_ctx option" where
  "uni_net_http_server_register_file e octx ofile =
     (case (octx, ofile) of
        (Some ctx, Some file) \<Rightarrow>
          (let (ok, fa) = files_push e (cfg_files ctx) file in (ok, Some (ctx\<lparr>cfg_files := fa\<rparr>)))
      | _ \<Rightarrow> (False, octx))"

definition uni_net_http_server_register_handler ::
    "('w, 'ha, 'fa) http_env \<Rightarrow> ('w, 'ha, 'fa) http_ctx option \<Rightarrow> 'w http_handler option \<Rightarrow>
     bool \<times> ('w, 'ha, 'fa) http_ctx option" where
  "uni_net_http_server_register_handler e octx ohandler =
     (case (octx, ohandler) of
        (Some ctx, Some handler) \<Rightarrow>
          (let (ok, ha) = handlers_push e (cfg_handlers ctx) handler in (ok, Some (ctx\<lparr>cfg_handlers := ha\<rparr>)))
      | _ \<Rightarrow> (False, octx))"

definition uni_net_http_server_register_handler_ex ::
    "('w, 'ha, 'fa) http_env \<Rightarrow> ('w, 'ha, 'fa) http_ctx option \<Rightarrow> http_command \<Rightarrow> string option \<Rightarrow>
     'w http_handler_fn option \<Rightarrow> bool \<times> ('w, 'ha, 'fa) http_ctx option" where
  "uni_net_http_server_register_handler_ex e octx command opath ofn =
     (case (octx, opath, ofn) of
        (Some ctx, Some path, Some fn) \<Rightarrow>
          uni_net_http_server_register_handler e octx
            (Some \<lparr>handler_path = path, handler_command = command, handler_function = Some fn\<rparr>)
      | _ \<Rightarrow> (False, octx))"

definition uni_net_http_server_register_file_ex ::
    "('w, 'ha, 'fa) http_env \<Rightarrow> ('w, 'ha, 'fa) http_ctx option \<Rightarrow> string option \<Rightarrow> char list option \<Rightarrow> u32 \<Rightarrow>
     bool \<times> ('w, 'ha, 'fa) http_ctx option" where
  "uni_net_http_server_register_file_ex e octx opath odata sz =
     (case (octx, opath, odata) of
        (Some ctx, Some path, Some data) \<Rightarrow>
          uni_net_http_server_register_file e octx
            (Some \<lparr>file_path = path, file_data = data, file_size = sz\<rparr>)
      | _ \<Rightarrow> (False, octx))"

definition uni_net_http_server_signal_from_isr ::
    "('w, 'ha, 'fa) http_env \<Rightarrow> ('w, 'ha, 'fa) http_ctx option \<Rightarrow> 'w \<Rightarrow> bool \<times> 'w" where
  "uni_net_http_server_signal_from_isr e octx w =
     (case octx of None \<Rightarrow> (False, w) | Some ctx \<Rightarrow> (True, os_SignalSocketFromISR e w (st_socket ctx)))"

end
