(* ===== verification/Http_Safety.thy ===== *)
theory Http_Safety
  imports Http_Server
begin

text \<open>
  The invariant of the HTTP server: every buffer keeps its size, every client is in one of the
  three states of the protocol, and no operation leaves an array, dereferences \<^verbatim>\<open>NULL\<close> or loops
  for ever.  The environment is constrained only by the documented behaviour of the socket
  calls, the helpers and the registered handlers.
\<close>

section \<open>What the environment guarantees\<close>

text \<open>The longest header has 224 characters; the buffers stay far below 4 GiB.\<close>

definition http_env_ok :: "('w, 'ha, 'fa) http_env \<Rightarrow> bool" where
  "http_env_ok e \<longleftrightarrow> uni_lib_ok e \<and> recv_bounded e \<and> 256 \<le> cfg_MSS e \<and> cfg_MSS e \<le> 65535"

text \<open>A handler stores at most \<^verbatim>\<open>buf_out_size\<close> bytes and returns at most that number.\<close>

definition handler_fn_ok :: "'w http_handler_fn \<Rightarrow> bool" where
  "handler_fn_ok fn \<longleftrightarrow> (\<forall>w n input. let (ret, out, w') = fn w (Some n) input in length out \<le> n \<and> unat ret \<le> n)"

definition handler_ok :: "'w http_handler \<Rightarrow> bool" where
  "handler_ok h \<longleftrightarrow> (case handler_function h of None \<Rightarrow> False | Some fn \<Rightarrow> handler_fn_ok fn)"

definition file_ok :: "http_file \<Rightarrow> bool" where
  "file_ok f \<longleftrightarrow> unat (file_size f) \<le> length (file_data f)"

definition registry_ok :: "('w, 'ha, 'fa) http_env \<Rightarrow> ('w, 'ha, 'fa) http_ctx \<Rightarrow> bool" where
  "registry_ok e ctx \<longleftrightarrow>
     (handlers_valid e (cfg_handlers ctx) \<longrightarrow>
        (\<forall>i < handlers_size e (cfg_handlers ctx). handler_ok (handlers_get e (cfg_handlers ctx) i)))
   \<and> (files_valid e (cfg_files ctx) \<longrightarrow>
        (\<forall>i < files_size e (cfg_files ctx). file_ok (files_get e (cfg_files ctx) i)))"

section \<open>The invariant\<close>

definition client_bufs_ok :: "('w, 'z) net_os_scheme \<Rightarrow> 'w http_client \<Rightarrow> bool" where
  "client_bufs_ok e c \<longleftrightarrow> length (cl_buf_rx c) = 2 * cfg_MSS e \<and> length (cl_buf_tx c) = 6 * cfg_MSS e
     \<and> (case cl_content_type c of None \<Rightarrow> True | Some t \<Rightarrow> t \<in> http_content_types)"

definition client_phase_ok :: "'w http_client \<Rightarrow> bool" where
  "client_phase_ok c \<longleftrightarrow>
     (case cl_command_type c of
        HTTP_COMMAND_UNKNOWN \<Rightarrow> cl_file c = None \<and> cl_handler c = None \<and> cl_file_offset c = 0 \<and> \<not> cl_header_sent c
      | HTTP_COMMAND_GET \<Rightarrow> (case cl_file c of None \<Rightarrow> False | Some f \<Rightarrow> file_ok f \<and> cl_file_offset c < file_size f)
      | HTTP_COMMAND_POST \<Rightarrow> (case cl_handler c of None \<Rightarrow> False | Some h \<Rightarrow> handler_ok h)
           \<and> cl_file_offset c \<le> cl_content_length c
      | _ \<Rightarrow> False)"

definition client_inv :: "('w, 'z) net_os_scheme \<Rightarrow> 'w http_client \<Rightarrow> bool" where
  "client_inv e c \<longleftrightarrow> client_bufs_ok e c \<and> client_phase_ok c \<and> unat (cl_rx_len c) < 2 * cfg_MSS e"

definition ctx_inv :: "('w, 'ha, 'fa) http_env \<Rightarrow> ('w, 'ha, 'fa) http_ctx \<Rightarrow> bool" where
  "ctx_inv e ctx \<longleftrightarrow> registry_ok e ctx \<and> length (st_buf_tx_hdr ctx) = cfg_MSS e"

section \<open>The reply header\<close>

definition http_header_text :: "http_status \<Rightarrow> 'w http_client \<Rightarrow> string" where
  "http_header_text status c = concat (http_header_lines status c)"

lemma http_status_name_length: "length (http_status_name st) \<le> 22"
  by (cases st) simp_all

lemma http_status_code_length: "length (dec_string (http_status_code st)) \<le> 3"
  by (rule dec_string_length) (simp, cases st, simp_all)

lemma http_header_text_length:
  assumes "case cl_content_type c of None \<Rightarrow> True | Some t \<Rightarrow> t \<in> http_content_types"
  shows "length (http_header_text st c) \<le> 224"
proof -
  have "length (case cl_content_type c of Some t \<Rightarrow> t | None \<Rightarrow> ''text/html'') \<le> 24"
    using assms content_type_length by (cases "cl_content_type c") auto
  then show ?thesis
    using http_status_name_length [of st] http_status_code_length [of st]
      dec_string_u32 [of "cl_content_length c"]
    by (simp add: http_header_text_def http_header_lines_def)
qed

lemma hdr_printf_ok:
  assumes "uni_lib_ok e" and "unat idx + length out + 2 \<le> length buf" and "length buf \<le> 65535"
  shows "\<exists>buf'. hdr_printf e out (buf, idx) = Some (buf', idx + of_nat (length out))
     \<and> length buf' = length buf \<and> unat (idx + of_nat (length out)) = unat idx + length out
     \<and> take (unat idx + length out) buf' = take (unat idx) buf @ out"
proof -
  have idx: "idx = of_nat (unat idx)" by simp
  have size: "unat (of_nat (length buf) - idx - 1 :: size_t) = length buf - unat idx - 1"
  proof -
    have "of_nat (length buf) - idx - 1 = (of_nat (length buf - unat idx - 1) :: size_t)"
      using assms(2) by (subst idx) (simp add: of_nat_diff)
    then show ?thesis using assms(3) by (simp add: unat_of_nat_32)
  qed
  have stored: "take (length buf - unat idx - 1 - 1) out = out" using assms(2) by simp
  have nz: "(of_nat (length buf) - idx - 1 :: size_t) \<noteq> 0"
  proof
    assume "(of_nat (length buf) - idx - 1 :: size_t) = 0"
    then have "length buf - unat idx - 1 = 0" by (simp only: flip: size) simp
    then show False using assms(2) by linarith
  qed
  have "hdr_printf e out (buf, idx) =
      Some (take (unat idx) buf @ (out @ [NUL]) @ drop (unat idx + length (out @ [NUL])) buf, idx + of_nat (length out))"
    using assms(2) size stored nz by (simp add: hdr_printf_def uni_libD [OF assms(1)] mem_write_def)
  moreover have "unat (idx + of_nat (length out)) = unat idx + length out"
    using assms(2,3) by (subst unat_plus_no_wrap) (simp_all add: unat_of_nat_32)
  ultimately show ?thesis using assms(2) by simp
qed

lemma hdr_printf_all_ok:
  assumes "uni_lib_ok e" and "unat idx + length (concat outs) + 2 \<le> length buf" and "length buf \<le> 65535"
  shows "\<exists>buf' idx'. hdr_printf_all e outs (buf, idx) = Some (buf', idx')
     \<and> length buf' = length buf \<and> unat idx' = unat idx + length (concat outs)
     \<and> take (unat idx') buf' = take (unat idx) buf @ concat outs"
  using assms(2,3)
proof (induction outs arbitrary: buf idx)
  case (Cons out outs)
  have "unat idx + length out + 2 \<le> length buf" using Cons.prems(1) by simp
  from hdr_printf_ok [OF assms(1) this Cons.prems(2)] obtain buf1 where
    1: "hdr_printf e out (buf, idx) = Some (buf1, idx + of_nat (length out))" "length buf1 = length buf"
      "unat (idx + of_nat (length out)) = unat idx + length out"
      "take (unat idx + length out) buf1 = take (unat idx) buf @ out" by blast
  obtain buf2 idx2 where
    2: "hdr_printf_all e outs (buf1, idx + of_nat (length out)) = Some (buf2, idx2)" "length buf2 = length buf"
      "unat idx2 = unat idx + length out + length (concat outs)"
      "take (unat idx2) buf2 = take (unat idx + length out) buf1 @ concat outs"
    using Cons.IH [of "idx + of_nat (length out)" buf1] Cons.prems 1(2,3) by auto
  from 1 2 show ?case by simp
qed simp

text \<open>
  The whole header is handed to \<^verbatim>\<open>FreeRTOS_send\<close> in one call, for every status and every
  client with a content type of the table.
\<close>

definition header_client :: "http_status \<Rightarrow> 'w http_client \<Rightarrow> 'w http_client" where
  "header_client status c =
     (if status \<noteq> STATUS_OK then c\<lparr>cl_content_type := None, cl_content_length := 0\<rparr> else c)"

lemma header_client_simps [simp]:
  "cl_socket (header_client st c) = cl_socket c" "cl_buf_rx (header_client st c) = cl_buf_rx c"
  "cl_buf_tx (header_client st c) = cl_buf_tx c" "cl_file (header_client st c) = cl_file c"
  "cl_file_offset (header_client st c) = cl_file_offset c" "cl_handler (header_client st c) = cl_handler c"
  "cl_command_type (header_client st c) = cl_command_type c" "cl_rx_len (header_client st c) = cl_rx_len c"
  "header_client STATUS_OK c = c"
  by (simp_all add: header_client_def)

lemma send_header_ok:
  assumes "http_env_ok e" and "ctx_inv e ctx" and "client_bufs_ok e c"
  shows "\<exists>b. http_server_send_header e ctx c w status =
      (let (r, w') = os_send e w (cl_socket c) (http_header_text status (header_client status c))
       in Some (r, ctx\<lparr>st_buf_tx_hdr := b\<rparr>, (header_client status c)\<lparr>cl_header_sent := True\<rparr>, w'))
     \<and> length b = cfg_MSS e"
proof -
  define c' where "c' = header_client status c"
  have ct: "case cl_content_type c' of None \<Rightarrow> True | Some t \<Rightarrow> t \<in> http_content_types"
    using assms(3) by (simp add: c'_def header_client_def client_bufs_ok_def split: option.splits)
  have len: "length (st_buf_tx_hdr ctx) = cfg_MSS e" "256 \<le> cfg_MSS e" "cfg_MSS e \<le> 65535" "uni_lib_ok e"
    using assms by (simp_all add: ctx_inv_def http_env_ok_def)
  define b0 where "b0 = NUL # drop 1 (st_buf_tx_hdr ctx)"
  have b0: "mem_write (st_buf_tx_hdr ctx) 0 [NUL] = Some b0" "length b0 = cfg_MSS e"
    using len by (simp_all add: b0_def mem_write_def)
  obtain b idx where b: "hdr_printf_all e (http_header_lines status c') (b0, 0) = Some (b, idx)"
    "length b = cfg_MSS e" "unat idx = length (http_header_text status c')"
    "take (unat idx) b = http_header_text status c'"
    using hdr_printf_all_ok [of e 0 "http_header_lines status c'" b0] len b0(2)
      http_header_text_length [OF ct, of status] by (auto simp: http_header_text_def)
  have "mem_read b 0 (unat idx) = Some (http_header_text status c')"
    using b len http_header_text_length [OF ct, of status] by (simp add: mem_read_def)
  then have "http_server_send_header e ctx c w status =
      (let (r, w') = os_send e w (cl_socket c) (http_header_text status c')
       in Some (r, ctx\<lparr>st_buf_tx_hdr := b\<rparr>, c'\<lparr>cl_header_sent := True\<rparr>, w'))"
    using b(1) b0(1)
    by (simp add: http_server_send_header_def Let_def split: prod.splits flip: header_client_def c'_def)
       (simp add: c'_def)
  with b(2) show ?thesis by (auto simp: c'_def)
qed

lemma send_headerE:
  assumes "http_env_ok e" and "ctx_inv e ctx" and "client_bufs_ok e c"
  obtains r b w' where "http_server_send_header e ctx c w status =
      Some (r, ctx\<lparr>st_buf_tx_hdr := b\<rparr>, (header_client status c)\<lparr>cl_header_sent := True\<rparr>, w')"
    and "length b = cfg_MSS e"
    and "os_send e w (cl_socket c) (http_header_text status (header_client status c)) = (r, w')"
  using send_header_ok [OF assms, of w status]
  by (cases "os_send e w (cl_socket c) (http_header_text status (header_client status c))") auto

section \<open>The file loop\<close>

text \<open>
  The number of bytes of the next chunk, and one turn of the loop: the chunk is the part of the
  file behind the offset.
\<close>

definition sendfile_chunk :: "http_file \<Rightarrow> 'w http_client \<Rightarrow> int \<Rightarrow> u32" where
  "sendfile_chunk f c sp = c_min3 (of_int sp) (file_size f - cl_file_offset c) (of_nat (length (cl_buf_tx c)))"

lemma sendfile_loop_end:
  assumes "uni_lib_ok e" and "os_tx_space e w (cl_socket c) = (sp, w1)" and "sendfile_chunk f c sp = 0"
  shows "sendfile_loop e f res c w = Some (res, c, w1)"
  using assms(3) by (subst sendfile_loop.simps)
    (simp add: assms(2) uni_libD [OF assms(1)] Let_def flip: sendfile_chunk_def)

lemma sendfile_loop_turn:
  assumes lib: "uni_lib_ok e" and fok: "file_ok f" and len: "length (cl_buf_tx c) < 2 ^ 32"
    and off_le: "cl_file_offset c \<le> file_size f"
    and sp: "os_tx_space e w (cl_socket c) = (sp, w1)" and n: "n = sendfile_chunk f c sp" "n \<noteq> 0"
  obtains b c' r w2 where
    "c' = c\<lparr>cl_buf_tx := b, cl_file_offset := cl_file_offset c + n\<rparr>" and "length b = length (cl_buf_tx c)"
    and "os_send e w1 (cl_socket c) (take (unat n) (drop (unat (cl_file_offset c)) (file_data f))) = (r, w2)"
    and "sendfile_loop e f res c w = (if r < 0 then Some (r, c', w2) else sendfile_loop e f r c' w2)"
    and "unat (cl_file_offset c') = unat (cl_file_offset c) + unat n" and "cl_file_offset c' \<le> file_size f"
    and "unat (file_size f - cl_file_offset c') < unat (file_size f - cl_file_offset c)"
proof -
  have un: "unat n \<le> unat (file_size f) - unat (cl_file_offset c)" "unat n \<le> length (cl_buf_tx c)"
    using len unat_sub_le [OF off_le] unat_of_nat_32 [of "length (cl_buf_tx c)"]
    by (simp_all add: n(1) sendfile_chunk_def unat_c_min3)
  have pos: "0 < unat n" using n(2) by (simp add: unat_gt_0)
  have fs: "unat (cl_file_offset c) \<le> unat (file_size f)" using off_le by (simp add: word_le_nat_alt)
  have off: "unat (cl_file_offset c + n) = unat (cl_file_offset c) + unat n"
    using un(1) fs unat_bound [of "file_size f"] by (intro unat_plus_no_wrap) linarith
  define d where "d = take (unat n) (drop (unat (cl_file_offset c)) (file_data f))"
  have d: "mem_read (file_data f) (unat (cl_file_offset c)) (unat n) = Some d" "length d = unat n"
    using un(1) fs fok by (simp_all add: mem_read_def file_ok_def d_def)
  define b where "b = d @ drop (unat n) (cl_buf_tx c)"
  have b: "mem_write (cl_buf_tx c) 0 d = Some b" "length b = length (cl_buf_tx c)" "mem_read b 0 (unat n) = Some d"
    using un(2) d(2) by (simp_all add: mem_write_def mem_read_def b_def)
  define c' where "c' = c\<lparr>cl_buf_tx := b, cl_file_offset := cl_file_offset c + n\<rparr>"
  obtain r w2 where sd: "os_send e w1 (cl_socket c) d = (r, w2)" by (cases "os_send e w1 (cl_socket c) d")
  have "0 < n" using pos by (simp add: word_less_nat_alt)
  then have eq: "sendfile_loop e f res c w = (if r < 0 then Some (r, c', w2) else sendfile_loop e f r c' w2)"
    by (subst sendfile_loop.simps)
      (simp add: sp uni_libD [OF lib] d b sd Let_def flip: n(1) [unfolded sendfile_chunk_def] c'_def)
  have le: "cl_file_offset c' \<le> file_size f" using off un(1) fs by (simp add: c'_def word_le_nat_alt)
  have "unat (file_size f - cl_file_offset c') < unat (file_size f - cl_file_offset c)"
    using off un(1) pos unat_sub_le [OF le] unat_sub_le [OF off_le] by (simp add: c'_def)
  then show thesis using that [OF c'_def b(2)] sd eq off le by (simp add: c'_def d_def)
qed

lemma sendfile_loop_ok:
  assumes "uni_lib_ok e" and "file_ok f" and "length (cl_buf_tx c) < 2 ^ 32"
    and "cl_file_offset c \<le> file_size f"
  shows "\<exists>r b off w'. sendfile_loop e f res c w = Some (r, c\<lparr>cl_buf_tx := b, cl_file_offset := off\<rparr>, w')
     \<and> length b = length (cl_buf_tx c) \<and> off \<le> file_size f"
  using assms(3,4)
proof (induction "unat (file_size f - cl_file_offset c)" arbitrary: c w res rule: less_induct)
  case less
  obtain sp w1 where sp: "os_tx_space e w (cl_socket c) = (sp, w1)" by (cases "os_tx_space e w (cl_socket c)")
  show ?case
  proof (cases "sendfile_chunk f c sp = 0")
    case True
    then show ?thesis using less.prems sendfile_loop_end [OF assms(1) sp True, of res]
      by (intro exI [of _ res] exI [of _ "cl_buf_tx c"] exI [of _ "cl_file_offset c"] exI [of _ w1]) simp
  next
    case False
    obtain b c' r w2 where t: "c' = c\<lparr>cl_buf_tx := b, cl_file_offset := cl_file_offset c + sendfile_chunk f c sp\<rparr>"
        "length b = length (cl_buf_tx c)"
        "sendfile_loop e f res c w = (if r < 0 then Some (r, c', w2) else sendfile_loop e f r c' w2)"
        "cl_file_offset c' \<le> file_size f" "unat (file_size f - cl_file_offset c') < unat (file_size f - cl_file_offset c)"
      using sendfile_loop_turn [OF assms(1,2) less.prems sp refl False] by metis
    show ?thesis
    proof (cases "r < 0")
      case True
      with t show ?thesis by auto
    next
      case False
      from less.hyps [OF t(5), of r w2] less.prems t obtain r' b' o' w' where
        "sendfile_loop e f r c' w2 = Some (r', c'\<lparr>cl_buf_tx := b', cl_file_offset := o'\<rparr>, w')"
        "length b' = length (cl_buf_tx c)" "o' \<le> file_size f" by auto
      with t False show ?thesis by auto
    qed
  qed
qed

section \<open>Every command keeps the invariant\<close>

text \<open>
  \<open>step_ok e ctx c res\<close>: the operation returned, it changed at most the header buffer of the
  context, and the client it leaves is well-formed and on the same socket.
\<close>

definition step_ok ::
    "('w, 'ha, 'fa) http_env \<Rightarrow> ('w, 'ha, 'fa) http_ctx \<Rightarrow> 'w http_client \<Rightarrow>
     (int \<times> ('w, 'ha, 'fa) http_ctx \<times> 'w http_client \<times> 'w) option \<Rightarrow> bool" where
  "step_ok e ctx c res \<longleftrightarrow>
     (\<exists>r b c' w'. res = Some (r, ctx\<lparr>st_buf_tx_hdr := b\<rparr>, c', w') \<and> length b = cfg_MSS e
        \<and> client_bufs_ok e c' \<and> client_phase_ok c' \<and> cl_socket c' = cl_socket c \<and> cl_rx_len c' \<le> cl_rx_len c)"

lemma step_okI:
  assumes "res = Some (r, ctx\<lparr>st_buf_tx_hdr := b\<rparr>, c', w')" and "length b = cfg_MSS e"
    and "client_bufs_ok e c'" and "client_phase_ok c'" and "cl_socket c' = cl_socket c"
    and "cl_rx_len c' \<le> cl_rx_len c"
  shows "step_ok e ctx c res"
  using assms by (auto simp: step_ok_def)

lemma step_ok_same:
  assumes "res = Some (r, ctx, c', w')" and "ctx_inv e ctx"
    and "client_bufs_ok e c'" and "client_phase_ok c'" and "cl_socket c' = cl_socket c"
    and "cl_rx_len c' \<le> cl_rx_len c"
  shows "step_ok e ctx c res"
  using assms by (intro step_okI [where b = "st_buf_tx_hdr ctx" and r = r and c' = c' and w' = w']) (simp_all add: ctx_inv_def)

lemma clear_ok [simp]:
  "client_bufs_ok e c \<Longrightarrow> client_bufs_ok e (http_server_client_clear c)"
  "client_phase_ok (http_server_client_clear c)"
  "cl_socket (http_server_client_clear c) = cl_socket c"
  "cl_rx_len (http_server_client_clear c) \<le> n"
  by (simp_all add: http_server_client_clear_def client_bufs_ok_def client_phase_ok_def)

lemma client_phase_upd [simp]:
  "client_phase_ok (c\<lparr>cl_rx_len := n\<rparr>) = client_phase_ok c"
  "client_phase_ok (c\<lparr>cl_buf_rx := b\<rparr>) = client_phase_ok c"
  "client_phase_ok (c\<lparr>cl_headers_done := d\<rparr>) = client_phase_ok c"
  by (simp_all add: client_phase_ok_def split: http_command.split option.split)

lemma header_client_bufs [simp]:
  "client_bufs_ok e c \<Longrightarrow> client_bufs_ok e ((header_client st c)\<lparr>cl_header_sent := True\<rparr>)"
  by (simp add: client_bufs_ok_def header_client_def)

lemma ctx_inv_hdr [simp]:
  "ctx_inv e ctx \<Longrightarrow> length b = cfg_MSS e \<Longrightarrow> ctx_inv e (ctx\<lparr>st_buf_tx_hdr := b\<rparr>)"
  by (simp add: ctx_inv_def registry_ok_def)

lemma sendfile_ok:
  assumes env: "http_env_ok e" and ctx: "ctx_inv e ctx" and bufs: "client_bufs_ok e c"
    and fl: "cl_file c = Some f" "file_ok f" "cl_file_offset c \<le> file_size f"
    and cmd: "cl_command_type c = HTTP_COMMAND_GET"
  shows "step_ok e ctx c (http_server_cmd_get_sendfile e ctx c w url)"
proof -
  have "\<exists>r b c1 w1. (if \<not> cl_header_sent c
        then http_server_send_header e ctx (c\<lparr>cl_content_type := Some (http_server_content_type url),
               cl_content_length := file_size f\<rparr>) w STATUS_OK
        else Some (0, ctx, c, w)) = Some (r, ctx\<lparr>st_buf_tx_hdr := b\<rparr>, c1, w1)
      \<and> length b = cfg_MSS e \<and> client_bufs_ok e c1 \<and> cl_file c1 = Some f \<and> cl_socket c1 = cl_socket c
      \<and> cl_file_offset c1 = cl_file_offset c \<and> cl_command_type c1 = HTTP_COMMAND_GET \<and> cl_rx_len c1 = cl_rx_len c"
  proof (cases "cl_header_sent c")
    case True
    then show ?thesis
      using ctx bufs fl cmd
      by (intro exI [of _ 0] exI [of _ "st_buf_tx_hdr ctx"] exI [of _ c] exI [of _ w]) (simp add: ctx_inv_def)
  next
    case False
    let ?c = "c\<lparr>cl_content_type := Some (http_server_content_type url), cl_content_length := file_size f\<rparr>"
    have "client_bufs_ok e ?c" using bufs content_type_range by (simp add: client_bufs_ok_def)
    then obtain r b w' where "http_server_send_header e ctx ?c w STATUS_OK =
        Some (r, ctx\<lparr>st_buf_tx_hdr := b\<rparr>, ?c\<lparr>cl_header_sent := True\<rparr>, w')" "length b = cfg_MSS e"
      by (metis send_headerE [OF env ctx] header_client_simps(9))
    with False bufs fl cmd content_type_range show ?thesis
      by (intro exI [of _ r] exI [of _ b] exI [of _ "?c\<lparr>cl_header_sent := True\<rparr>"] exI [of _ w'])
         (simp add: client_bufs_ok_def)
  qed
  then obtain r b c1 w1 where h: "(if \<not> cl_header_sent c
        then http_server_send_header e ctx (c\<lparr>cl_content_type := Some (http_server_content_type url),
               cl_content_length := file_size f\<rparr>) w STATUS_OK
        else Some (0, ctx, c, w)) = Some (r, ctx\<lparr>st_buf_tx_hdr := b\<rparr>, c1, w1)"
    and 1: "length b = cfg_MSS e" "client_bufs_ok e c1" "cl_file c1 = Some f" "cl_socket c1 = cl_socket c"
      "cl_file_offset c1 = cl_file_offset c" "cl_command_type c1 = HTTP_COMMAND_GET" "cl_rx_len c1 = cl_rx_len c"
    by blast
  have "\<exists>r' b' off w2. (if 0 \<le> r then sendfile_loop e f r c1 w1 else Some (r, c1, w1)) =
        Some (r', c1\<lparr>cl_buf_tx := b', cl_file_offset := off\<rparr>, w2)
      \<and> length b' = length (cl_buf_tx c1) \<and> off \<le> file_size f"
  proof (cases "0 \<le> r")
    case True
    have "uni_lib_ok e" "length (cl_buf_tx c1) < 2 ^ 32" "cl_file_offset c1 \<le> file_size f"
      using env fl 1 by (simp_all add: http_env_ok_def client_bufs_ok_def)
    from sendfile_loop_ok [OF this(1) fl(2) this(2,3), of r w1] True show ?thesis by simp
  next
    case False
    then show ?thesis
      using fl 1 by (intro exI [of _ r] exI [of _ "cl_buf_tx c1"] exI [of _ "cl_file_offset c1"] exI [of _ w1]) simp
  qed
  then obtain r' b' off w2 where l: "(if 0 \<le> r then sendfile_loop e f r c1 w1 else Some (r, c1, w1)) =
        Some (r', c1\<lparr>cl_buf_tx := b', cl_file_offset := off\<rparr>, w2)"
    and 2: "length b' = length (cl_buf_tx c1)" "off \<le> file_size f" by blast
  have eq: "http_server_cmd_get_sendfile e ctx c w url =
      (let c2 = c1\<lparr>cl_buf_tx := b', cl_file_offset := off\<rparr> in
       if file_size f \<le> off
       then Some (r', ctx\<lparr>st_buf_tx_hdr := b\<rparr>, http_server_client_clear c2, os_FD_CLR e w2 (cl_socket c1) eSELECT_WRITE)
       else Some (r', ctx\<lparr>st_buf_tx_hdr := b\<rparr>, c2, os_FD_SET e w2 (cl_socket c1) eSELECT_WRITE))"
    by (simp add: http_server_cmd_get_sendfile_def fl(1) h l Let_def)
  have "client_bufs_ok e (c1\<lparr>cl_buf_tx := b', cl_file_offset := off\<rparr>)"
    using 1(2) 2(1) by (simp add: client_bufs_ok_def)
  moreover have "client_phase_ok (c1\<lparr>cl_buf_tx := b', cl_file_offset := off\<rparr>)" if "\<not> file_size f \<le> off"
    using that 1 fl by (simp add: client_phase_ok_def)
  ultimately show ?thesis
    unfolding eq Let_def using 1
    by (cases "file_size f \<le> off") (simp_all add: step_okI [OF refl 1(1)])
qed

lemma reply_ok:
  assumes env: "http_env_ok e" and ctx: "ctx_inv e ctx" and bufs: "client_bufs_ok e c"
    and fn: "handler_fn_ok fn" and ct: "ct \<in> http_content_types"
  shows "\<exists>r b c' w'. http_server_reply e ctx c w fn input ct = Some (r, ctx\<lparr>st_buf_tx_hdr := b\<rparr>, c', w')
    \<and> length b = cfg_MSS e \<and> client_bufs_ok e c' \<and> cl_socket c' = cl_socket c \<and> cl_rx_len c' = cl_rx_len c"
proof -
  obtain ret out w1 where f: "fn w (Some (length (cl_buf_tx c))) input = (ret, out, w1)"
    by (cases "fn w (Some (length (cl_buf_tx c))) input")
  then have fo: "length out \<le> length (cl_buf_tx c)" "unat ret \<le> length (cl_buf_tx c)"
    using fn unfolding handler_fn_ok_def by (metis (mono_tags, lifting) case_prod_conv)+
  obtain sp w2 where sp: "os_tx_space e w1 (cl_socket c) = (sp, w2)" by (cases "os_tx_space e w1 (cl_socket c)")
  define t where "t = out @ drop (length out) (cl_buf_tx c)"
  have t: "mem_write (cl_buf_tx c) 0 out = Some t" "length t = length (cl_buf_tx c)"
    using fo by (simp_all add: mem_write_def t_def)
  define n where "n = c_min (of_int sp) ret"
  have n: "unat n \<le> length t" using fo(2) t(2) by (simp add: n_def unat_c_min)
  define c1 where "c1 = c\<lparr>cl_buf_tx := t, cl_content_length := n, cl_content_type := Some ct\<rparr>"
  have b1: "client_bufs_ok e c1" using bufs t(2) ct by (simp add: c1_def client_bufs_ok_def)
  obtain b r w3 where
    h: "http_server_send_header e ctx c1 w2 STATUS_OK = Some (r, ctx\<lparr>st_buf_tx_hdr := b\<rparr>, c1\<lparr>cl_header_sent := True\<rparr>, w3)"
    "length b = cfg_MSS e" by (metis send_headerE [OF env ctx b1] header_client_simps(9))
  have lib: "uni_lib_ok e" using env by (simp add: http_env_ok_def)
  have rd: "mem_read t 0 (unat n) = Some (take (unat n) t)" using n by (simp add: mem_read_def)
  obtain r2 w4 where s2: "os_send e w3 (cl_socket c) (take (unat n) t) = (r2, w4)"
    by (cases "os_send e w3 (cl_socket c) (take (unat n) t)")
  have eq: "http_server_reply e ctx c w fn input ct =
      (if 0 \<le> r \<and> 0 \<le> sint ret then Some (r2, ctx\<lparr>st_buf_tx_hdr := b\<rparr>, c1\<lparr>cl_header_sent := True\<rparr>, w4)
       else Some (sint ret, ctx\<lparr>st_buf_tx_hdr := b\<rparr>, c1\<lparr>cl_header_sent := True\<rparr>, w3))"
    using h(1) rd s2
    by (simp add: http_server_reply_def f sp t(1) uni_libD [OF lib] Let_def c1_def flip: n_def)
  have "client_bufs_ok e (c1\<lparr>cl_header_sent := True\<rparr>)" using b1 by (simp add: client_bufs_ok_def)
  with h(2) show ?thesis unfolding eq by (auto simp: c1_def)
qed

lemma find_mapI: "find P (map g [0..<n]) = Some x \<Longrightarrow> \<forall>i<n. Q (g i) \<Longrightarrow> P x \<and> Q x"
  by (auto simp: find_Some_iff)

lemma find_handler_ok:
  assumes "registry_ok e ctx" and "find_handler e (cfg_handlers ctx) cmd url = Some h"
  shows "handler_ok h \<and> handler_command h = cmd \<and> handler_path h = url"
  using assms find_mapI [of "\<lambda>h. handler_command h = cmd \<and> handler_path h = url"
      "handlers_get e (cfg_handlers ctx)" "handlers_size e (cfg_handlers ctx)" h handler_ok]
  by (simp add: find_handler_def registry_ok_def split: if_splits)

lemma find_file_ok:
  assumes "registry_ok e ctx" and "find_file e (cfg_files ctx) url = Some f"
  shows "file_ok f \<and> file_path f = url"
  using assms find_mapI [of "\<lambda>f. file_path f = url" "files_get e (cfg_files ctx)"
      "files_size e (cfg_files ctx)" f file_ok]
  by (simp add: find_file_def registry_ok_def split: if_splits)

lemma handler_okE:
  assumes "handler_ok h"
  obtains fn where "handler_function h = Some fn" "handler_fn_ok fn"
  using assms by (auto simp: handler_ok_def split: option.splits)

lemma sendresponse_ok:
  assumes env: "http_env_ok e" and ctx: "ctx_inv e ctx" and bufs: "client_bufs_ok e c"
    and h: "cl_handler c = Some h" "handler_ok h" "handler_command h = HTTP_COMMAND_GET"
  shows "step_ok e ctx c (http_server_cmd_get_sendresponse e ctx c w url)"
proof -
  from h(2) obtain fn where fn: "handler_function h = Some fn" "handler_fn_ok fn" by (rule handler_okE)
  from reply_ok [OF env ctx bufs fn(2) content_type_range] obtain r b c' w' where
    r: "http_server_reply e ctx c w fn (Some (cl_buf_rx c)) (http_server_content_type (Some url))
        = Some (r, ctx\<lparr>st_buf_tx_hdr := b\<rparr>, c', w')" "length b = cfg_MSS e" "client_bufs_ok e c'"
      "cl_socket c' = cl_socket c" by blast
  have "http_server_cmd_get_sendresponse e ctx c w url =
      Some (r, ctx\<lparr>st_buf_tx_hdr := b\<rparr>, http_server_client_clear c', os_FD_CLR e w' (cl_socket c') eSELECT_WRITE)"
    by (simp add: http_server_cmd_get_sendresponse_def h fn r(1))
  then show ?thesis by (rule step_okI [OF _ r(2)]) (simp_all add: r)
qed

lemma refuse_header_ok:
  assumes "http_env_ok e" and "ctx_inv e ctx" and "client_bufs_ok e c"
  shows "step_ok e ctx c (do { (result, ctx, client, w) \<leftarrow> http_server_send_header e ctx c w st;
            Some (g result, ctx, http_server_client_clear client, k client w) })"
proof -
  obtain r b w' where h: "http_server_send_header e ctx c w st =
      Some (r, ctx\<lparr>st_buf_tx_hdr := b\<rparr>, (header_client st c)\<lparr>cl_header_sent := True\<rparr>, w')" "length b = cfg_MSS e"
    by (rule send_headerE [OF assms])
  show ?thesis
    unfolding h(1) by (simp, rule step_okI [OF refl h(2)]) (simp_all add: assms(3))
qed

lemma get_start_ok:
  assumes env: "http_env_ok e" and ctx: "ctx_inv e ctx" and bufs: "client_bufs_ok e c"
    and idle: "client_phase_ok c" "cl_command_type c = HTTP_COMMAND_UNKNOWN"
  shows "step_ok e ctx c (http_server_cmd_get_start e ctx c w url)"
proof -
  have reg: "registry_ok e ctx" using ctx by (simp add: ctx_inv_def)
  let ?c = "c\<lparr>cl_command_type := HTTP_COMMAND_GET\<rparr>"
  have c: "cl_file c = None" "cl_handler c = None" "cl_file_offset c = 0"
    using idle by (simp_all add: client_phase_ok_def)
  have bufs': "client_bufs_ok e (?c\<lparr>cl_handler := x, cl_file := y\<rparr>)" "client_bufs_ok e (?c\<lparr>cl_handler := x\<rparr>)"
    "client_bufs_ok e (?c\<lparr>cl_file := y\<rparr>)" "client_bufs_ok e ?c" for x y
    using bufs by (simp_all add: client_bufs_ok_def)
  have st: "step_ok e ctx (c\<lparr>cl_command_type := m, cl_handler := x\<rparr>) res \<Longrightarrow> step_ok e ctx c res"
    "step_ok e ctx (c\<lparr>cl_command_type := m, cl_file := y\<rparr>) res \<Longrightarrow> step_ok e ctx c res"
    "step_ok e ctx (c\<lparr>cl_command_type := m\<rparr>) res \<Longrightarrow> step_ok e ctx c res" for m x y res
    by (simp_all add: step_ok_def)
  show ?thesis
  proof (cases "find_handler e (cfg_handlers ctx) HTTP_COMMAND_GET url")
    case (Some h)
    with find_handler_ok [OF reg Some] show ?thesis
      using sendresponse_ok [OF env ctx bufs'(2) [of "Some h"], of h w url]
      by (simp add: http_server_cmd_get_start_def st(1))
  next
    case None
    show ?thesis
    proof (cases "find_file e (cfg_files ctx) url")
      case (Some f)
      with find_file_ok [OF reg Some] None c show ?thesis
        using sendfile_ok [OF env ctx bufs'(3) [of "Some f"], of f w "Some url"]
        by (simp add: http_server_cmd_get_start_def st(2))
    next
      case none: None
      have "step_ok e ctx c (do { (result, ctx, client, w) \<leftarrow> http_server_send_header e ctx ?c w STATUS_NOTFOUND;
            Some (result, ctx, http_server_client_clear client, w) })"
        using refuse_header_ok [OF env ctx bufs'(4), of w STATUS_NOTFOUND "\<lambda>x. x" "\<lambda>_ x. x"] by (intro st(3))
      with None none c show ?thesis by (simp add: http_server_cmd_get_start_def)
    qed
  qed
qed

text \<open>A round of a POST whose body is not complete: nothing, or a chunk that is handed on at once.\<close>

lemma post_next_recv:
  assumes env: "http_env_ok e" and bufs: "client_bufs_ok e c"
    and h: "cl_handler c = Some h" "handler_function h = Some fn" and lt: "cl_file_offset c < cl_content_length c"
  obtains n r d w1 where "os_recv e w (cl_socket c) n = (r, d, w1)" and "r \<le> 0"
      and "http_server_cmd_post_next e ctx c w = Some (r, ctx, c, w1)"
  | n r d w1 ret out w2 b k where "os_recv e w (cl_socket c) n = (r, d, w1)" and "0 < r"
      and "fn w1 None (Some d) = (ret, out, w2)" and "length b = length (cl_buf_rx c)"
      and "http_server_cmd_post_next e ctx c w =
        Some (r, ctx, c\<lparr>cl_buf_rx := b, cl_file_offset := cl_file_offset c + k\<rparr>, w2)"
      and "cl_file_offset c + k \<le> cl_content_length c"
      and "unat (cl_file_offset c + k) = unat (cl_file_offset c) + length d"
proof -
  have lib: "uni_lib_ok e" and MSS: "cfg_MSS e \<le> 65535" using env by (simp_all add: http_env_ok_def)
  define rem where "rem = cl_content_length c - cl_file_offset c"
  have rem: "0 < rem" using lt by (simp add: rem_def word_gt_0)
  define n where "n = c_min rem (of_nat (length (cl_buf_rx c)))"
  obtain r d w1 where rv: "os_recv e w (cl_socket c) (unat n) = (r, d, w1)"
    by (cases "os_recv e w (cl_socket c) (unat n)")
  then have rb: "r \<le> int (unat n)" "0 < r \<Longrightarrow> length d = nat r"
    using env unfolding http_env_ok_def recv_bounded_def by (metis (mono_tags, lifting) case_prod_conv)+
  have n: "unat n \<le> length (cl_buf_rx c)" "unat n \<le> unat rem"
    using bufs MSS unat_of_nat_32 [of "length (cl_buf_rx c)"] by (simp_all add: n_def unat_c_min client_bufs_ok_def)
  show thesis
  proof (cases "0 < r")
    case False
    with rem h have "http_server_cmd_post_next e ctx c w = Some (r, ctx, c, w1)"
      by (simp add: http_server_cmd_post_next_def rv uni_libD [OF lib] Let_def flip: rem_def n_def)
    with rv False show thesis by (intro that(1)) simp_all
  next
    case pos: True
    have rn: "nat r \<le> unat n" using rb(1) by (simp only: nat_le_iff)
    define b where "b = d @ drop (length d) (cl_buf_rx c)"
    have b: "mem_write (cl_buf_rx c) 0 d = Some b" "length b = length (cl_buf_rx c)"
      using rb(2) rn pos n(1) by (simp_all add: mem_write_def b_def)
    have "nat r < 4294967296" using le_less_trans [OF le_trans [OF rn n(2)] unat_bound] by simp
    then have ur: "unat (of_int r :: u32) = nat r"
      using pos by (intro unat_of_int_small) linarith+
    define k where "k = c_min (of_int r) rem"
    have k: "unat k = nat r" using ur rn n(2) by (simp add: k_def unat_c_min)
    have rd: "mem_read b 0 (unat k) = Some d"
      using k rb(2) rn pos n(1) b by (simp add: mem_read_def b_def)
    obtain ret out w2 where f: "fn w1 None (Some d) = (ret, out, w2)" by (cases "fn w1 None (Some d)")
    have eq: "http_server_cmd_post_next e ctx c w =
        Some (r, ctx, c\<lparr>cl_buf_rx := b, cl_file_offset := cl_file_offset c + k\<rparr>, w2)"
      using rem h f pos rd b
      by (simp add: http_server_cmd_post_next_def rv uni_libD [OF lib] Let_def flip: rem_def n_def k_def)
    have "unat k \<le> unat rem" using k rn n(2) by linarith
    then have "cl_file_offset c + k \<le> cl_content_length c" "unat (cl_file_offset c + k) = unat (cl_file_offset c) + unat k"
      using less_imp_le [OF lt] unat_bound [of "cl_content_length c"] unat_sub_le [OF less_imp_le [OF lt]]
      by (simp_all add: rem_def word_le_sub_add unat_plus_no_wrap word_le_nat_alt)
    with k rb(2) pos show thesis by (intro that(2) [OF rv pos f b(2) eq]) simp_all
  qed
qed

text \<open>The round after the last chunk sends the reply of the handler and clears the client.\<close>

lemma post_next_end:
  assumes "cl_handler c = Some h" and "handler_function h = Some fn" and "cl_file_offset c = cl_content_length c"
  shows "http_server_cmd_post_next e ctx c w =
    do { (result, ctx, client, w) \<leftarrow> http_server_reply e ctx c w fn None ''text/plain'';
         Some (result, ctx, http_server_client_clear client,
               os_FD_CLR e w (cl_socket client) (or eSELECT_READ eSELECT_WRITE)) }"
  using assms by (simp add: http_server_cmd_post_next_def)

lemma post_next_ok:
  assumes env: "http_env_ok e" and ctx: "ctx_inv e ctx" and bufs: "client_bufs_ok e c"
    and post: "client_phase_ok c" "cl_command_type c = HTTP_COMMAND_POST"
  shows "step_ok e ctx c (http_server_cmd_post_next e ctx c w)"
proof -
  obtain h where h: "cl_handler c = Some h" "handler_ok h" and le: "cl_file_offset c \<le> cl_content_length c"
    using post by (auto simp: client_phase_ok_def split: option.splits)
  from h(2) obtain fn where fn: "handler_function h = Some fn" "handler_fn_ok fn" by (rule handler_okE)
  show ?thesis
  proof (cases "cl_file_offset c < cl_content_length c")
    case True
    show ?thesis
    proof (rule post_next_recv [OF env bufs h(1) fn(1) True, of w ctx])
      fix n r d w1
      assume "http_server_cmd_post_next e ctx c w = Some (r, ctx, c, w1)"
      then show ?thesis by (rule step_ok_same) (simp_all add: ctx bufs post)
    next
      fix n r d w1 ret out w2 b k
      assume eq: "http_server_cmd_post_next e ctx c w =
          Some (r, ctx, c\<lparr>cl_buf_rx := b, cl_file_offset := cl_file_offset c + k\<rparr>, w2)"
        and "length b = length (cl_buf_rx c)" and "cl_file_offset c + k \<le> cl_content_length c"
      then show ?thesis using h bufs post
        by (intro step_ok_same [OF eq ctx]) (simp_all add: client_bufs_ok_def client_phase_ok_def)
    qed
  next
    case False
    have "''text/plain'' \<in> http_content_types" by (simp add: http_content_types_def)
    from reply_ok [OF env ctx bufs fn(2) this] obtain r b c' w' where
      r: "http_server_reply e ctx c w fn None ''text/plain'' = Some (r, ctx\<lparr>st_buf_tx_hdr := b\<rparr>, c', w')"
        "length b = cfg_MSS e" "client_bufs_ok e c'" "cl_socket c' = cl_socket c" by blast
    have "http_server_cmd_post_next e ctx c w = Some (r, ctx\<lparr>st_buf_tx_hdr := b\<rparr>, http_server_client_clear c',
        os_FD_CLR e w' (cl_socket c') (or eSELECT_READ eSELECT_WRITE))"
      using False le r(1) by (subst post_next_end [OF h(1) fn(1)]) simp_all
    then show ?thesis by (rule step_okI [OF _ r(2)]) (simp_all add: r)
  qed
qed

text \<open>The start of a POST with a handler: the body bytes that came with the header are handed on.\<close>

definition post_initial :: "u32 \<Rightarrow> char list \<Rightarrow> u32" where
  "post_initial content_length data = (if data \<noteq> [] then c_min content_length (of_nat (length data)) else 0)"

lemma post_initial_le:
  assumes "length data < 2 ^ 32"
  shows "unat (post_initial n data) = min (unat n) (length data)" and "post_initial n data \<le> n"
  using assms unat_of_nat_32 [of "length data"]
  by (simp_all add: post_initial_def unat_c_min word_le_nat_alt)

lemma post_start_handler:
  assumes env: "http_env_ok e" and idle: "cl_handler c = None" "cl_file_offset c = 0"
    and len: "length data \<le> 2 * cfg_MSS e"
    and h: "find_handler e (cfg_handlers ctx) HTTP_COMMAND_POST url = Some h" "handler_function h = Some fn"
    and k: "k = post_initial (cl_content_length c) data"
    and w1: "w1 = (if 0 < k then snd (snd (fn w None (Some (take (unat k) data)))) else w)"
    and c2: "c2 = c\<lparr>cl_command_type := HTTP_COMMAND_POST, cl_handler := Some h, cl_file_offset := k\<rparr>"
  shows "http_server_cmd_post_start e ctx c w url data =
      (if cl_content_length c \<le> k then http_server_cmd_post_next e ctx c2 w1
       else Some (0, ctx, c2, os_FD_SET e w1 (cl_socket c) eSELECT_READ))"
proof -
  have lib: "uni_lib_ok e" and MSS: "cfg_MSS e \<le> 65535" using env by (simp_all add: http_env_ok_def)
  define c1 where "c1 = c\<lparr>cl_command_type := HTTP_COMMAND_POST, cl_handler := Some h\<rparr>"
  have kl: "unat k \<le> length data" using len MSS post_initial_le(1) [of data] by (simp add: k)
  have "http_server_post_initial e h c1 w data = Some (c2, w1)"
  proof (cases "0 < k")
    case True
    then have "data \<noteq> []" "c_min (cl_content_length c1) (of_nat (length data)) = k"
      by (auto simp: k post_initial_def c1_def split: if_splits)
    then show ?thesis
      using True kl idle(2) h(2) by (simp add: http_server_post_initial_def c2 w1 uni_libD [OF lib] mem_read_def
          Let_def split_beta) (simp add: c1_def)
  next
    case False
    then have k0: "k = 0" by (simp add: word_gt_0)
    then have "c2 = c1" "w1 = w" "data \<noteq> [] \<Longrightarrow> c_min (cl_content_length c1) (of_nat (length data)) = 0"
      using idle(2) k by (cases c; auto simp: c2 c1_def w1 post_initial_def split: if_splits)+
    then show ?thesis
      using idle(2) by (cases "data = []") (simp_all add: http_server_post_initial_def uni_libD [OF lib] Let_def c1_def)
  qed
  then show ?thesis
    by (simp add: http_server_cmd_post_start_def h(1) Let_def flip: c1_def) (simp add: c1_def c2)
qed

lemma post_start_ok:
  assumes env: "http_env_ok e" and ctx: "ctx_inv e ctx" and bufs: "client_bufs_ok e c"
    and idle: "client_phase_ok c" "cl_command_type c = HTTP_COMMAND_UNKNOWN"
    and len: "length data \<le> 2 * cfg_MSS e"
  shows "step_ok e ctx c (http_server_cmd_post_start e ctx c w url data)"
proof -
  have reg: "registry_ok e ctx" and MSS: "cfg_MSS e \<le> 65535"
    using ctx env by (simp_all add: ctx_inv_def http_env_ok_def)
  have c: "cl_handler c = None" "cl_file_offset c = 0" using idle by (simp_all add: client_phase_ok_def)
  have st: "step_ok e ctx (c\<lparr>cl_command_type := m, cl_handler := x, cl_file_offset := y\<rparr>) res \<Longrightarrow> step_ok e ctx c res"
    "step_ok e ctx (c\<lparr>cl_command_type := m\<rparr>) res \<Longrightarrow> step_ok e ctx c res" for m x y res
    by (simp_all add: step_ok_def)
  show ?thesis
  proof (cases "find_handler e (cfg_handlers ctx) HTTP_COMMAND_POST url")
    case None
    have "client_bufs_ok e (c\<lparr>cl_command_type := HTTP_COMMAND_POST\<rparr>)" using bufs by (simp add: client_bufs_ok_def)
    from refuse_header_ok [OF env ctx this, of w STATUS_NOTFOUND "\<lambda>x. x" "\<lambda>_ x. x"] None c show ?thesis
      by (simp add: http_server_cmd_post_start_def st(2))
  next
    case (Some h)
    have h: "handler_ok h" using find_handler_ok [OF reg Some] by simp
    then obtain fn where fn: "handler_function h = Some fn" by (rule handler_okE)
    define k where "k = post_initial (cl_content_length c) data"
    define w1 where "w1 = (if 0 < k then snd (snd (fn w None (Some (take (unat k) data)))) else w)"
    define c2 where "c2 = c\<lparr>cl_command_type := HTTP_COMMAND_POST, cl_handler := Some h, cl_file_offset := k\<rparr>"
    note eq = post_start_handler [OF env c len Some fn k_def w1_def c2_def]
    have "k \<le> cl_content_length c" using len MSS post_initial_le(2) [of data] by (simp add: k_def)
    then have b2: "client_bufs_ok e c2" "client_phase_ok c2" "cl_command_type c2 = HTTP_COMMAND_POST"
      using bufs h by (simp_all add: c2_def client_bufs_ok_def client_phase_ok_def)
    show ?thesis
    proof (cases "cl_content_length c \<le> k")
      case True
      from post_next_ok [OF env ctx b2, of w1] have "step_ok e ctx c (http_server_cmd_post_next e ctx c2 w1)"
        unfolding c2_def by (rule st(1))
      with True eq show ?thesis by simp
    next
      case False
      with eq have "http_server_cmd_post_start e ctx c w url data =
          Some (0, ctx, c2, os_FD_SET e w1 (cl_socket c) eSELECT_READ)" by simp
      then show ?thesis by (rule step_ok_same) (simp_all add: ctx b2, simp_all add: c2_def)
    qed
  qed
qed

text \<open>The search of the command map, case by case.\<close>

lemma process_start_eq:
  "http_server_cmd_process_start e ctx c w cmd url data =
     (if cmd_type cmd = HTTP_COMMAND_GET then http_server_cmd_get_start e ctx c w url
      else if cmd_type cmd = HTTP_COMMAND_POST then http_server_cmd_post_start e ctx c w url data
      else Some (0, ctx, c, w))"
  by (auto simp: http_server_cmd_process_start_def g_http_cmd_map_def)

lemma process_next_eq:
  "http_server_cmd_process_next e ctx c w =
     (if cl_command_type c = HTTP_COMMAND_GET then http_server_cmd_get_next e ctx c w
      else if cl_command_type c = HTTP_COMMAND_POST then http_server_cmd_post_next e ctx c w
      else Some (0, ctx, c, w))"
  by (auto simp: http_server_cmd_process_next_def g_http_cmd_map_def)

lemma process_next_ok:
  assumes "http_env_ok e" and "ctx_inv e ctx" and "client_bufs_ok e c" and "client_phase_ok c"
  shows "step_ok e ctx c (http_server_cmd_process_next e ctx c w)"
proof -
  consider "cl_command_type c = HTTP_COMMAND_UNKNOWN" | "cl_command_type c = HTTP_COMMAND_GET"
    | "cl_command_type c = HTTP_COMMAND_POST"
    using assms(4) by (cases "cl_command_type c") (simp_all add: client_phase_ok_def)
  then show ?thesis
  proof cases
    case 1
    then have "http_server_cmd_process_next e ctx c w = Some (0, ctx\<lparr>st_buf_tx_hdr := st_buf_tx_hdr ctx\<rparr>, c, w)"
      by (simp add: process_next_eq)
    then show ?thesis by (rule step_okI) (use assms in \<open>simp_all add: ctx_inv_def\<close>)
  next
    case 2
    then obtain f where "cl_file c = Some f" "file_ok f" "cl_file_offset c \<le> file_size f"
      using assms(4) by (auto simp: client_phase_ok_def split: option.splits)
    from sendfile_ok [OF assms(1-3) this 2, of w None] this(1) 2 show ?thesis
      by (simp add: process_next_eq http_server_cmd_get_next_def)
  next
    case 3
    with post_next_ok [OF assms 3] show ?thesis by (simp add: process_next_eq)
  qed
qed

lemma process_start_ok:
  assumes "http_env_ok e" and "ctx_inv e ctx" and "client_bufs_ok e c"
    and "client_phase_ok c" and "cl_command_type c = HTTP_COMMAND_UNKNOWN" and "length data \<le> 2 * cfg_MSS e"
  shows "step_ok e ctx c (http_server_cmd_process_start e ctx c w cmd url data)"
proof -
  have "step_ok e ctx c (Some (0, ctx, c, w))"
    by (rule step_okI [where r = 0 and b = "st_buf_tx_hdr ctx" and c' = c and w' = w]) (use assms in \<open>simp_all add: ctx_inv_def\<close>)
  with get_start_ok [OF assms(1-5)] post_start_ok [OF assms] show ?thesis
    by (simp add: process_start_eq)
qed

text \<open>After a request the receive buffer is empty or holds an unfinished header.\<close>

definition work_ok ::
    "('w, 'ha, 'fa) http_env \<Rightarrow> ('w, 'ha, 'fa) http_ctx \<Rightarrow> 'w http_client \<Rightarrow>
     (int \<times> ('w, 'ha, 'fa) http_ctx \<times> 'w http_client \<times> 'w) option \<Rightarrow> bool" where
  "work_ok e ctx c res \<longleftrightarrow>
     (\<exists>r b c' w'. res = Some (r, ctx\<lparr>st_buf_tx_hdr := b\<rparr>, c', w') \<and> length b = cfg_MSS e
        \<and> client_inv e c' \<and> cl_socket c' = cl_socket c)"

lemma work_okI:
  assumes "step_ok e ctx c res" and "unat (cl_rx_len c) < 2 * cfg_MSS e"
  shows "work_ok e ctx c res"
  using assms by (fastforce simp: step_ok_def work_ok_def client_inv_def word_le_nat_alt)

lemma work_ok_Some:
  "length b = cfg_MSS e \<Longrightarrow> client_inv e c' \<Longrightarrow> cl_socket c' = cl_socket c \<Longrightarrow>
   work_ok e ctx c (Some (r, ctx\<lparr>st_buf_tx_hdr := b\<rparr>, c', w'))"
  by (auto simp: work_ok_def)

lemma clear_inv:
  "0 < cfg_MSS e \<Longrightarrow> client_bufs_ok e c \<Longrightarrow> client_inv e (http_server_client_clear c)"
  by (simp add: client_inv_def) (simp add: http_server_client_clear_def)

lemma refuse_ok:
  assumes "http_env_ok e" and "ctx_inv e ctx" and "client_bufs_ok e c"
  shows "work_ok e ctx c (http_server_refuse e ctx c w r)"
proof -
  obtain r' b w' where h: "http_server_send_header e ctx c w STATUS_BADREQUEST =
      Some (r', ctx\<lparr>st_buf_tx_hdr := b\<rparr>, (header_client STATUS_BADREQUEST c)\<lparr>cl_header_sent := True\<rparr>, w')"
    "length b = cfg_MSS e"
    by (rule send_headerE [OF assms])
  have "0 < cfg_MSS e" using assms(1) by (simp add: http_env_ok_def)
  then show ?thesis
    using h assms(3) by (simp add: http_server_refuse_def work_ok_Some clear_inv)
qed

lemma reset_rx_ok:
  assumes "step_ok e ctx c2 res" and "0 < cfg_MSS e" and "cl_socket c2 = cl_socket c"
  shows "work_ok e ctx c (do { (result, ctx, client, w) \<leftarrow> res; Some (result, ctx, client\<lparr>cl_rx_len := 0\<rparr>, w) })"
proof -
  from assms(1) obtain r b c' w' where res: "res = Some (r, ctx\<lparr>st_buf_tx_hdr := b\<rparr>, c', w')"
    and c': "length b = cfg_MSS e" "client_bufs_ok e c'" "client_phase_ok c'" "cl_socket c' = cl_socket c2"
    by (auto simp: step_ok_def)
  have "client_inv e (c'\<lparr>cl_rx_len := 0\<rparr>)"
    using c' assms(2) by (simp add: client_inv_def client_bufs_ok_def)
  with res c' assms(3) show ?thesis by (simp add: work_ok_Some)
qed

lemma client_request_ok:
  assumes env: "http_env_ok e" and ctx: "ctx_inv e ctx" and bufs: "client_bufs_ok e c"
    and idle: "client_phase_ok c" "cl_command_type c = HTTP_COMMAND_UNKNOWN"
    and rx: "unat (cl_rx_len c) \<le> length (cl_buf_rx c)"
  shows "work_ok e ctx c (http_server_client_request e ctx c w n)"
proof -
  have len: "length (cl_buf_rx c) = 2 * cfg_MSS e" using bufs by (simp add: client_bufs_ok_def)
  have pos: "0 < cfg_MSS e" using env by (simp add: http_env_ok_def)
  obtain r where r: "http_parse (cl_buf_rx c) (unat (cl_rx_len c)) = Some r"
    "request_ok (cl_buf_rx c) (unat (cl_rx_len c)) r" using http_parse_total [OF rx] by blast
  have upd: "work_ok e ctx (c\<lparr>cl_headers_done := True, cl_buf_rx := buf\<rparr>) res \<Longrightarrow> work_ok e ctx c res" for buf res
    by (simp add: work_ok_def)
  have bufs': "length buf = length (cl_buf_rx c) \<Longrightarrow> client_bufs_ok e (c\<lparr>cl_headers_done := True, cl_buf_rx := buf\<rparr>)" for buf
    using bufs by (simp add: client_bufs_ok_def)
  show ?thesis
  proof (cases r)
    case P_Incomplete
    show ?thesis
    proof (cases "unat (cl_rx_len c) = length (cl_buf_rx c)")
      case True
      with r(1) P_Incomplete refuse_ok [OF env ctx bufs] show ?thesis
        by (simp add: http_server_client_request_def)
    next
      case False
      then have "client_inv e c" using bufs idle rx len by (simp add: client_inv_def)
      moreover have "http_server_client_request e ctx c w n = Some (n, ctx\<lparr>st_buf_tx_hdr := st_buf_tx_hdr ctx\<rparr>, c, w)"
        using r(1) P_Incomplete False by (simp add: http_server_client_request_def)
      ultimately show ?thesis using ctx unfolding work_ok_def ctx_inv_def by blast
    qed
  next
    case (P_Bad buf)
    then have "work_ok e ctx c (http_server_refuse e ctx (c\<lparr>cl_headers_done := True, cl_buf_rx := buf\<rparr>) w (- 1))"
      using r(2) by (intro upd [OF refuse_ok [OF env ctx bufs']]) (simp add: request_ok_def)
    with r(1) P_Bad show ?thesis by (simp add: http_server_client_request_def)
  next
    case (P_Request k url buf h cl found)
    then have lb: "length buf = length (cl_buf_rx c)" using r(2) by (simp add: request_ok_def)
    define c1 where "c1 = c\<lparr>cl_headers_done := True, cl_buf_rx := buf\<rparr>"
    define cmd where "cmd = g_UNI_NET_http_cmd ! k"
    define body where "body = take (unat (cl_rx_len c) - h) (drop h buf)"
    define c2 where "c2 = (if cmd_type cmd = HTTP_COMMAND_POST then c1\<lparr>cl_content_length := cl\<rparr> else c1)"
    have eq: "http_server_client_request e ctx c w n =
        (if cmd_type cmd = HTTP_COMMAND_POST \<and> \<not> found then http_server_refuse e ctx c1 w (- 1)
         else do { (result, ctx, client, w) \<leftarrow>
                     http_server_cmd_process_start e ctx c2 w cmd (c_string buf url) body;
                   Some (result, ctx, client\<lparr>cl_rx_len := 0\<rparr>, w) })"
      using r(1) P_Request by (simp add: http_server_client_request_def Let_def c1_def c2_def cmd_def body_def)
    have "work_ok e ctx c (http_server_refuse e ctx c1 w (- 1))"
      unfolding c1_def by (intro upd [OF refuse_ok [OF env ctx bufs']] lb)
    moreover have "step_ok e ctx c2 (http_server_cmd_process_start e ctx c2 w cmd (c_string buf url) body)"
      using env ctx bufs' [OF lb] idle lb len
      by (intro process_start_ok)
         (auto simp: c2_def c1_def body_def client_bufs_ok_def client_phase_ok_def)
    then have "work_ok e ctx c (do { (result, ctx, client, w) \<leftarrow>
                     http_server_cmd_process_start e ctx c2 w cmd (c_string buf url) body;
                   Some (result, ctx, client\<lparr>cl_rx_len := 0\<rparr>, w) })"
      using pos by (rule reset_rx_ok) (simp add: c2_def c1_def)
    ultimately show ?thesis unfolding eq by simp
  qed
qed

lemma client_work_ok:
  assumes env: "http_env_ok e" and ctx: "ctx_inv e ctx" and inv: "client_inv e c"
  shows "work_ok e ctx c (http_server_client_work e ctx c w)"
proof -
  have c: "client_bufs_ok e c" "client_phase_ok c" "unat (cl_rx_len c) < 2 * cfg_MSS e"
    and len: "length (cl_buf_rx c) = 2 * cfg_MSS e" and hdr: "length (st_buf_tx_hdr ctx) = cfg_MSS e"
    and MSS: "cfg_MSS e \<le> 65535"
    using inv ctx env by (simp_all add: client_inv_def client_bufs_ok_def ctx_inv_def http_env_ok_def)
  have same: "work_ok e ctx c (Some (r, ctx, c, w))" for r w
    using work_ok_Some [OF hdr inv refl, of ctx r w] by simp
  obtain k w1 where k: "os_issocketconnected e w (cl_socket c) = (k, w1)"
    by (cases "os_issocketconnected e w (cl_socket c)")
  show ?thesis
  proof (cases "k \<noteq> 0 \<and> cl_command_type c = HTTP_COMMAND_UNKNOWN")
    case False
    have "work_ok e ctx c (http_server_cmd_process_next e ctx c w1)"
      using process_next_ok [OF env ctx c(1,2)] c(3) by (rule work_okI)
    with False same k show ?thesis by (auto simp: http_server_client_work_def)
  next
    case True
    define n where "n = length (cl_buf_rx c) - unat (cl_rx_len c)"
    obtain r d w2 where rv: "os_recv e w1 (cl_socket c) n = (r, d, w2)" by (cases "os_recv e w1 (cl_socket c) n")
    then have rb: "r \<le> int n" "0 < r \<Longrightarrow> length d = nat r"
      using env unfolding http_env_ok_def recv_bounded_def by (metis (mono_tags, lifting) case_prod_conv)+
    show ?thesis
    proof (cases "0 < r")
      case pos: True
      define m where "m = unat (cl_rx_len c) + nat r"
      have rn: "nat r \<le> n" using rb(1) by (simp only: nat_le_iff)
      then have m: "m \<le> length (cl_buf_rx c)" using c(3) len unfolding m_def n_def by linarith
      define b where "b = take (unat (cl_rx_len c)) (cl_buf_rx c) @ d @ drop m (cl_buf_rx c)"
      have b: "mem_write (cl_buf_rx c) (unat (cl_rx_len c)) d = Some b" "length b = length (cl_buf_rx c)"
        using m rb(2) pos by (simp_all add: mem_write_def b_def m_def)
      have "unat (of_int r :: u32) = nat r"
        using m pos len MSS unfolding m_def by (intro unat_of_int_small) linarith+
      then have ur: "unat (cl_rx_len c + of_int r) = m"
        using m len MSS by (subst unat_plus_no_wrap) (simp_all add: m_def)
      then have "\<not> of_nat (length b) < cl_rx_len c + of_int r"
        using m b(2) len MSS unat_of_nat_32 [of "length b"] by (simp only: word_less_nat_alt)
      then have eq: "http_server_client_work e ctx c w =
          http_server_client_request e ctx (c\<lparr>cl_buf_rx := b, cl_rx_len := cl_rx_len c + of_int r\<rparr>) w2 r"
        using True pos k rv b(1) by (simp add: http_server_client_work_def Let_def flip: n_def)
      have "work_ok e ctx (c\<lparr>cl_buf_rx := b, cl_rx_len := cl_rx_len c + of_int r\<rparr>)
          (http_server_client_request e ctx (c\<lparr>cl_buf_rx := b, cl_rx_len := cl_rx_len c + of_int r\<rparr>) w2 r)"
        using env ctx c True ur m b(2)
        by (intro client_request_ok) (simp_all add: client_bufs_ok_def client_phase_ok_def)
      with eq show ?thesis by (simp add: work_ok_def)
    qed (use True same k rv in \<open>simp add: http_server_client_work_def flip: n_def\<close>)
  qed
qed

section \<open>The server\<close>

definition clients_inv :: "('w, 'z) net_os_scheme \<Rightarrow> 'w http_client option list \<Rightarrow> bool" where
  "clients_inv e cs \<longleftrightarrow> list_all (case_option True (client_inv e)) cs"

lemma clients_inv_simps [simp]:
  "clients_inv e []" "clients_inv e (None # cs) = clients_inv e cs"
  "clients_inv e (Some c # cs) \<longleftrightarrow> client_inv e c \<and> clients_inv e cs"
  by (simp_all add: clients_inv_def)

definition server_inv :: "('w, 'ha, 'fa) http_env \<Rightarrow> ('w, 'ha, 'fa) http_ctx \<Rightarrow> bool" where
  "server_inv e ctx \<longleftrightarrow> ctx_inv e ctx \<and>
     (case st_clients ctx of None \<Rightarrow> False
      | Some cs \<Rightarrow> length cs = cfg_max_clients ctx \<and> clients_inv e cs)"

text \<open>The allocator never runs out: the code does not check its result.\<close>

definition calloc_succeeds :: "('w, 'ha, 'fa) http_env \<Rightarrow> bool" where
  "calloc_succeeds e \<longleftrightarrow> (\<forall>w. fst (os_calloc e w))"

lemma client_zero_inv: "0 < cfg_MSS e \<Longrightarrow> client_inv e ((http_client_zero e)\<lparr>cl_socket := s\<rparr>)"
  by (simp add: client_inv_def client_bufs_ok_def client_phase_ok_def http_client_zero_def)

lemma place_client_inv:
  "client_inv e c \<Longrightarrow> clients_inv e cs \<Longrightarrow> clients_inv e (place_client c cs) \<and> length (place_client c cs) = length cs"
  by (induction c cs rule: place_client.induct) simp_all

lemma work_clients_ok:
  "http_env_ok e \<Longrightarrow> ctx_inv e ctx \<Longrightarrow> clients_inv e cs \<Longrightarrow>
    \<exists>b cs' w'. http_server_work_clients e ctx cs w = Some (ctx\<lparr>st_buf_tx_hdr := b\<rparr>, cs', w')
      \<and> length b = cfg_MSS e \<and> length cs' = length cs \<and> clients_inv e cs'"
proof (induction e ctx cs w rule: http_server_work_clients.induct)
  case (1 e ctx w)
  then show ?case by (intro exI [of _ "st_buf_tx_hdr ctx"]) (simp add: ctx_inv_def)
next
  case (2 e ctx cs w)
  then obtain b cs' w' where "http_server_work_clients e ctx cs w = Some (ctx\<lparr>st_buf_tx_hdr := b\<rparr>, cs', w')"
    "length b = cfg_MSS e" "length cs' = length cs" "clients_inv e cs'" by auto
  then show ?case by auto
next
  case (3 e ctx c cs w)
  have "work_ok e ctx c (http_server_client_work e ctx c w)"
    using "3.prems" by (intro client_work_ok) simp_all
  then obtain r b c' w1 where wk: "http_server_client_work e ctx c w = Some (r, ctx\<lparr>st_buf_tx_hdr := b\<rparr>, c', w1)"
    and c': "length b = cfg_MSS e" "client_inv e c'" by (auto simp: work_ok_def)
  define slot where "slot = (if r < 0 then None else Some c')"
  define w2 where "w2 = (if r < 0 then http_server_client_delete e c' w1 else w1)"
  have sw: "(if r < 0 then (None, http_server_client_delete e c' w1) else (Some c', w1)) = (slot, w2)"
    by (simp add: slot_def w2_def)
  have "ctx_inv e (ctx\<lparr>st_buf_tx_hdr := b\<rparr>)" using "3.prems"(2) c'(1) by simp
  with "3.IH" [OF wk refl refl refl refl sw [symmetric]] "3.prems" obtain b' cs' w' where
    "http_server_work_clients e (ctx\<lparr>st_buf_tx_hdr := b\<rparr>) cs w2 = Some (ctx\<lparr>st_buf_tx_hdr := b'\<rparr>, cs', w')"
    "length b' = cfg_MSS e" "length cs' = length cs" "clients_inv e cs'" by auto
  moreover have "clients_inv e (slot # cs')" if "clients_inv e cs'" for cs'
    using that c'(2) by (simp add: slot_def)
  ultimately show ?case
    by (intro exI [of _ b'] exI [of _ "slot # cs'"] exI [of _ w']) (simp add: wk sw)
qed

lemma client_new_ok:
  assumes "http_env_ok e" and "calloc_succeeds e" and "server_inv e ctx"
  shows "\<exists>ctx' w'. http_server_client_new e ctx s w = Some (ctx', w') \<and> server_inv e ctx'"
proof -
  obtain ok w1 where ca: "os_calloc e w = (ok, w1)" by (cases "os_calloc e w")
  then have ok: "ok" using assms(2) by (metis calloc_succeeds_def fst_conv)
  obtain cs where cs: "st_clients ctx = Some cs" "length cs = cfg_max_clients ctx" "clients_inv e cs"
    using assms(3) by (auto simp: server_inv_def split: option.splits)
  have "client_inv e ((http_client_zero e)\<lparr>cl_socket := s\<rparr>)"
    using assms(1) by (intro client_zero_inv) (simp add: http_env_ok_def)
  from place_client_inv [OF this cs(3)] show ?thesis
    using assms(3) cs ok ca
    by (simp add: http_server_client_new_def server_inv_def ctx_inv_def registry_ok_def Let_def)
qed

lemma server_work_ok:
  assumes env: "http_env_ok e" and ca: "calloc_succeeds e" and inv: "server_inv e ctx"
  shows "\<exists>ctx' w'. http_server_work e ctx w = Some (True, ctx', w') \<and> server_inv e ctx'"
proof -
  obtain flags w1 where sel: "os_select e w = (flags, w1)" by (cases "os_select e w")
  obtain s w2 where acc: "os_accept e w1 (st_socket ctx) = (s, w2)" by (cases "os_accept e w1 (st_socket ctx)")
  obtain ctx1 w3 where n: "(if flags \<noteq> 0 then let (s, w) = os_accept e w1 (st_socket ctx)
        in if socket_valid s then http_server_client_new e ctx s w else Some (ctx, w)
        else Some (ctx, w1)) = Some (ctx1, w3)" and inv1: "server_inv e ctx1"
    using client_new_ok [OF env ca inv, of s w2] inv acc by (cases "flags \<noteq> 0"; cases "socket_valid s") auto
  obtain cs where cs: "st_clients ctx1 = Some cs" "length cs = cfg_max_clients ctx1" "clients_inv e cs"
    and ctx1: "ctx_inv e ctx1" using inv1 by (auto simp: server_inv_def split: option.splits)
  from work_clients_ok [OF env ctx1 cs(3)] obtain b cs' w' where
    wc: "http_server_work_clients e ctx1 cs w3 = Some (ctx1\<lparr>st_buf_tx_hdr := b\<rparr>, cs', w')"
    and b: "length b = cfg_MSS e" "length cs' = length cs" "clients_inv e cs'" by blast
  have "http_server_work e ctx w = Some (True, ctx1\<lparr>st_buf_tx_hdr := b, st_clients := Some cs'\<rparr>, w')"
    using n cs(1) wc by (simp add: http_server_work_def sel)
  then show ?thesis
    using b cs ctx1 by (simp add: server_inv_def ctx_inv_def registry_ok_def)
qed

lemma server_rounds_ok:
  assumes "http_env_ok e" and "calloc_succeeds e"
  shows "server_inv e ctx \<Longrightarrow> \<exists>ctx' w'. http_server_rounds n e ctx w = Some (ctx', w') \<and> server_inv e ctx'"
proof (induction n arbitrary: ctx w)
  case (Suc n)
  from server_work_ok [OF assms Suc.prems, of w] obtain ctx1 w1 where
    "http_server_work e ctx w = Some (True, ctx1, w1)" "server_inv e ctx1" by blast
  with Suc.IH [of ctx1 w1] show ?case by simp
qed auto

lemma init_thread_ok:
  assumes "http_env_ok e" and "calloc_succeeds e" and "registry_ok e ctx" and "wait_network e w = Some w1"
  shows "\<exists>ctx' w'. http_server_init_thread e (Some ctx) w = Some (True, Some ctx', w') \<and> server_inv e ctx'"
proof -
  obtain ok w2 where ca: "os_calloc e w1 = (ok, w2)" by (cases "os_calloc e w1")
  then have ok: ok using assms(2) by (metis calloc_succeeds_def fst_conv)
  obtain s w3 where so: "os_socket e (os_CreateSocketSet e w2) = (s, w3)"
    by (cases "os_socket e (os_CreateSocketSet e w2)")
  have "clients_inv e (replicate n None)" for n by (induction n) simp_all
  then show ?thesis
    using assms(3) ok
    by (simp add: http_server_init_thread_def assms(4) ca so Let_def http_server_init_state_def
        server_inv_def ctx_inv_def registry_ok_def)
qed


end
