(* ===== verification/Http_Delivery.thy ===== *)
theory Http_Delivery
  imports Http_Safety
begin

text \<open>
  What the peers of the HTTP server see.  A GET of a registered file sends the reply header and
  then the file, byte for byte, whatever part of it the transmit buffer accepts in each round; a
  POST hands the body to the handler, byte for byte, whatever part of it arrives in each round.
\<close>

section \<open>The transmit side of a connection\<close>

text \<open>
  Documented behaviour of a TCP socket \<open>s\<close> in the worlds where the stack is \<open>ok\<close>: \<open>sent\<close> is the
  stream written so far and \<open>space\<close> the free room of the transmit buffer.  \<^verbatim>\<open>FreeRTOS_tx_space\<close>
  never reports more than the room there is; \<^verbatim>\<open>FreeRTOS_send\<close> fails with a negative result or
  appends a prefix of the data, which is whole when there is room for it; the select calls and the
  test of the connection send nothing.  No call breaks the stack.
\<close>

definition tcp_stream ::
    "('w, 'z) net_os_scheme \<Rightarrow> socket_t \<Rightarrow> ('w \<Rightarrow> bool) \<Rightarrow> ('w \<Rightarrow> char list) \<Rightarrow> ('w \<Rightarrow> nat) \<Rightarrow> bool" where
  "tcp_stream e s ok sent space \<longleftrightarrow>
     (\<forall>w. ok w \<longrightarrow> (let (sp, w') = os_tx_space e w s
        in ok w' \<and> sent w' = sent w \<and> 0 \<le> sp \<and> sp \<le> int (space w') \<and> sp < 2 ^ 31))
   \<and> (\<forall>w d. ok w \<longrightarrow> length d < 2 ^ 31 \<longrightarrow> (let (r, w') = os_send e w s d in ok w' \<and>
        (if r < 0 then sent w' = sent w
         else nat r \<le> length d \<and> min (length d) (space w) \<le> nat r \<and> sent w' = sent w @ take (nat r) d)))
   \<and> (\<forall>w b. ok w \<longrightarrow> ok (os_FD_SET e w s b) \<and> sent (os_FD_SET e w s b) = sent w
        \<and> ok (os_FD_CLR e w s b) \<and> sent (os_FD_CLR e w s b) = sent w)
   \<and> (\<forall>w. ok w \<longrightarrow> ok (snd (os_issocketconnected e w s)) \<and> sent (snd (os_issocketconnected e w s)) = sent w)"

lemma tcp_spaceD:
  assumes "tcp_stream e s ok sent space" and "ok w" and "os_tx_space e w s = (sp, w')"
  shows "sent w' = sent w" and "0 \<le> sp" and "sp \<le> int (space w')" and "unat (of_int sp :: u32) = nat sp"
    and "ok w'" and "sp < 2 ^ 31"
proof -
  have "let (sp, w') = os_tx_space e w s in ok w' \<and> sent w' = sent w \<and> 0 \<le> sp \<and> sp \<le> int (space w') \<and> sp < 2 ^ 31"
    using assms(1,2) by (simp only: tcp_stream_def)
  then have 1: "ok w' \<and> sent w' = sent w \<and> 0 \<le> sp \<and> sp \<le> int (space w') \<and> sp < 2 ^ 31" unfolding assms(3) by simp
  then show "sent w' = sent w" "0 \<le> sp" "sp \<le> int (space w')" "ok w'" "sp < 2 ^ 31" by simp_all
  from 1 show "unat (of_int sp :: u32) = nat sp" by (intro unat_of_int_small) simp_all
qed

lemma tcp_sendD:
  assumes "tcp_stream e s ok sent space" and "ok w" and "length d < 2 ^ 31" and "os_send e w s d = (r, w')"
  shows "ok w'" and "0 \<le> r \<Longrightarrow> nat r \<le> length d" and "0 \<le> r \<Longrightarrow> sent w' = sent w @ take (nat r) d"
    and "0 \<le> r \<Longrightarrow> length d \<le> space w \<Longrightarrow> sent w' = sent w @ d"
proof -
  have "let (r, w') = os_send e w s d in ok w' \<and>
      (if r < 0 then sent w' = sent w
       else nat r \<le> length d \<and> min (length d) (space w) \<le> nat r \<and> sent w' = sent w @ take (nat r) d)"
    using assms(1-3) by (simp only: tcp_stream_def)
  then have *: "ok w'" "0 \<le> r \<longrightarrow> nat r \<le> length d \<and> min (length d) (space w) \<le> nat r \<and> sent w' = sent w @ take (nat r) d"
    unfolding assms(4) by simp_all
  then show "ok w'" and "0 \<le> r \<Longrightarrow> nat r \<le> length d" and "0 \<le> r \<Longrightarrow> sent w' = sent w @ take (nat r) d"
    and "0 \<le> r \<Longrightarrow> length d \<le> space w \<Longrightarrow> sent w' = sent w @ d" by simp_all
qed

lemma tcp_selectD:
  assumes "tcp_stream e s ok sent space" and "ok w"
  shows "sent (os_FD_SET e w s b) = sent w" and "sent (os_FD_CLR e w s b) = sent w"
    and "sent (snd (os_issocketconnected e w s)) = sent w"
    and "ok (os_FD_SET e w s b)" and "ok (os_FD_CLR e w s b)" and "ok (snd (os_issocketconnected e w s))"
  using assms by (simp_all add: tcp_stream_def)

section \<open>Files\<close>

lemma take_drop_append: "a \<le> b \<Longrightarrow> b \<le> c \<Longrightarrow> take (b - a) (drop a xs) @ take (c - b) (drop b xs) = take (c - a) (drop a xs)"
proof -
  assume "a \<le> b" "b \<le> c"
  then have "c - a = (b - a) + (c - b)" "b = (b - a) + a" by simp_all
  then show ?thesis by (metis drop_drop take_add)
qed

text \<open>A loop that does not fail sends exactly the part of the file that the offset moves over.\<close>

lemma sendfile_loop_sent:
  assumes lib: "uni_lib_ok e" and fok: "file_ok f" and tcp: "tcp_stream e (cl_socket c) ok sent space"
    and "length (cl_buf_tx c) < 2 ^ 32" and "cl_file_offset c \<le> file_size f"
    and "sendfile_loop e f res c w = Some (r, c', w')" and "ok w" and "0 \<le> r"
  shows "ok w' \<and> cl_file_offset c \<le> cl_file_offset c' \<and> sent w' = sent w @
    take (unat (cl_file_offset c') - unat (cl_file_offset c)) (drop (unat (cl_file_offset c)) (file_data f))"
  using tcp assms(4-7)
proof (induction "unat (file_size f - cl_file_offset c)" arbitrary: c w res rule: less_induct)
  case less
  obtain sp w1 where sp: "os_tx_space e w (cl_socket c) = (sp, w1)" by (cases "os_tx_space e w (cl_socket c)")
  note tx = tcp_spaceD [OF less.prems(1,5) sp]
  show ?case
  proof (cases "sendfile_chunk f c sp = 0")
    case True
    then show ?thesis using sendfile_loop_end [OF lib sp True, of res] less.prems(4) tx(1,5) by simp
  next
    case False
    define n where "n = sendfile_chunk f c sp"
    obtain b c1 r1 w2 where t: "c1 = c\<lparr>cl_buf_tx := b, cl_file_offset := cl_file_offset c + n\<rparr>"
        "length b = length (cl_buf_tx c)"
        "os_send e w1 (cl_socket c) (take (unat n) (drop (unat (cl_file_offset c)) (file_data f))) = (r1, w2)"
        "sendfile_loop e f res c w = (if r1 < 0 then Some (r1, c1, w2) else sendfile_loop e f r1 c1 w2)"
        "unat (cl_file_offset c1) = unat (cl_file_offset c) + unat n" "cl_file_offset c1 \<le> file_size f"
        "unat (file_size f - cl_file_offset c1) < unat (file_size f - cl_file_offset c)"
      using sendfile_loop_turn [OF lib fok less.prems(2,3) sp n_def] False n_def by metis
    have r1: "0 \<le> r1" "sendfile_loop e f r1 c1 w2 = Some (r, c', w')"
      using t(4) less.prems(4) assms(8) by (auto split: if_splits)
    have n: "unat n \<le> nat sp" using tx(4) by (simp add: n_def sendfile_chunk_def unat_c_min3)
    then have "unat n \<le> space w1" using tx(3) by linarith
    moreover have "unat n < 2 ^ 31" using tx(2,6) by (intro le_less_trans [OF n]) (simp add: nat_less_iff)
    then have "length (take (unat n) (drop (unat (cl_file_offset c)) (file_data f))) < 2 ^ 31" by simp
    note send = tcp_sendD [OF less.prems(1) tx(5) this t(3)]
    ultimately have s2: "sent w2 = sent w @ take (unat n) (drop (unat (cl_file_offset c)) (file_data f))"
      using send(4) [OF r1(1)] tx(1) by simp
    have IH: "ok w' \<and> cl_file_offset c1 \<le> cl_file_offset c' \<and> sent w' = sent w2 @
        take (unat (cl_file_offset c') - unat (cl_file_offset c1)) (drop (unat (cl_file_offset c1)) (file_data f))"
      using less.hyps [OF t(7) _ _ t(6) r1(2) send(1)] less.prems(1,2) t(1,2) by simp
    then show ?thesis
      using s2 t(5) take_drop_append [of "unat (cl_file_offset c)" "unat (cl_file_offset c1)"
          "unat (cl_file_offset c')" "file_data f"]
      by (simp add: word_le_nat_alt)
  qed
qed

text \<open>
  One call of \<^verbatim>\<open>_http_server_cmd_get_sendfile\<close> that does not fail: the header, if it was not yet
  sent, then the part of the file up to the new offset.
\<close>

definition file_reply :: "http_file \<Rightarrow> string option \<Rightarrow> 'w http_client \<Rightarrow> string" where
  "file_reply f url c = http_header_text STATUS_OK
     (c\<lparr>cl_content_type := Some (http_server_content_type url), cl_content_length := file_size f\<rparr>)"

lemma file_reply_cong: "file_reply f url c = file_reply f url c'"
  by (simp add: file_reply_def http_header_text_def http_header_lines_def)

lemma sendfile_header:
  assumes env: "http_env_ok e" and ctx: "ctx_inv e ctx" and bufs: "client_bufs_ok e c"
    and tcp: "tcp_stream e (cl_socket c) ok sent space" "ok w" and room: "cl_header_sent c \<or> 224 \<le> space w"
  obtains r b c1 w1 where "(if \<not> cl_header_sent c
        then http_server_send_header e ctx (c\<lparr>cl_content_type := Some (http_server_content_type url),
               cl_content_length := file_size f\<rparr>) w STATUS_OK
        else Some (0, ctx, c, w)) = Some (r, ctx\<lparr>st_buf_tx_hdr := b\<rparr>, c1, w1)"
    and "client_bufs_ok e c1" and "cl_header_sent c1" and "ok w1"
    and "0 \<le> r \<longrightarrow> sent w1 = sent w @ (if cl_header_sent c then [] else file_reply f url c)"
    and "cl_file c1 = cl_file c" and "cl_socket c1 = cl_socket c" and "cl_file_offset c1 = cl_file_offset c"
    and "cl_command_type c1 = cl_command_type c"
proof (cases "cl_header_sent c")
  case True
  show thesis
    by (rule that [of 0 "st_buf_tx_hdr ctx" c w]) (use bufs True tcp(2) in simp_all)
next
  case False
  let ?c = "c\<lparr>cl_content_type := Some (http_server_content_type url), cl_content_length := file_size f\<rparr>"
  have b: "client_bufs_ok e ?c" using bufs content_type_range by (simp add: client_bufs_ok_def)
  obtain r b w' where h: "http_server_send_header e ctx ?c w STATUS_OK =
      Some (r, ctx\<lparr>st_buf_tx_hdr := b\<rparr>, ?c\<lparr>cl_header_sent := True\<rparr>, w')"
      "os_send e w (cl_socket c) (file_reply f url c) = (r, w')"
    by (rule send_headerE [OF env ctx b, of w STATUS_OK]) (simp add: file_reply_def)
  have len: "length (file_reply f url c) \<le> 224"
    unfolding file_reply_def by (rule http_header_text_length) (simp add: content_type_range)
  then have "length (file_reply f url c) < 2 ^ 31" by simp
  note send = tcp_sendD [OF tcp this h(2)]
  have "sent w' = sent w @ file_reply f url c" if "0 \<le> r"
    using send(4) [OF that] len room False by simp
  with h(1) b False send(1) show thesis
    by (intro that [of r b "?c\<lparr>cl_header_sent := True\<rparr>" w']) (simp_all add: client_bufs_ok_def)
qed

lemma sendfile_sent:
  assumes env: "http_env_ok e" and ctx: "ctx_inv e ctx" and bufs: "client_bufs_ok e c"
    and tcp: "tcp_stream e (cl_socket c) ok sent space" "ok w" and room: "cl_header_sent c \<or> 224 \<le> space w"
    and fl: "cl_file c = Some f" "file_ok f" "cl_file_offset c \<le> file_size f"
    and run: "http_server_cmd_get_sendfile e ctx c w url = Some (r, ctx', c', w')" "0 \<le> r"
  obtains off where "cl_file_offset c \<le> off" and "off \<le> file_size f"
    and "sent w' = sent w @ (if cl_header_sent c then [] else file_reply f url c) @
        take (unat off - unat (cl_file_offset c)) (drop (unat (cl_file_offset c)) (file_data f))"
    and "if file_size f \<le> off then cl_command_type c' = HTTP_COMMAND_UNKNOWN
         else cl_command_type c' = cl_command_type c \<and> cl_file c' = Some f \<and> cl_file_offset c' = off
           \<and> cl_header_sent c' \<and> client_bufs_ok e c'"
    and "cl_socket c' = cl_socket c" and "ok w'"
proof -
  obtain r1 b c1 w1 where h: "(if \<not> cl_header_sent c
        then http_server_send_header e ctx (c\<lparr>cl_content_type := Some (http_server_content_type url),
               cl_content_length := file_size f\<rparr>) w STATUS_OK
        else Some (0, ctx, c, w)) = Some (r1, ctx\<lparr>st_buf_tx_hdr := b\<rparr>, c1, w1)"
    and c1: "client_bufs_ok e c1" "cl_header_sent c1" and ok1: "ok w1" and c1s:
      "0 \<le> r1 \<longrightarrow> sent w1 = sent w @ (if cl_header_sent c then [] else file_reply f url c)"
      "cl_file c1 = cl_file c" "cl_socket c1 = cl_socket c" "cl_file_offset c1 = cl_file_offset c"
      "cl_command_type c1 = cl_command_type c"
    by (rule sendfile_header [OF env ctx bufs tcp room, of f url])
  note c1 = c1 c1s
  have lib: "uni_lib_ok e" and len: "length (cl_buf_tx c1) < 2 ^ 32"
    using env c1(1) by (simp_all add: http_env_ok_def client_bufs_ok_def)
  note loop = sendfile_loop_ok [OF lib fl(2) len]
  have r1: "0 \<le> r1" using run h by (auto simp: http_server_cmd_get_sendfile_def fl(1) Let_def split: if_splits)
  obtain b2 off w2 r2 where l: "sendfile_loop e f r1 c1 w1 = Some (r2, c1\<lparr>cl_buf_tx := b2, cl_file_offset := off\<rparr>, w2)"
    "length b2 = length (cl_buf_tx c1)" "off \<le> file_size f"
    using loop [of r1 w1] fl(3) c1(6) by auto
  define c2 where "c2 = c1\<lparr>cl_buf_tx := b2, cl_file_offset := off\<rparr>"
  have eq: "Some (r, ctx', c', w') = (if file_size f \<le> off
      then Some (r2, ctx\<lparr>st_buf_tx_hdr := b\<rparr>, http_server_client_clear c2, os_FD_CLR e w2 (cl_socket c) eSELECT_WRITE)
      else Some (r2, ctx\<lparr>st_buf_tx_hdr := b\<rparr>, c2, os_FD_SET e w2 (cl_socket c) eSELECT_WRITE))"
    unfolding run(1) [symmetric] http_server_cmd_get_sendfile_def
    by (simp add: fl(1) h l(1) r1 Let_def c1(5) flip: c2_def) (simp add: c2_def c1(5))
  have r2: "0 \<le> r2" using eq run(2) by (auto split: if_splits)
  have s2: "ok w2 \<and> cl_file_offset c1 \<le> off \<and> sent w2 = sent w1 @
      take (unat off - unat (cl_file_offset c1)) (drop (unat (cl_file_offset c1)) (file_data f))"
    using sendfile_loop_sent [where ok = ok and sent = sent and space = space, OF lib fl(2) _ len _ l(1) ok1 r2] tcp(1) c1 fl(3) by simp
  then have w': "ok w'" "sent w' = sent w2" using eq tcp_selectD [OF tcp(1), of w2] by (auto split: if_splits)
  have "client_bufs_ok e c2" using c1(1) l(2) by (simp add: c2_def client_bufs_ok_def)
  with s2 show thesis
    using eq w' c1 r1 l(3) fl(1)
    by (intro that [of off]) (auto simp: c2_def http_server_client_clear_def split: if_splits)
qed

text \<open>
  The life of one GET: \<^verbatim>\<open>_http_server_cmd_get_start\<close>, then the rounds of the select loop as long
  as the client is in the GET state and not dropped.  Between two rounds the outside world
  moves on (other clients, acknowledgements), but nobody else writes to the connection.
\<close>

inductive http_get_run ::
    "('w, 'ha, 'fa) http_env \<Rightarrow> ('w \<Rightarrow> bool) \<Rightarrow> ('w \<Rightarrow> char list) \<Rightarrow> string \<Rightarrow> http_file \<Rightarrow> 'w http_client \<Rightarrow> 'w \<Rightarrow>
     'w http_client \<Rightarrow> 'w \<Rightarrow> bool"
  for e ok sent url f c0 w0 where
    get_run_start: "ctx_inv e ctx \<Longrightarrow> find_handler e (cfg_handlers ctx) HTTP_COMMAND_GET url = None \<Longrightarrow>
      find_file e (cfg_files ctx) url = Some f \<Longrightarrow>
      http_server_cmd_get_start e ctx c0 w0 url = Some (r, ctx', c, w) \<Longrightarrow> 0 \<le> r \<Longrightarrow>
      http_get_run e ok sent url f c0 w0 c w"
  | get_run_other: "http_get_run e ok sent url f c0 w0 c w \<Longrightarrow> ok w' \<Longrightarrow> sent w' = sent w \<Longrightarrow>
      http_get_run e ok sent url f c0 w0 c w'"
  | get_run_next: "http_get_run e ok sent url f c0 w0 c w \<Longrightarrow> cl_command_type c = HTTP_COMMAND_GET \<Longrightarrow>
      ctx_inv e ctx \<Longrightarrow> http_server_client_work e ctx c w = Some (r, ctx', c', w') \<Longrightarrow> 0 \<le> r \<Longrightarrow>
      http_get_run e ok sent url f c0 w0 c' w'"

text \<open>
  The client during such a run, how far it has come in the file, and the stream it has written.
\<close>

definition get_state :: "('w, 'z) net_os_scheme \<Rightarrow> socket_t \<Rightarrow> http_file \<Rightarrow> 'w http_client \<Rightarrow> bool" where
  "get_state e s f c \<longleftrightarrow> cl_command_type c = HTTP_COMMAND_UNKNOWN
     \<or> cl_command_type c = HTTP_COMMAND_GET \<and> cl_file c = Some f \<and> file_ok f \<and> cl_file_offset c < file_size f
        \<and> cl_header_sent c \<and> client_bufs_ok e c \<and> cl_socket c = s"

definition get_pos :: "http_file \<Rightarrow> 'w http_client \<Rightarrow> u32" where
  "get_pos f c = (if cl_command_type c = HTTP_COMMAND_UNKNOWN then file_size f else cl_file_offset c)"

definition get_sent ::
    "('w, 'z) net_os_scheme \<Rightarrow> ('w \<Rightarrow> bool) \<Rightarrow> ('w \<Rightarrow> char list) \<Rightarrow> socket_t \<Rightarrow> http_file \<Rightarrow> char list \<Rightarrow> 'w http_client \<Rightarrow> 'w \<Rightarrow> bool" where
  "get_sent e ok sent s f pre c w \<longleftrightarrow> get_state e s f c \<and> ok w \<and> sent w = pre @ take (unat (get_pos f c)) (file_data f)"

lemma get_work:
  assumes "cl_command_type c = HTTP_COMMAND_GET" and "cl_file c = Some f"
    and "http_server_client_work e ctx c w = Some (r, ctx', c', w')" and "0 \<le> r"
  shows "http_server_cmd_get_sendfile e ctx c (snd (os_issocketconnected e w (cl_socket c))) None = Some (r, ctx', c', w')"
  using assms
  by (auto simp: http_server_client_work_def process_next_eq http_server_cmd_get_next_def
      split: prod.splits if_splits)

lemma get_next:
  assumes env: "http_env_ok e" and tcp: "tcp_stream e s ok sent space" "ok w" and ctx: "ctx_inv e ctx"
    and gs: "get_state e s f c" and get: "cl_command_type c = HTTP_COMMAND_GET"
    and run: "http_server_client_work e ctx c w = Some (r, ctx', c', w')" "0 \<le> r"
  shows "get_state e s f c'" and "get_pos f c \<le> get_pos f c'"
    and "sent w' = sent w @ take (unat (get_pos f c') - unat (get_pos f c)) (drop (unat (get_pos f c)) (file_data f))"
    and "ok w'"
proof -
  have c: "cl_file c = Some f" "file_ok f" "cl_file_offset c < file_size f" "cl_header_sent c" "client_bufs_ok e c"
    "cl_socket c = s"
    using gs get by (simp_all add: get_state_def)
  define w1 where "w1 = snd (os_issocketconnected e w (cl_socket c))"
  have w1: "sent w1 = sent w" "ok w1" using tcp_selectD(3,6) [OF tcp] c(6) by (simp_all add: w1_def)
  have tcp': "tcp_stream e (cl_socket c) ok sent space" using tcp(1) c(6) by simp
  have sf: "http_server_cmd_get_sendfile e ctx c w1 None = Some (r, ctx', c', w')"
    unfolding w1_def by (rule get_work [OF get c(1) run])
  obtain off where off: "cl_file_offset c \<le> off" "off \<le> file_size f"
    "sent w' = sent w1 @ (if cl_header_sent c then [] else file_reply f None c) @
        take (unat off - unat (cl_file_offset c)) (drop (unat (cl_file_offset c)) (file_data f))"
    "if file_size f \<le> off then cl_command_type c' = HTTP_COMMAND_UNKNOWN
         else cl_command_type c' = cl_command_type c \<and> cl_file c' = Some f \<and> cl_file_offset c' = off
           \<and> cl_header_sent c' \<and> client_bufs_ok e c'" "cl_socket c' = cl_socket c" "ok w'"
    by (rule sendfile_sent [OF env ctx c(5) tcp' w1(2) disjI1 [OF c(4)] c(1,2) less_imp_le [OF c(3)] sf run(2)])
  have pos: "get_pos f c' = off" "get_pos f c = cl_file_offset c"
    using off(2,4) get by (cases "file_size f \<le> off"; simp add: get_pos_def)+
  show "get_state e s f c'" using off get c by (cases "file_size f \<le> off") (simp_all add: get_state_def)
  show "get_pos f c \<le> get_pos f c'" using off(1) by (simp add: pos)
  show "sent w' = sent w @ take (unat (get_pos f c') - unat (get_pos f c)) (drop (unat (get_pos f c)) (file_data f))"
    using off(3) c(4) w1(1) by (simp add: pos)
  show "ok w'" by (rule off(6))
qed

lemma get_sent_next:
  assumes env: "http_env_ok e" and tcp: "tcp_stream e s ok sent space" and ctx: "ctx_inv e ctx"
    and gs: "get_sent e ok sent s f pre c w" and get: "cl_command_type c = HTTP_COMMAND_GET"
    and run: "http_server_client_work e ctx c w = Some (r, ctx', c', w')" "0 \<le> r"
  shows "get_sent e ok sent s f pre c' w'"
proof -
  have gs': "get_state e s f c" "ok w" "sent w = pre @ take (unat (get_pos f c)) (file_data f)"
    using gs by (simp_all add: get_sent_def)
  note n = get_next [OF env tcp gs'(2) ctx gs'(1) get run]
  show ?thesis
    using n gs'(3) take_drop_append [of 0 "unat (get_pos f c)" "unat (get_pos f c')" "file_data f"]
    by (simp add: get_sent_def word_le_nat_alt)
qed

lemma get_sent_start:
  assumes env: "http_env_ok e" and c0: "client_inv e c0" "cl_command_type c0 = HTTP_COMMAND_UNKNOWN"
    and tcp: "tcp_stream e (cl_socket c0) ok sent space" "ok w0" and room: "224 \<le> space w0" and ctx: "ctx_inv e ctx"
    and f: "find_handler e (cfg_handlers ctx) HTTP_COMMAND_GET url = None" "find_file e (cfg_files ctx) url = Some f"
    and run: "http_server_cmd_get_start e ctx c0 w0 url = Some (r, ctx', c, w)" "0 \<le> r"
  shows "get_sent e ok sent (cl_socket c0) f (sent w0 @ file_reply f (Some url) c0) c w"
proof -
  have i: "cl_file c0 = None" "cl_handler c0 = None" "cl_file_offset c0 = 0" "\<not> cl_header_sent c0"
    using c0 by (simp_all add: client_inv_def client_phase_ok_def)
  define c1 where "c1 = c0\<lparr>cl_command_type := HTTP_COMMAND_GET, cl_file := Some f\<rparr>"
  have c1: "client_bufs_ok e c1" "tcp_stream e (cl_socket c1) ok sent space" "ok w0" "cl_header_sent c1 \<or> 224 \<le> space w0"
    "cl_file c1 = Some f" "cl_file_offset c1 \<le> file_size f"
    using c0(1) tcp room i by (simp_all add: c1_def client_inv_def client_bufs_ok_def)
  have fok: "file_ok f" using find_file_ok [OF _ f(2)] ctx by (simp add: ctx_inv_def)
  have sf: "http_server_cmd_get_sendfile e ctx c1 w0 (Some url) = Some (r, ctx', c, w)"
    using run(1) i f by (simp add: http_server_cmd_get_start_def c1_def)
  obtain off where off: "cl_file_offset c1 \<le> off" "off \<le> file_size f"
    "sent w = sent w0 @ (if cl_header_sent c1 then [] else file_reply f (Some url) c1) @
        take (unat off - unat (cl_file_offset c1)) (drop (unat (cl_file_offset c1)) (file_data f))"
    "if file_size f \<le> off then cl_command_type c = HTTP_COMMAND_UNKNOWN
         else cl_command_type c = cl_command_type c1 \<and> cl_file c = Some f \<and> cl_file_offset c = off
           \<and> cl_header_sent c \<and> client_bufs_ok e c" "cl_socket c = cl_socket c1" "ok w"
    by (rule sendfile_sent [OF env ctx c1(1-5) fok c1(6) sf run(2)])
  have "sent w = (sent w0 @ file_reply f (Some url) c0) @ take (unat off) (file_data f)"
    using off(3) i file_reply_cong [of f "Some url" c0 c1] by (simp add: c1_def)
  with off fok show ?thesis
    by (cases "file_size f \<le> off") (simp_all add: get_sent_def get_state_def get_pos_def c1_def)
qed

lemma get_run_sent:
  assumes env: "http_env_ok e" and c0: "client_inv e c0" "cl_command_type c0 = HTTP_COMMAND_UNKNOWN"
    and tcp: "tcp_stream e (cl_socket c0) ok sent space" "ok w0" and room: "224 \<le> space w0"
    and run: "http_get_run e ok sent url f c0 w0 c w"
  shows "get_sent e ok sent (cl_socket c0) f (sent w0 @ file_reply f (Some url) c0) c w"
  using run
proof induction
  case (get_run_start ctx r ctx' c w)
  show ?case by (rule get_sent_start [OF env c0 tcp room get_run_start])
next
  case get_run_other
  then show ?case by (simp add: get_sent_def)
next
  case (get_run_next c w ctx r ctx' c' w')
  show ?case by (rule get_sent_next [OF env tcp(1) get_run_next(3,6,2,4,5)])
qed


text \<open>
  A round of a GET whose connection is up and whose transmit buffer has room moves the offset
  forward unless it fails.
\<close>

lemma get_progress:
  assumes env: "http_env_ok e" and gs: "get_state e s f c"
    and get: "cl_command_type c = HTTP_COMMAND_GET"
    and tcp: "tcp_stream e s ok sent space" "ok w"
    and up: "os_issocketconnected e w s = (x, w1)" "os_tx_space e w1 s = (sp, w2)" "0 < sp"
    and run: "http_server_client_work e ctx c w = Some (r, ctx', c', w')" "0 \<le> r"
  shows "get_pos f c < get_pos f c'"
proof -
  have f: "cl_file c = Some f" "file_ok f" "cl_file_offset c < file_size f" "cl_header_sent c" "client_bufs_ok e c"
    and s: "cl_socket c = s"
    using gs get by (simp_all add: get_state_def)
  have lib: "uni_lib_ok e" and len: "length (cl_buf_tx c) < 2 ^ 32" "0 < length (cl_buf_tx c)"
    using env f(5) by (auto simp: http_env_ok_def client_bufs_ok_def)
  have "ok w1" using tcp_selectD(6) [OF tcp] up(1) by simp
  note tx = tcp_spaceD [OF tcp(1) this up(2)]
  have pos: "0 < unat (sendfile_chunk f c sp)"
    using up(3) len f(3) tx(4) unat_sub_le [OF less_imp_le [OF f(3)]]
    by (simp add: sendfile_chunk_def unat_c_min3 word_less_nat_alt unat_of_nat_32)
  then have nz: "sendfile_chunk f c sp \<noteq> 0" by auto
  have sp: "os_tx_space e w1 (cl_socket c) = (sp, w2)" using up(2) s by simp
  obtain b c1 r1 w3 where t: "c1 = c\<lparr>cl_buf_tx := b, cl_file_offset := cl_file_offset c + sendfile_chunk f c sp\<rparr>"
      "length b = length (cl_buf_tx c)"
      "os_send e w2 (cl_socket c) (take (unat (sendfile_chunk f c sp)) (drop (unat (cl_file_offset c)) (file_data f))) = (r1, w3)"
      "sendfile_loop e f 0 c w1 = (if r1 < 0 then Some (r1, c1, w3) else sendfile_loop e f r1 c1 w3)"
      "unat (cl_file_offset c1) = unat (cl_file_offset c) + unat (sendfile_chunk f c sp)" "cl_file_offset c1 \<le> file_size f"
    using sendfile_loop_turn [OF lib f(2) len(1) less_imp_le [OF f(3)] sp refl nz] by metis
  obtain r2 b2 off w4 where l: "sendfile_loop e f 0 c w1 = Some (r2, c\<lparr>cl_buf_tx := b2, cl_file_offset := off\<rparr>, w4)"
    using sendfile_loop_ok [OF lib f(2) len(1) less_imp_le [OF f(3)]] by blast
  have sf: "http_server_cmd_get_sendfile e ctx c w1 None = Some (r, ctx', c', w')"
    using get_work [OF get f(1) run] up(1) s by simp
  have r2: "0 \<le> r2" and p: "get_pos f c' = (if file_size f \<le> off then file_size f else off)"
    using sf run(2) l f(1,4) get
    by (auto simp: http_server_cmd_get_sendfile_def get_pos_def http_server_client_clear_def split: if_splits)
  have r1: "0 \<le> r1" "sendfile_loop e f r1 c1 w3 = Some (r2, c\<lparr>cl_buf_tx := b2, cl_file_offset := off\<rparr>, w4)"
    using t(4) l r2 by (auto split: if_splits)
  have "unat (sendfile_chunk f c sp) \<le> nat sp" using tx(4) by (simp add: sendfile_chunk_def unat_c_min3)
  then have "unat (sendfile_chunk f c sp) < 2 ^ 31" by (rule le_less_trans) (use tx(2,6) in \<open>simp add: nat_less_iff\<close>)
  then have "length (take (unat (sendfile_chunk f c sp)) (drop (unat (cl_file_offset c)) (file_data f))) < 2 ^ 31" by simp
  then have "ok w3" by (rule tcp_sendD(1) [OF tcp(1) tx(5) _ t(3) [unfolded s]])
  then have "cl_file_offset c1 \<le> off"
    using sendfile_loop_sent [where ok = ok and sent = sent and space = space, OF lib f(2) _ _ t(6) r1(2) _ r2] tcp(1) s t(1,2) len(1) by simp
  moreover have "cl_file_offset c < cl_file_offset c1" using t(5) pos by (simp add: word_less_nat_alt)
  ultimately show ?thesis using f(3) get p by (simp add: get_pos_def split: if_splits)
qed

text \<open>
  \<open>k\<close> rounds of a GET in which the connection is up, the transmit buffer has room and nothing
  fails; the world before each of them is arbitrary, as long as the stack is \<open>ok\<close>.
\<close>

inductive http_get_rounds ::
    "('w, 'ha, 'fa) http_env \<Rightarrow> ('w \<Rightarrow> bool) \<Rightarrow> 'w http_client \<Rightarrow> nat \<Rightarrow> 'w http_client \<Rightarrow> bool" for e ok c0 where
    get_rounds_0: "http_get_rounds e ok c0 0 c0"
  | get_rounds_Suc: "http_get_rounds e ok c0 k c \<Longrightarrow> ok w \<Longrightarrow> cl_command_type c = HTTP_COMMAND_GET \<Longrightarrow> ctx_inv e ctx \<Longrightarrow>
      os_issocketconnected e w (cl_socket c) = (x, w1) \<Longrightarrow> os_tx_space e w1 (cl_socket c) = (sp, w2) \<Longrightarrow> 0 < sp \<Longrightarrow>
      http_server_client_work e ctx c w = Some (r, ctx', c', w') \<Longrightarrow> 0 \<le> r \<Longrightarrow>
      http_get_rounds e ok c0 (Suc k) c'"

lemma get_returns:
  assumes "http_env_ok e" and "ctx_inv e ctx" and "get_state e s f c" and "cl_command_type c = HTTP_COMMAND_GET"
  shows "http_server_client_work e ctx c w \<noteq> None"
proof -
  have c: "client_bufs_ok e c" "cl_file c = Some f" "file_ok f" "cl_file_offset c \<le> file_size f"
    using assms(3,4) by (auto simp: get_state_def)
  have "http_server_cmd_get_sendfile e ctx c w' None \<noteq> None" for w'
    using sendfile_ok [OF assms(1,2) c assms(4), of w' None] by (auto simp: step_ok_def)
  then show ?thesis
    using assms(4) c(2) by (simp add: http_server_client_work_def process_next_eq
        http_server_cmd_get_next_def split: prod.split)
qed

text \<open>
  C16.  A transfer ends: every round returns, a transfer takes at most as many rounds with room in
  the transmit buffer as the file has bytes left, and after that many the client is idle again.
\<close>

theorem http_get_terminates:
  assumes env: "http_env_ok e" and c0: "client_inv e c0" "cl_command_type c0 = HTTP_COMMAND_GET"
    "cl_header_sent c0" "cl_file c0 = Some f"
    and tcp: "tcp_stream e (cl_socket c0) ok sent space" and run: "http_get_rounds e ok c0 k c"
  shows "k \<le> unat (file_size f) - unat (cl_file_offset c0)
    \<and> (if k = unat (file_size f) - unat (cl_file_offset c0) then cl_command_type c = HTTP_COMMAND_UNKNOWN
       else cl_command_type c = HTTP_COMMAND_UNKNOWN \<or> (\<forall>ctx w. ctx_inv e ctx \<longrightarrow> http_server_client_work e ctx c w \<noteq> None))"
proof -
  let ?s = "cl_socket c0"
  have gs0: "get_state e ?s f c0"
    using c0 by (simp add: get_state_def client_inv_def client_phase_ok_def)
  have "get_state e ?s f c \<and> unat (cl_file_offset c0) + k \<le> unat (get_pos f c)" using run
  proof induction
    case get_rounds_0
    then show ?case using gs0 c0(2) by (simp add: get_pos_def)
  next
    case (get_rounds_Suc k c ctx w x w1 sp w2 r ctx' c' w')
    have gs: "get_state e ?s f c" using get_rounds_Suc.IH by simp
    then have s: "cl_socket c = ?s" using get_rounds_Suc(3) by (simp add: get_state_def)
    have "get_pos f c < get_pos f c'"
      using get_progress [OF env gs get_rounds_Suc(3) tcp get_rounds_Suc(2) _ _ get_rounds_Suc(7,8,9)] get_rounds_Suc(5,6) s by simp
    with get_next(1) [OF env tcp get_rounds_Suc(2,4) gs get_rounds_Suc(3,8,9)] get_rounds_Suc.IH
    show ?case by (simp add: word_less_nat_alt)
  qed
  then have gs: "get_state e ?s f c" and k: "unat (cl_file_offset c0) + k \<le> unat (get_pos f c)" by simp_all
  then have pos: "get_pos f c \<le> file_size f" "cl_command_type c \<noteq> HTTP_COMMAND_UNKNOWN \<longrightarrow> get_pos f c < file_size f"
    by (auto simp: get_state_def get_pos_def)
  have "cl_command_type c = HTTP_COMMAND_UNKNOWN \<or> http_server_client_work e ctx c w \<noteq> None" if "ctx_inv e ctx" for ctx w
    using get_returns [OF env that gs] gs by (auto simp: get_state_def)
  with pos k show ?thesis by (auto simp: word_less_nat_alt word_le_nat_alt)
qed

end
