(* ===== verification/Http_Upload.thy ===== *)
theory Http_Upload
  imports Http_Safety
begin

text \<open>
  The body of a POST: whatever part of it arrives with the header and in each later round, the
  handler is given the first \<^verbatim>\<open>Content-Length\<close> bytes behind the header, in order, and the rounds
  after the header take no further byte out of the connection.
\<close>

section \<open>The receive side of a connection and the handler\<close>

text \<open>
  \<open>rcvd\<close> is what has been taken out of the socket \<open>s\<close> so far and \<open>got\<close> what the handler has
  been given.  A reception appends the bytes it returns to the first; the other calls on the
  socket change neither.
\<close>

definition body_stream ::
    "('w, 'z) net_os_scheme \<Rightarrow> socket_t \<Rightarrow> ('w \<Rightarrow> char list) \<Rightarrow> ('w \<Rightarrow> char list) \<Rightarrow> bool" where
  "body_stream e s rcvd got \<longleftrightarrow>
     (\<forall>w n. let (r, d, w') = os_recv e w s n in rcvd w' = rcvd w @ (if 0 < r then d else []) \<and> got w' = got w)
   \<and> (\<forall>w d. rcvd (snd (os_send e w s d)) = rcvd w \<and> got (snd (os_send e w s d)) = got w)
   \<and> (\<forall>w. rcvd (snd (os_tx_space e w s)) = rcvd w \<and> got (snd (os_tx_space e w s)) = got w)
   \<and> (\<forall>w. rcvd (snd (os_issocketconnected e w s)) = rcvd w \<and> got (snd (os_issocketconnected e w s)) = got w)
   \<and> (\<forall>w b. rcvd (os_FD_SET e w s b) = rcvd w \<and> got (os_FD_SET e w s b) = got w)
   \<and> (\<forall>w b. rcvd (os_FD_CLR e w s b) = rcvd w \<and> got (os_FD_CLR e w s b) = got w)"

text \<open>The handler keeps every input it is called with and reads nothing from the socket itself.\<close>

definition handler_collects ::
    "'w http_handler_fn \<Rightarrow> ('w \<Rightarrow> char list) \<Rightarrow> ('w \<Rightarrow> char list) \<Rightarrow> bool" where
  "handler_collects fn rcvd got \<longleftrightarrow>
     (\<forall>w n input. let (ret, out, w') = fn w n input in
        rcvd w' = rcvd w \<and> got w' = got w @ (case input of None \<Rightarrow> [] | Some d \<Rightarrow> d))"

lemma body_recvD:
  assumes "body_stream e s rcvd got" and "os_recv e w s n = (r, d, w')"
  shows "rcvd w' = rcvd w @ (if 0 < r then d else [])" and "got w' = got w"
proof -
  have "let (r, d, w') = os_recv e w s n in rcvd w' = rcvd w @ (if 0 < r then d else []) \<and> got w' = got w"
    using assms(1) by (simp only: body_stream_def)
  then show "rcvd w' = rcvd w @ (if 0 < r then d else [])" "got w' = got w" by (simp_all add: assms(2))
qed

lemma body_keptD:
  assumes "body_stream e s rcvd got"
  shows "rcvd (snd (os_send e w s x)) = rcvd w" and "got (snd (os_send e w s x)) = got w"
    and "rcvd (snd (os_tx_space e w s)) = rcvd w" and "got (snd (os_tx_space e w s)) = got w"
    and "rcvd (snd (os_issocketconnected e w s)) = rcvd w" and "got (snd (os_issocketconnected e w s)) = got w"
    and "rcvd (os_FD_SET e w s b) = rcvd w" and "got (os_FD_SET e w s b) = got w"
    and "rcvd (os_FD_CLR e w s b) = rcvd w" and "got (os_FD_CLR e w s b) = got w"
  using assms by (simp_all add: body_stream_def)

lemma handler_collectsD:
  assumes "handler_collects fn rcvd got" and "fn w n input = (ret, out, w')"
  shows "rcvd w' = rcvd w" and "got w' = got w @ (case input of None \<Rightarrow> [] | Some d \<Rightarrow> d)"
proof -
  have "let (ret, out, w') = fn w n input in
        rcvd w' = rcvd w \<and> got w' = got w @ (case input of None \<Rightarrow> [] | Some d \<Rightarrow> d)"
    using assms(1) by (simp only: handler_collects_def)
  then show "rcvd w' = rcvd w" "got w' = got w @ (case input of None \<Rightarrow> [] | Some d \<Rightarrow> d)"
    by (simp_all add: assms(2))
qed

lemma send_header_body:
  assumes "body_stream e (cl_socket c) rcvd got"
    and "http_server_send_header e ctx c w st = Some (r, ctx', c', w')"
  shows "rcvd w' = rcvd w \<and> got w' = got w \<and> cl_socket c' = cl_socket c"
proof -
  obtain d where "w' = snd (os_send e w (cl_socket c) d)" and "cl_socket c' = cl_socket c"
    using assms(2) unfolding http_server_send_header_def Let_def
    by (auto simp: bind_eq_Some_conv split_beta split: if_splits)
  then show ?thesis using body_keptD [OF assms(1)] by simp
qed

lemma reply_body:
  assumes bs: "body_stream e (cl_socket c) rcvd got" and fn: "handler_collects fn rcvd got"
    and run: "http_server_reply e ctx c w fn None ct = Some (r, ctx', c', w')"
  shows "rcvd w' = rcvd w" and "got w' = got w" and "cl_socket c' = cl_socket c"
proof -
  obtain ret out w1 where f: "fn w (Some (length (cl_buf_tx c))) None = (ret, out, w1)"
    by (cases "fn w (Some (length (cl_buf_tx c))) None")
  obtain sp w2 where sp: "os_tx_space e w1 (cl_socket c) = (sp, w2)" by (cases "os_tx_space e w1 (cl_socket c)")
  obtain buf where mw: "mem_write (cl_buf_tx c) 0 out = Some buf"
    using run by (cases "mem_write (cl_buf_tx c) 0 out") (simp_all add: http_server_reply_def f)
  define c1 where "c1 = c\<lparr>cl_buf_tx := buf, cl_content_length := lib_min e (of_int sp) (of_int (sint ret)),
      cl_content_type := Some ct\<rparr>"
  obtain hdr ctx2 c2 w3 where h: "http_server_send_header e ctx c1 w2 STATUS_OK = Some (hdr, ctx2, c2, w3)"
    using run by (cases "http_server_send_header e ctx c1 w2 STATUS_OK")
      (auto simp: http_server_reply_def f sp mw c1_def)
  have s: "c' = c2 \<and> (w' = w3 \<or> (\<exists>d. w' = snd (os_send e w3 (cl_socket c2) d)))"
    using run h unfolding c1_def
    by (simp add: http_server_reply_def f sp mw) (auto simp: Let_def split_beta bind_eq_Some_conv split: if_splits)
  have 1: "rcvd w2 = rcvd w" "got w2 = got w"
    using handler_collectsD [OF fn f] body_keptD(3,4) [OF bs, of w1] sp by simp_all
  have 2: "rcvd w3 = rcvd w2 \<and> got w3 = got w2 \<and> cl_socket c2 = cl_socket c1"
    using send_header_body [OF _ h, of rcvd got] bs by (simp add: c1_def)
  have "rcvd w' = rcvd w3 \<and> got w' = got w3" using s body_keptD(1,2) [OF bs] 2 by (auto simp: c1_def)
  with 1 2 s show "rcvd w' = rcvd w" "got w' = got w" "cl_socket c' = cl_socket c" by (simp_all add: c1_def)
qed

section \<open>The life of one POST\<close>

text \<open>
  \<^verbatim>\<open>_http_server_cmd_post_start\<close> with the part of the body that came with the header, then the
  rounds of the select loop as long as the client is in the POST state.  In between the outside
  world moves on, but nobody else reads from the connection or calls the handler.
\<close>

inductive http_post_run ::
    "('w, 'ha, 'fa) http_env \<Rightarrow> ('w \<Rightarrow> char list) \<Rightarrow> ('w \<Rightarrow> char list) \<Rightarrow> string \<Rightarrow> char list \<Rightarrow> 'w http_handler \<Rightarrow>
     'w http_client \<Rightarrow> 'w \<Rightarrow> 'w http_client \<Rightarrow> 'w \<Rightarrow> bool"
  for e rcvd got url body h c0 w0 where
    post_run_start: "find_handler e (cfg_handlers ctx) HTTP_COMMAND_POST url = Some h \<Longrightarrow>
      length body \<le> 2 * cfg_MSS e \<Longrightarrow>
      http_server_cmd_post_start e ctx c0 w0 url body = Some (r, ctx', c, w) \<Longrightarrow>
      http_post_run e rcvd got url body h c0 w0 c w"
  | post_run_other: "http_post_run e rcvd got url body h c0 w0 c w \<Longrightarrow> rcvd w' = rcvd w \<Longrightarrow> got w' = got w \<Longrightarrow>
      http_post_run e rcvd got url body h c0 w0 c w'"
  | post_run_next: "http_post_run e rcvd got url body h c0 w0 c w \<Longrightarrow> cl_command_type c = HTTP_COMMAND_POST \<Longrightarrow>
      http_server_client_work e ctx c w = Some (r, ctx', c', w') \<Longrightarrow>
      http_post_run e rcvd got url body h c0 w0 c' w'"

text \<open>
  The invariant of such a run, for a content length \<open>n\<close>, a first part \<open>first\<close> of the body and
  the streams \<open>R\<close> and \<open>G\<close> before it.
\<close>

definition post_state ::
    "('w, 'z) net_os_scheme \<Rightarrow> socket_t \<Rightarrow> 'w http_handler \<Rightarrow> u32 \<Rightarrow> nat \<Rightarrow> 'w http_client \<Rightarrow> bool" where
  "post_state e s h n k c \<longleftrightarrow>
     (if cl_command_type c = HTTP_COMMAND_UNKNOWN then k = unat n
      else cl_command_type c = HTTP_COMMAND_POST \<and> cl_handler c = Some h \<and> cl_content_length c = n
        \<and> unat (cl_file_offset c) = k \<and> cl_file_offset c \<le> n \<and> cl_socket c = s \<and> client_bufs_ok e c)"

definition post_got ::
    "('w, 'z) net_os_scheme \<Rightarrow> ('w \<Rightarrow> char list) \<Rightarrow> ('w \<Rightarrow> char list) \<Rightarrow> socket_t \<Rightarrow> 'w http_handler \<Rightarrow> u32 \<Rightarrow>
     char list \<Rightarrow> char list \<Rightarrow> char list \<Rightarrow> 'w http_client \<Rightarrow> 'w \<Rightarrow> bool" where
  "post_got e rcvd got s h n first R G c w \<longleftrightarrow>
     (\<exists>x. rcvd w = R @ x \<and> got w = G @ first @ x \<and> post_state e s h n (length first + length x) c)"

lemma post_gotI:
  assumes "rcvd w = R @ x" and "got w = G @ first @ x" and "post_state e s h n (length first + length x) c"
  shows "post_got e rcvd got s h n first R G c w"
  using assms by (auto simp: post_got_def)

lemma post_got_next:
  assumes env: "http_env_ok e" and bs: "body_stream e s rcvd got"
    and h: "handler_function h = Some fn" "handler_collects fn rcvd got"
    and pg: "post_got e rcvd got s h n first R G c w" and post: "cl_command_type c = HTTP_COMMAND_POST"
    and run: "http_server_cmd_post_next e ctx c w = Some (r, ctx', c', w')"
  shows "post_got e rcvd got s h n first R G c' w'"
proof -
  obtain x where x: "rcvd w = R @ x" "got w = G @ first @ x" and ps: "post_state e s h n (length first + length x) c"
    using pg by (auto simp: post_got_def)
  have c: "cl_handler c = Some h" "cl_content_length c = n" "unat (cl_file_offset c) = length first + length x"
    "cl_file_offset c \<le> n" "cl_socket c = s" "client_bufs_ok e c"
    using ps post by (simp_all add: post_state_def)
  show ?thesis
  proof (cases "cl_file_offset c < n")
    case True
    then have lt: "cl_file_offset c < cl_content_length c" by (simp add: c(2))
    show ?thesis
    proof (rule post_next_recv [OF env c(6) c(1) h(1) lt, of w ctx])
      fix m r' d w1
      assume "os_recv e w (cl_socket c) m = (r', d, w1)" "r' \<le> 0" "http_server_cmd_post_next e ctx c w = Some (r', ctx, c, w1)"
      then show ?thesis using run x ps body_recvD [OF bs, of w m r' d w1] c(5) by (intro post_gotI [of _ _ _ x]) simp_all
    next
      fix m r' d w1 ret out w2 b k
      assume rv: "os_recv e w (cl_socket c) m = (r', d, w1)" "0 < r'" and f: "fn w1 None (Some d) = (ret, out, w2)"
        and b: "length b = length (cl_buf_rx c)" and eq: "http_server_cmd_post_next e ctx c w =
          Some (r', ctx, c\<lparr>cl_buf_rx := b, cl_file_offset := cl_file_offset c + k\<rparr>, w2)"
        and k: "cl_file_offset c + k \<le> cl_content_length c"
          "unat (cl_file_offset c + k) = unat (cl_file_offset c) + length d"
      have "post_state e s h n (length first + length (x @ d)) c'"
        using run eq c post k b by (auto simp: post_state_def client_bufs_ok_def)
      moreover have "rcvd w' = R @ x @ d" "got w' = G @ first @ x @ d"
        using run eq x handler_collectsD [OF h(2) f] body_recvD [OF bs, of w m r' d w1] rv c(5) by auto
      ultimately show ?thesis by (intro post_gotI [of _ _ _ "x @ d"]) simp_all
    qed
  next
    case False
    with c have n: "cl_file_offset c = cl_content_length c" by simp
    obtain r1 ctx1 c1 w1 where rp: "http_server_reply e ctx c w fn None ''text/plain'' = Some (r1, ctx1, c1, w1)"
      and eq: "c' = http_server_client_clear c1" "w' = os_FD_CLR e w1 (cl_socket c1) (or eSELECT_READ eSELECT_WRITE)"
      using run by (auto simp: post_next_end [OF c(1) h(1) n] bind_eq_Some_conv)
    have "rcvd w1 = rcvd w" "got w1 = got w" "cl_socket c1 = s"
      using reply_body [OF _ h(2) rp] bs c(5) by simp_all
    with x eq n c show ?thesis
      by (intro post_gotI [of _ _ _ x]) (simp_all add: body_keptD [OF bs] post_state_def http_server_client_clear_def)
  qed
qed

lemma post_got_start:
  assumes env: "http_env_ok e" and c0: "client_inv e c0" "cl_command_type c0 = HTTP_COMMAND_UNKNOWN"
    and bs: "body_stream e (cl_socket c0) rcvd got"
    and h: "handler_function h = Some fn" "handler_collects fn rcvd got"
    and len: "length body \<le> 2 * cfg_MSS e"
    and fh: "find_handler e (cfg_handlers ctx) HTTP_COMMAND_POST url = Some h"
    and run: "http_server_cmd_post_start e ctx c0 w0 url body = Some (r, ctx', c, w)"
    and n: "n = cl_content_length c0"
  shows "post_got e rcvd got (cl_socket c0) h n (take (unat n) body) (rcvd w0) (got w0) c w"
proof -
  have i: "cl_handler c0 = None" "cl_file_offset c0 = 0" using c0 by (simp_all add: client_inv_def client_phase_ok_def)
  define k where "k = post_initial (cl_content_length c0) body"
  define w1 where "w1 = (if 0 < k then snd (snd (fn w0 None (Some (take (unat k) body)))) else w0)"
  define c2 where "c2 = c0\<lparr>cl_command_type := HTTP_COMMAND_POST, cl_handler := Some h, cl_file_offset := k\<rparr>"
  have "length body < 2 ^ 32" using len env by (simp add: http_env_ok_def)
  note k = post_initial_le [OF this, of n, folded k_def [folded n]]
  have tk: "take (unat k) body = take (unat n) body" using k(1) by (simp add: min_def)
  have "rcvd w1 = rcvd w0 \<and> got w1 = got w0 @ take (unat n) body"
  proof (cases "0 < k")
    case True
    obtain ret out w' where f: "fn w0 None (Some (take (unat k) body)) = (ret, out, w')"
      by (cases "fn w0 None (Some (take (unat k) body))")
    with True handler_collectsD [OF h(2) f] tk show ?thesis by (simp add: w1_def)
  next
    case False
    then have "take (unat k) body = []" by (simp add: word_gt_0)
    with False tk show ?thesis by (simp add: w1_def)
  qed
  moreover have "post_state e (cl_socket c0) h n (length (take (unat n) body)) c2"
    using c0(1) k by (simp add: post_state_def c2_def n client_inv_def client_bufs_ok_def)
  ultimately have pg: "post_got e rcvd got (cl_socket c0) h n (take (unat n) body) (rcvd w0) (got w0) c2 w1"
    by (intro post_gotI [of _ _ _ "[]"]) simp_all
  note eq = post_start_handler [OF env i len fh h(1) k_def w1_def c2_def]
  show ?thesis
  proof (cases "cl_content_length c0 \<le> k")
    case True
    then have "http_server_cmd_post_next e ctx c2 w1 = Some (r, ctx', c, w)" using run eq by simp
    from post_got_next [OF env bs h pg _ this] show ?thesis by (simp add: c2_def)
  next
    case False
    then have "c = c2" "w = os_FD_SET e w1 (cl_socket c0) eSELECT_READ" using run eq by auto
    with pg show ?thesis by (simp add: post_got_def body_keptD [OF bs])
  qed
qed


end
