(* ===== verification/Http_Registry.thy ===== *)
theory Http_Registry
  imports Http_Safety
begin

text \<open>
  The two registries of the HTTP server: what a registration makes of the later look-ups, and
  what is answered when a path is in neither of them.  The arrays of \<^verbatim>\<open>uni_common_array_t\<close> are
  parameters; \<open>array_ok\<close> states their documented behaviour.
\<close>

section \<open>Registration and look-up\<close>

text \<open>
  \<^verbatim>\<open>uni_common_array_push_back\<close> appends one element and keeps the others, or reports a failure
  and changes nothing.
\<close>

definition array_ok ::
    "('a \<Rightarrow> bool) \<Rightarrow> ('a \<Rightarrow> nat) \<Rightarrow> ('a \<Rightarrow> nat \<Rightarrow> 'x) \<Rightarrow> ('a \<Rightarrow> 'x \<Rightarrow> bool \<times> 'a) \<Rightarrow> bool" where
  "array_ok valid size_of get_at push \<longleftrightarrow>
     (\<forall>a x. let (ok, a') = push a x in
        (if ok then valid a \<and> valid a' \<and> size_of a' = Suc (size_of a) \<and> get_at a' (size_of a) = x
            \<and> (\<forall>i < size_of a. get_at a' i = get_at a i)
         else a' = a))"

lemma array_push:
  assumes "array_ok valid size_of get_at push" and "push a x = (True, a')"
  shows "valid a" and "valid a'" and "map (get_at a') [0..<size_of a'] = map (get_at a) [0..<size_of a] @ [x]"
proof -
  have "let (ok, a') = push a x in
      (if ok then valid a \<and> valid a' \<and> size_of a' = Suc (size_of a) \<and> get_at a' (size_of a) = x
          \<and> (\<forall>i < size_of a. get_at a' i = get_at a i) else a' = a)"
    using assms(1) by (simp only: array_ok_def)
  then have *: "valid a" "valid a'" "size_of a' = Suc (size_of a)" "get_at a' (size_of a) = x"
    "\<forall>i < size_of a. get_at a' i = get_at a i" by (simp_all add: assms(2))
  then show "valid a" and "valid a'" by simp_all
  from * show "map (get_at a') [0..<size_of a'] = map (get_at a) [0..<size_of a] @ [x]" by simp
qed

lemma find_append_one:
  "find P (xs @ [x]) = (case find P xs of Some y \<Rightarrow> Some y | None \<Rightarrow> if P x then Some x else None)"
  by (induction xs) auto

text \<open>The two registries of an environment behave as documented.\<close>

definition registries_ok :: "('w, 'ha, 'fa) http_env \<Rightarrow> bool" where
  "registries_ok e \<longleftrightarrow> array_ok (handlers_valid e) (handlers_size e) (handlers_get e) (handlers_push e)
     \<and> array_ok (files_valid e) (files_size e) (files_get e) (files_push e)"

text \<open>
  C25.  A registered file is found under its path, and a registered handler under its command and
  its path; an entry registered earlier for the same key wins, every other look-up is as before,
  and neither registration touches the other registry.
\<close>

theorem http_registration:
  assumes reg: "registries_ok e"
    and rf: "uni_net_http_server_register_file_ex e (Some ctx) (Some path) (Some data) sz = (True, Some ctx1)"
    and rh: "uni_net_http_server_register_handler_ex e (Some ctx) cmd (Some path) (Some fn) = (True, Some ctx2)"
  shows "find_file e (cfg_files ctx1) url =
      (case find_file e (cfg_files ctx) url of Some f \<Rightarrow> Some f
       | None \<Rightarrow> if path = url then Some \<lparr>file_path = path, file_data = data, file_size = sz\<rparr> else None)
    \<and> find_handler e (cfg_handlers ctx1) c url = find_handler e (cfg_handlers ctx) c url
    \<and> find_handler e (cfg_handlers ctx2) c url =
      (case find_handler e (cfg_handlers ctx) c url of Some h \<Rightarrow> Some h
       | None \<Rightarrow> if cmd = c \<and> path = url
           then Some \<lparr>handler_path = path, handler_command = cmd, handler_function = Some fn\<rparr> else None)
    \<and> find_file e (cfg_files ctx2) url = find_file e (cfg_files ctx) url"
proof -
  let ?f = "\<lparr>file_path = path, file_data = data, file_size = sz\<rparr>"
  let ?h = "\<lparr>handler_path = path, handler_command = cmd, handler_function = Some fn\<rparr>"
  obtain fa where fa: "files_push e (cfg_files ctx) ?f = (True, fa)" "ctx1 = ctx\<lparr>cfg_files := fa\<rparr>"
    using rf by (auto simp: uni_net_http_server_register_file_ex_def uni_net_http_server_register_file_def split: prod.splits)
  obtain ha where ha: "handlers_push e (cfg_handlers ctx) ?h = (True, ha)" "ctx2 = ctx\<lparr>cfg_handlers := ha\<rparr>"
    using rh by (auto simp: uni_net_http_server_register_handler_ex_def uni_net_http_server_register_handler_def split: prod.splits)
  have ok: "array_ok (handlers_valid e) (handlers_size e) (handlers_get e) (handlers_push e)"
    "array_ok (files_valid e) (files_size e) (files_get e) (files_push e)"
    using reg by (simp_all add: registries_ok_def)
  note F = array_push [OF ok(2) fa(1)] and H = array_push [OF ok(1) ha(1)]
  have "find_file e fa url = (case find_file e (cfg_files ctx) url of Some f \<Rightarrow> Some f
       | None \<Rightarrow> if path = url then Some ?f else None)"
    unfolding find_file_def F(3) by (simp add: F(1,2) find_append_one)
  moreover have "find_handler e ha c url = (case find_handler e (cfg_handlers ctx) c url of Some h \<Rightarrow> Some h
       | None \<Rightarrow> if cmd = c \<and> path = url then Some ?h else None)"
    unfolding find_handler_def H(3) by (cases "cmd = c \<and> path = url") (auto simp: H(1,2) find_append_one)
  ultimately show ?thesis by (simp add: fa(2) ha(2))
qed

section \<open>Unknown paths\<close>

definition http_404 :: string where
  "http_404 = ''HTTP/1.1 404 Not Found'' @ [CR, LF] @ ''Content-Type: text/html'' @ [CR, LF]
     @ ''Cache-Control: no-store, no-cache, must-revalidate, max-age=0'' @ [CR, LF]
     @ ''Pragma: no-cache'' @ [CR, LF] @ ''Expires: 0'' @ [CR, LF] @ ''Connection: keep-alive'' @ [CR, LF]
     @ ''Content-Length: 0'' @ [CR, LF, CR, LF]"

lemma dec_string_404: "dec_string 404 = ''404''" "dec_string 0 = ''0''"
  by code_simp+

lemma header_404: "http_header_text STATUS_NOTFOUND (header_client STATUS_NOTFOUND c) = http_404"
  by (simp add: http_header_text_def http_header_lines_def header_client_def http_404_def dec_string_404)

lemma send_404:
  assumes "http_env_ok e" and "ctx_inv e ctx" and "client_bufs_ok e c"
    and "os_send e w (cl_socket c) http_404 = (r, w')"
  shows "\<exists>b c'. http_server_send_header e ctx c w STATUS_NOTFOUND = Some (r, ctx\<lparr>st_buf_tx_hdr := b\<rparr>, c', w')
    \<and> http_server_client_clear c' = http_server_client_clear c"
proof -
  obtain b where "http_server_send_header e ctx c w STATUS_NOTFOUND =
      Some (r, ctx\<lparr>st_buf_tx_hdr := b\<rparr>, (header_client STATUS_NOTFOUND c)\<lparr>cl_header_sent := True\<rparr>, w')"
    using send_header_ok [OF assms(1-3), of w STATUS_NOTFOUND] by (auto simp: header_404 assms(4))
  moreover have "http_server_client_clear ((header_client STATUS_NOTFOUND c)\<lparr>cl_header_sent := True\<rparr>) =
      http_server_client_clear c"
    by (simp add: http_server_client_clear_def header_client_def)
  ultimately show ?thesis by blast
qed

text \<open>
  C26.  A GET or a POST for a path that is not registered is answered with exactly one send, a
  complete 404 header without a body, and leaves the client idle.
\<close>

theorem http_unknown_path:
  assumes env: "http_env_ok e" and ctx: "ctx_inv e ctx"
    and c: "client_inv e c" "cl_command_type c = HTTP_COMMAND_UNKNOWN"
    and unknown: "find_handler e (cfg_handlers ctx) HTTP_COMMAND_GET url = None"
      "find_handler e (cfg_handlers ctx) HTTP_COMMAND_POST url = None" "find_file e (cfg_files ctx) url = None"
    and send: "os_send e w (cl_socket c) http_404 = (r, w')"
  shows "(\<exists>b. http_server_cmd_get_start e ctx c w url = Some (r, ctx\<lparr>st_buf_tx_hdr := b\<rparr>, http_server_client_clear c, w'))
    \<and> (\<exists>b. http_server_cmd_post_start e ctx c w url data = Some (r, ctx\<lparr>st_buf_tx_hdr := b\<rparr>, http_server_client_clear c, w'))"
proof -
  have i: "cl_file c = None" "cl_handler c = None" using c by (simp_all add: client_inv_def client_phase_ok_def)
  have cl: "client_bufs_ok e (c\<lparr>cl_command_type := m\<rparr>)" "os_send e w (cl_socket (c\<lparr>cl_command_type := m\<rparr>)) http_404 = (r, w')"
    "http_server_client_clear (c\<lparr>cl_command_type := m\<rparr>) = http_server_client_clear c" for m
    using c send by (simp_all add: client_inv_def client_bufs_ok_def http_server_client_clear_def)
  show ?thesis
    using send_404 [OF env ctx cl(1,2), of HTTP_COMMAND_GET] send_404 [OF env ctx cl(1,2), of HTTP_COMMAND_POST]
    by (auto simp: http_server_cmd_get_start_def http_server_cmd_post_start_def unknown i cl(3))
qed

section \<open>The client record\<close>

text \<open>
  C20.  Every round of the select loop keeps a client well-formed, on every branch, errors
  included: its buffers keep their sizes, the filled part of the receive buffer stays below its
  size, its content type is one of the MIME table, and its file, handler and offset fit its
  command.  The round changes nothing of the server but the header buffer, and the client stays
  on its socket.
\<close>

theorem http_client_typed:
  assumes "http_env_ok e" and "ctx_inv e ctx" and "client_inv e c"
  shows "\<exists>r b c' w'. http_server_client_work e ctx c w = Some (r, ctx\<lparr>st_buf_tx_hdr := b\<rparr>, c', w')
    \<and> ctx_inv e (ctx\<lparr>st_buf_tx_hdr := b\<rparr>) \<and> client_inv e c' \<and> cl_socket c' = cl_socket c"
proof -
  obtain r b c' w' where "http_server_client_work e ctx c w = Some (r, ctx\<lparr>st_buf_tx_hdr := b\<rparr>, c', w')"
    "length b = cfg_MSS e" "client_inv e c'" "cl_socket c' = cl_socket c"
    using client_work_ok [OF assms, of w] by (auto simp: work_ok_def)
  with assms(2) show ?thesis by (intro exI [of _ r] exI [of _ b] exI [of _ c'] exI [of _ w']) simp
qed

end
