(* ===== verification/Http_On_Tcp.thy ===== *)
theory Http_On_Tcp
  imports Http_Delivery Tcp_Select
begin

text \<open>
  The HTTP server on top of the TCP sockets: the parameters of the server that stand for
  \<^verbatim>\<open>FreeRTOS_send\<close>, \<^verbatim>\<open>FreeRTOS_recv\<close>, \<^verbatim>\<open>FreeRTOS_tx_space\<close>, \<^verbatim>\<open>FreeRTOS_issocketconnected\<close>, \<^verbatim>\<open>FreeRTOS_FD_SET\<close> and
  \<^verbatim>\<open>FreeRTOS_FD_CLR\<close> are instantiated by the model of these calls, and what the server delivers is what
  the peer acknowledges.
\<close>

section \<open>Sockets as the world of the server\<close>

text \<open>\<open>tw_acked\<close> are the bytes that the peer of a connection has acknowledged.\<close>

record 'k tcp_world = tcp_net +
  tw_acked :: "nat \<Rightarrow> char list"
  tw_kernel :: 'k

definition tw_sock :: "'k tcp_world \<Rightarrow> socket_t \<Rightarrow> tcp_socket option" where
  "tw_sock w s = (case s of Sock i \<Rightarrow> Some (tw_socks w i) | _ \<Rightarrow> None)"

definition tw_put :: "'k tcp_world \<Rightarrow> socket_t \<Rightarrow> tcp_socket option \<Rightarrow> 'k \<Rightarrow> 'k tcp_world" where
  "tw_put w s oso kw =
     (case (s, oso) of
        (Sock i, Some so) \<Rightarrow> w\<lparr>tw_socks := (tw_socks w)(i := so), tw_kernel := kw\<rparr>
      | _ \<Rightarrow> w\<lparr>tw_kernel := kw\<rparr>)"

text \<open>
  The six calls.  The parameters are total; a fault of a call, which the lemmas exclude for a
  well-formed socket, is an error here.
\<close>

definition tcp_os_send :: "'k tcp_rtos \<Rightarrow> 'k tcp_world \<Rightarrow> socket_t \<Rightarrow> char list \<Rightarrow> int \<times> 'k tcp_world" where
  "tcp_os_send k w s d =
     (case FreeRTOS_send k (tw_kernel w) (tw_sock w s) (Some d) (of_nat (length d)) 0 of
        None \<Rightarrow> (- k_EINVAL k, w) | Some (r, oso, kw) \<Rightarrow> (r, tw_put w s oso kw))"

definition tcp_os_recv :: "'k tcp_rtos \<Rightarrow> 'k tcp_world \<Rightarrow> socket_t \<Rightarrow> nat \<Rightarrow> int \<times> char list \<times> 'k tcp_world" where
  "tcp_os_recv k w s n =
     (case FreeRTOS_recv k (tw_kernel w) (tw_sock w s) True (of_nat n) 0 of
        None \<Rightarrow> (- k_EINVAL k, [], w) | Some (r, d, oso, kw) \<Rightarrow> (r, d, tw_put w s oso kw))"

definition tcp_os_tx_space :: "'k tcp_rtos \<Rightarrow> 'k tcp_world \<Rightarrow> socket_t \<Rightarrow> int \<times> 'k tcp_world" where
  "tcp_os_tx_space k w s = (case tw_sock w s of None \<Rightarrow> - k_EINVAL k | Some so \<Rightarrow> FreeRTOS_tx_space k so, w)"

definition tcp_os_connected :: "'k tcp_rtos \<Rightarrow> 'k tcp_world \<Rightarrow> socket_t \<Rightarrow> int \<times> 'k tcp_world" where
  "tcp_os_connected k w s = (case tw_sock w s of None \<Rightarrow> - k_EINVAL k | Some so \<Rightarrow> FreeRTOS_issocketconnected k so, w)"

type_synonym ('k, 'ha, 'fa) tcp_http_env = "('k tcp_world, 'ha, 'fa) http_env"

text \<open>\<open>ss\<close> is the socket set of the server.\<close>

type_synonym 'k sel_kernel = "('k, 'k tcp_world) sel_rtos"

definition sel_handle :: "socket_t \<Rightarrow> nat option" where
  "sel_handle s = (case s of Sock i \<Rightarrow> Some i | _ \<Rightarrow> None)"

definition tcp_os_FD_SET :: "'k tcp_rtos \<Rightarrow> 'k sel_kernel \<Rightarrow> nat \<Rightarrow> 'k tcp_world \<Rightarrow> socket_t \<Rightarrow> u32 \<Rightarrow> 'k tcp_world" where
  "tcp_os_FD_SET k g ss w s b =
     (case FreeRTOS_FD_SET k g w (tw_kernel w) (sel_handle s) (Some ss) b of
        None \<Rightarrow> w | Some (w', kw) \<Rightarrow> w'\<lparr>tw_kernel := kw\<rparr>)"

definition tcp_os_FD_CLR :: "nat \<Rightarrow> 'k tcp_world \<Rightarrow> socket_t \<Rightarrow> u32 \<Rightarrow> 'k tcp_world" where
  "tcp_os_FD_CLR ss w s b = (case FreeRTOS_FD_CLR w (sel_handle s) (Some ss) b of None \<Rightarrow> w | Some w' \<Rightarrow> w')"

definition on_tcp :: "'k tcp_rtos \<Rightarrow> 'k sel_kernel \<Rightarrow> nat \<Rightarrow> ('k, 'ha, 'fa) tcp_http_env \<Rightarrow> ('k, 'ha, 'fa) tcp_http_env" where
  "on_tcp k g ss e = e\<lparr>os_send := tcp_os_send k, os_recv := tcp_os_recv k, os_tx_space := tcp_os_tx_space k,
     os_issocketconnected := tcp_os_connected k, os_FD_SET := tcp_os_FD_SET k g ss, os_FD_CLR := tcp_os_FD_CLR ss\<rparr>"

section \<open>The laws of the server's environment\<close>

lemma get_length:
  assumes "uxStreamBufferGet b 0 True n False = Some (c, d, b')"
  shows "length d = unat c \<and> c \<le> n"
proof -
  define m where "m = c_min (uxStreamBufferGetSize b) n"
  define f where "f = c_min (sbLENGTH b - uxTail b) m"
  have le: "m \<le> n" "f \<le> m" by (simp_all add: m_def f_def c_min_def)
  have len: "length x = u" if "mem_read xs j u = Some x" for xs :: "'a list" and j u x
    using that by (auto simp: mem_read_def split: if_splits)
  have sz: "(if 0 < uxStreamBufferGetSize b then uxStreamBufferGetSize b - 0 else 0) = uxStreamBufferGetSize b"
    by (simp add: word_gt_0)
  have tl: "(if (0 :: size_t) \<noteq> 0 then x else y) = y" for x y :: size_t by simp
  show ?thesis
  proof (cases "m = 0")
    case True
    then show ?thesis using assms by (simp add: uxStreamBufferGet_def sz m_def Let_def)
  next
    case False
    obtain d1 where d1: "mem_read (ucArray b) (unat (uxTail b)) (unat f) = Some d1" "c = m"
      "(if f < m then do { d2 \<leftarrow> mem_read (ucArray b) 0 (unat (m - f)); Some (d1 @ d2) } else Some d1) = Some d"
      using assms False 
      unfolding uxStreamBufferGet_def Let_def sz tl m_def [symmetric] f_def [symmetric] by (auto simp: bind_eq_Some_conv)
    have "length d = unat m"
      using d1(3) len [OF d1(1)] len le(2) by (auto simp: bind_eq_Some_conv unat_sub word_le_nat_alt word_less_nat_alt split: if_splits)
    then show ?thesis using le d1(2) by simp
  qed
qed

lemma sint_pos:
  assumes "0 < sint (c :: u32)"
  shows "sint c = int (unat c)"
proof -
  have "uint c < 2 ^ 31"
  proof (rule ccontr)
    assume "\<not> uint c < 2 ^ 31"
    then have "signed_take_bit 31 (uint c) \<le> uint c - 2 ^ Suc 31" by (intro signed_take_bit_int_less_eq) simp
    moreover have "uint c < 2 ^ Suc 31" using uint_lt2p [of c] by simp
    ultimately show False using assms by (simp add: sint_uint)
  qed
  then show ?thesis by (intro sint_size) (simp add: word_less_def)
qed

lemma recv_length:
  assumes k: "rtos_ok k" and r: "FreeRTOS_recv k w oso True n 0 = Some (r, d, oso', w')"
  shows "r \<le> int (unat n) \<and> (0 < r \<longrightarrow> length d = nat r)"
proof -
  have neg: ?thesis if "r \<le> 0" using that order_trans [OF that of_nat_0_le_iff [of "unat n"]] by simp
  have "r \<le> 0 \<or> (\<exists>so so' w1. prvRecvData k w1 so True n 0 = Some (r, d, so', w'))"
    using r rtos_okD(1,5) [OF k]
    by (auto simp: FreeRTOS_recv_def FREERTOS_ZERO_COPY_def bind_eq_Some_conv split: if_splits)
  then show ?thesis
  proof
    assume "\<exists>so so' w1. prvRecvData k w1 so True n 0 = Some (r, d, so', w')"
    then obtain b c b' where g: "uxStreamBufferGet b 0 True n False = Some (c, d, b')" "r = sint c"
      by (auto simp: prvRecvData_def FREERTOS_ZERO_COPY_def FREERTOS_MSG_PEEK_def bind_eq_Some_conv Let_def split: if_splits)
    have "length d = unat c" "unat c \<le> unat n" using get_length [OF g(1)] by (simp_all add: word_le_nat_alt)
    moreover have "r = int (unat c)" if "0 < r" using sint_pos [of c] that g(2) by simp
    moreover have "int (unat c) \<le> int (unat n)" using calculation(2) by (simp only: of_nat_le_iff)
    ultimately show ?thesis using neg by (cases "r \<le> 0") simp_all
  qed (rule neg)
qed

lemma on_tcp_env_ok:
  assumes "rtos_ok k" and "http_env_ok e"
  shows "http_env_ok (on_tcp k g ss e)"
proof -
  have "r \<le> int n \<and> (0 < r \<longrightarrow> length d = nat r)" if "tcp_os_recv k w s n = (r, d, w')" for w s n r d w'
  proof (cases "FreeRTOS_recv k (tw_kernel w) (tw_sock w s) True (of_nat n) 0")
    case None
    then show ?thesis using that rtos_okD(1) [OF assms(1)] by (auto simp: tcp_os_recv_def)
  next
    case (Some x)
    moreover obtain r1 d1 oso kw where "x = (r1, d1, oso, kw)" by (cases x)
    ultimately have f: "FreeRTOS_recv k (tw_kernel w) (tw_sock w s) True (of_nat n) 0 = Some (r, d, oso, kw)"
      using that by (simp add: tcp_os_recv_def)
    have "unat (of_nat n :: size_t) \<le> n" by (simp add: unat_of_nat)
    then have "int (unat (of_nat n :: size_t)) \<le> int n" by (simp only: of_nat_le_iff)
    then show ?thesis using recv_length [OF assms(1) f] by (blast intro: order_trans)
  qed
  moreover have "uni_lib_ok (on_tcp k g ss e)" using assms(2) by (simp add: http_env_ok_def uni_lib_ok_def on_tcp_def)
  ultimately show ?thesis using assms(2) by (auto simp: http_env_ok_def recv_bounded_def on_tcp_def)
qed

text \<open>
  The transmit side of connection \<open>i\<close>: the socket is well formed, and what has been written to it
  is what the peer has acknowledged followed by what waits in the transmit stream.
\<close>

definition tcp_up :: "nat \<Rightarrow> 'k tcp_world \<Rightarrow> bool" where
  "tcp_up i w \<longleftrightarrow> sock_ok (tw_socks w i)"

definition tcp_out :: "nat \<Rightarrow> 'k tcp_world \<Rightarrow> char list" where
  "tcp_out i w = tw_acked w i @ tx_bytes (tw_socks w i)"

definition tcp_space :: "nat \<Rightarrow> 'k tcp_world \<Rightarrow> nat" where
  "tcp_space i w = tx_room (tw_socks w i)"

text \<open>
  While the server waits for the IP task to scan its sockets, the IP task may take bytes off the
  transmit stream that the peer acknowledges, and store bytes that arrive.
\<close>

definition ip_keeps :: "'k sel_kernel \<Rightarrow> nat \<Rightarrow> bool" where
  "ip_keeps g i \<longleftrightarrow> (\<forall>kw w q w' kw'. tcp_up i w \<longrightarrow> g_SendEventStruct g kw w = (q, w', kw') \<longrightarrow>
     tcp_up i w' \<and> tcp_out i w' = tcp_out i w)"

lemma scan_keeps:
  assumes "scan_rel w w'"
  shows "tcp_up i w' = tcp_up i w" and "tcp_out i w' = tcp_out i w"
proof -
  obtain u s where w': "w' = w\<lparr>tw_udp := u, tw_socks := s\<rparr>" "sel_same (tw_socks w i) (s i)" using assms unfolding scan_rel_def by blast
  note D = sel_sameD [OF w'(2)]
  show "tcp_up i w' = tcp_up i w" "tcp_out i w' = tcp_out i w" by (simp_all add: w'(1) tcp_up_def tcp_out_def D)
qed

lemma find_keeps:
  assumes ip: "ip_keeps g i" and up: "tcp_up i w" and f: "prvFindSelectedSocket k g w kw ss = (w', kw')"
  shows "tcp_up i w' \<and> tcp_out i w' = tcp_out i w"
proof -
  let ?k = "g_ClearBits g kw ss eSELECT_CALL_IP"
  obtain q w1 k1 where s: "g_SendEventStruct g ?k w = (q, w1, k1)" by (cases "g_SendEventStruct g ?k w")
  have 1: "tcp_up i w1" "tcp_out i w1 = tcp_out i w" using ip up s unfolding ip_keeps_def by blast+
  have "w' = w1 \<or> w' = fst (vSocketSelect k g w1 k1 ss)"
    using f s by (auto simp: prvFindSelectedSocket_def split: if_splits prod.splits)
  then show ?thesis using 1 scan_keeps [OF vSocketSelect_rel [of w1 k g k1 ss], of i] by auto
qed

lemma tcp_up_select:
  "tcp_up i (w\<lparr>tw_socks := (tw_socks w)(i := (tw_socks w i)\<lparr>xSelectBits := b, so_sel := x\<rparr>)\<rparr>) = tcp_up i w"
  "tcp_out i (w\<lparr>tw_socks := (tw_socks w)(i := (tw_socks w i)\<lparr>xSelectBits := b, so_sel := x\<rparr>)\<rparr>) = tcp_out i w"
  "tcp_up i (w\<lparr>tw_socks := (tw_socks w)(i := (tw_socks w i)\<lparr>xSelectBits := b\<rparr>)\<rparr>) = tcp_up i w"
  "tcp_out i (w\<lparr>tw_socks := (tw_socks w)(i := (tw_socks w i)\<lparr>xSelectBits := b\<rparr>)\<rparr>) = tcp_out i w"
  "tcp_up i (w\<lparr>tw_kernel := kw\<rparr>) = tcp_up i w" "tcp_out i (w\<lparr>tw_kernel := kw\<rparr>) = tcp_out i w"
  by (simp_all add: tcp_up_def tcp_out_def sock_ok_def sock_wf_def tx_bytes_def)

lemma tcp_os_FD_SET_ok:
  assumes ip: "ip_keeps g i" and up: "tcp_up i w"
  shows "tcp_up i (tcp_os_FD_SET k g ss w (Sock i) b) \<and> tcp_out i (tcp_os_FD_SET k g ss w (Sock i) b) = tcp_out i w"
proof -
  let ?b = "or (xSelectBits (tw_socks w i)) (and b eSELECT_ALL)"
  let ?w = "w\<lparr>tw_socks := (tw_socks w)(i := (tw_socks w i)\<lparr>xSelectBits := ?b, so_sel := so_sel (tw_socks w i)\<lparr>pxSocketSet := Some ss\<rparr>\<rparr>)\<rparr>"
  obtain w' kw where f: "prvFindSelectedSocket k g ?w (tw_kernel w) ss = (w', kw)" by (cases "prvFindSelectedSocket k g ?w (tw_kernel w) ss")
  have up1: "tcp_up i ?w" using up by (simp only: tcp_up_select)
  have 1: "tcp_up i w' \<and> tcp_out i w' = tcp_out i w" using find_keeps [OF ip up1 f] by (simp only: tcp_up_select)
  have "tcp_os_FD_SET k g ss w (Sock i) b = (if and ?b eSELECT_ALL \<noteq> 0 then w'\<lparr>tw_kernel := kw\<rparr>
      else (w\<lparr>tw_socks := (tw_socks w)(i := (tw_socks w i)\<lparr>xSelectBits := ?b\<rparr>)\<rparr>)\<lparr>tw_kernel := tw_kernel w\<rparr>)"
    using f by (simp add: tcp_os_FD_SET_def FreeRTOS_FD_SET_def sel_handle_def Let_def)
  then show ?thesis using 1 up by (simp only: tcp_up_select split: if_split) blast
qed

lemma tcp_os_FD_CLR_ok:
  "tcp_up i (tcp_os_FD_CLR ss w (Sock i) b) = tcp_up i w" "tcp_out i (tcp_os_FD_CLR ss w (Sock i) b) = tcp_out i w"
  unfolding tcp_os_FD_CLR_def FreeRTOS_FD_CLR_def sel_handle_def Let_def
  by (simp_all only: tcp_up_select socket_t.simps option.simps Option.bind.simps simp_thms)

lemma tcp_os_send_ok:
  assumes "rtos_ok k" and "tcp_up i w" and "length d < 2 ^ 31" and "tcp_os_send k w (Sock i) d = (r, w')"
  shows "tcp_up i w' \<and> (if r < 0 then tcp_out i w' = tcp_out i w
    else nat r \<le> length d \<and> min (length d) (tcp_space i w) \<le> nat r \<and> tcp_out i w' = tcp_out i w @ take (nat r) d)"
proof -
  have "sock_ok (tw_socks w i)" using assms(2) by (simp add: tcp_up_def)
  then obtain r1 so kw where f: "FreeRTOS_send k (tw_kernel w) (Some (tw_socks w i)) (Some d) (of_nat (length d)) 0 = Some (r1, Some so, kw)"
      "sent_ok (tw_socks w i) d r1 so"
    using send_ok [OF assms(1) _ assms(3)] by blast
  then have "r = r1" "w' = w\<lparr>tw_socks := (tw_socks w)(i := so), tw_kernel := kw\<rparr>"
    using assms(4) by (simp_all add: tcp_os_send_def tw_sock_def tw_put_def)
  then show ?thesis using f(2) by (simp add: sent_ok_def tcp_up_def tcp_out_def tcp_space_def split: if_splits)
qed

lemma on_tcp_stream:
  assumes k: "rtos_ok k" and ip: "ip_keeps g i"
  shows "tcp_stream (on_tcp k g ss e) (Sock i) (tcp_up i) (tcp_out i) (tcp_space i)"
proof -
  have "let (sp, w') = tcp_os_tx_space k w (Sock i)
      in tcp_up i w' \<and> tcp_out i w' = tcp_out i w \<and> 0 \<le> sp \<and> sp \<le> int (tcp_space i w') \<and> sp < 2 ^ 31" if "tcp_up i w" for w
    using that tx_space_room [of "tw_socks w i" k] by (simp add: tcp_os_tx_space_def tw_sock_def tcp_up_def tcp_space_def)
  moreover have "let (r, w') = tcp_os_send k w (Sock i) d in tcp_up i w' \<and> (if r < 0 then tcp_out i w' = tcp_out i w
      else nat r \<le> length d \<and> min (length d) (tcp_space i w) \<le> nat r \<and> tcp_out i w' = tcp_out i w @ take (nat r) d)"
    if "tcp_up i w" "length d < 2 ^ 31" for w d
    using tcp_os_send_ok [OF k that] by (cases "tcp_os_send k w (Sock i) d") simp
  moreover have "snd (tcp_os_connected k w s) = w" for w s by (simp add: tcp_os_connected_def)
  ultimately show ?thesis using tcp_os_FD_SET_ok [OF ip] by (simp add: tcp_stream_def on_tcp_def tcp_os_FD_CLR_ok)
qed

section \<open>A GET over TCP\<close>

text \<open>
  One GET on connection \<open>i\<close>, with the steps of the server and those of the IP task: the peer
  acknowledges bytes, payload arrives, and the other connections change in any way.
\<close>

inductive tcp_get_run ::
    "'k tcp_rtos \<Rightarrow> 'k sel_kernel \<Rightarrow> nat \<Rightarrow> ('k, 'ha, 'fa) tcp_http_env \<Rightarrow> nat \<Rightarrow> string \<Rightarrow> http_file \<Rightarrow> 'k tcp_world http_client \<Rightarrow> 'k tcp_world \<Rightarrow>
     'k tcp_world http_client \<Rightarrow> 'k tcp_world \<Rightarrow> bool"
  for k g ss e i url f c0 w0 where
    tcp_get_start: "ctx_inv (on_tcp k g ss e) ctx \<Longrightarrow>
      find_handler (on_tcp k g ss e) (cfg_handlers ctx) HTTP_COMMAND_GET url = None \<Longrightarrow>
      find_file (on_tcp k g ss e) (cfg_files ctx) url = Some f \<Longrightarrow>
      http_server_cmd_get_start (on_tcp k g ss e) ctx c0 w0 url = Some (r, ctx', c, w) \<Longrightarrow> 0 \<le> r \<Longrightarrow>
      tcp_get_run k g ss e i url f c0 w0 c w"
  | tcp_get_next: "tcp_get_run k g ss e i url f c0 w0 c w \<Longrightarrow> cl_command_type c = HTTP_COMMAND_GET \<Longrightarrow>
      ctx_inv (on_tcp k g ss e) ctx \<Longrightarrow> http_server_client_work (on_tcp k g ss e) ctx c w = Some (r, ctx', c', w') \<Longrightarrow> 0 \<le> r \<Longrightarrow>
      tcp_get_run k g ss e i url f c0 w0 c' w'"
  | tcp_get_ack: "tcp_get_run k g ss e i url f c0 w0 c w \<Longrightarrow> tcp_tx_acked k (tw_socks w i) n = Some so \<Longrightarrow>
      tcp_get_run k g ss e i url f c0 w0 c
        (w\<lparr>tw_socks := (tw_socks w)(i := so), tw_acked := (tw_acked w)(i := tw_acked w i @ take (unat n) (tx_bytes (tw_socks w i)))\<rparr>)"
  | tcp_get_arrive: "tcp_get_run k g ss e i url f c0 w0 c w \<Longrightarrow> length d < 2 ^ 31 \<Longrightarrow>
      lTCPAddRxdata k (tw_kernel w) (tw_socks w i) 0 (Some d) (of_nat (length d)) = Some (r, so, kw) \<Longrightarrow>
      tcp_get_run k g ss e i url f c0 w0 c (w\<lparr>tw_socks := (tw_socks w)(i := so), tw_kernel := kw\<rparr>)"
  | tcp_get_other: "tcp_get_run k g ss e i url f c0 w0 c w \<Longrightarrow> tw_socks w' i = tw_socks w i \<Longrightarrow> tw_acked w' i = tw_acked w i \<Longrightarrow>
      tcp_get_run k g ss e i url f c0 w0 c w'"

lemma tcp_get_run_http:
  assumes k: "rtos_ok k" "http_env_ok e" "ip_keeps g i"
    and c0: "client_inv (on_tcp k g ss e) c0" "cl_command_type c0 = HTTP_COMMAND_UNKNOWN" "cl_socket c0 = Sock i"
    and w0: "tcp_up i w0" "224 \<le> tcp_space i w0"
    and run: "tcp_get_run k g ss e i url f c0 w0 c w"
  shows "get_sent (on_tcp k g ss e) (tcp_up i) (tcp_out i) (Sock i) f (tcp_out i w0 @ file_reply f (Some url) c0) c w"
  using run
proof induction
  have env: "http_env_ok (on_tcp k g ss e)" by (rule on_tcp_env_ok [OF k(1,2)])
  have tcp: "tcp_stream (on_tcp k g ss e) (Sock i) (tcp_up i) (tcp_out i) (tcp_space i)" by (rule on_tcp_stream [OF k(1,3)])
  {
    case (tcp_get_start ctx r ctx' c w)
    show ?case using get_sent_start [OF env c0(1,2) tcp [folded c0(3)] w0 tcp_get_start] c0(3) by simp
  next
    case (tcp_get_next c w ctx r ctx' c' w')
    show ?case by (rule get_sent_next [OF env tcp tcp_get_next(3,6,2,4,5)])
  next
    case (tcp_get_ack c w n so)
    then have "sock_ok (tw_socks w i)" by (simp add: get_sent_def tcp_up_def)
    then have "sock_ok so" "tx_bytes so = drop (unat n) (tx_bytes (tw_socks w i))" using acked_ok [of "tw_socks w i" k n] tcp_get_ack(2) by auto
    then show ?case using tcp_get_ack(3) by (simp add: get_sent_def tcp_up_def tcp_out_def)
  next
    case (tcp_get_arrive c w d r so kw)
    then have "sock_ok (tw_socks w i)" by (simp add: get_sent_def tcp_up_def)
    then have "sock_ok so" "tx_bytes so = tx_bytes (tw_socks w i)"
      using deliver_ok [OF k(1) _ tcp_get_arrive(2), of "tw_socks w i" "tw_kernel w"] tcp_get_arrive(3) by auto
    then show ?case using tcp_get_arrive(4) by (simp add: get_sent_def tcp_up_def tcp_out_def)
  next
    case (tcp_get_other c w w')
    then show ?case by (simp add: get_sent_def tcp_up_def tcp_out_def)
  }
qed


end
