(* ===== verification/Loopback.thy ===== *)
theory Loopback
  imports Http_Delivery Http_Upload Http_Registry
begin

text \<open>
  One concrete environment, for the examples: a single connection whose peer has already sent
  \<open>lb_in\<close>, from which \<open>lb_rcvd\<close> has been read, whose transmit buffer has \<open>lb_space\<close> free bytes
  and to which \<open>lb_out\<close> has been written; a handler that keeps its input in \<open>lb_got\<close>; helpers
  that behave as documented, and registries that are lists.
\<close>

record loopback =
  lb_in :: "char list"
  lb_rcvd :: "char list"
  lb_got :: "char list"
  lb_out :: "char list"
  lb_space :: nat
  lb_open :: bool

definition lb_recv :: "loopback \<Rightarrow> socket_t \<Rightarrow> nat \<Rightarrow> int \<times> char list \<times> loopback" where
  "lb_recv w s n = (let d = take n (lb_in w)
      in (int (length d), d, w\<lparr>lb_in := drop n (lb_in w), lb_rcvd := lb_rcvd w @ d\<rparr>))"

definition lb_send :: "loopback \<Rightarrow> socket_t \<Rightarrow> char list \<Rightarrow> int \<times> loopback" where
  "lb_send w s d =
     (if lb_open w
      then let k = min (length d) (lb_space w)
           in (int k, w\<lparr>lb_out := lb_out w @ take k d, lb_space := lb_space w - k\<rparr>)
      else (- 128, w))"

definition lb_snprintf :: "nat \<Rightarrow> string \<Rightarrow> string \<times> nat" where
  "lb_snprintf n out = (take (n - 1) out, length out)"

type_synonym lb_http_env = "(loopback, loopback http_handler list, http_file list) http_env"
type_synonym lb_http_ctx = "(loopback, loopback http_handler list, http_file list) http_ctx"

definition lb_http :: lb_http_env where
  "lb_http = \<lparr>
     os_recv = lb_recv, os_send = lb_send, os_tx_space = (\<lambda>w s. (min 65535 (int (lb_space w)), w)),
     os_issocketconnected = (\<lambda>w s. (if lb_open w then 1 else 0, w)),
     os_FD_SET = (\<lambda>w s b. w), os_FD_CLR = (\<lambda>w s b. w), os_closesocket = (\<lambda>w s. w\<lparr>lb_open := False\<rparr>),
     os_select = (\<lambda>w. (1, w)),
     lib_min = c_min, lib_min3 = c_min3, lib_swap16 = swap16, lib_snprintf = lb_snprintf, cfg_MSS = 256,
     os_accept = (\<lambda>w s. (if lb_open w then (NULL_SOCKET, w) else (Sock 1, w\<lparr>lb_open := True\<rparr>))),
     os_IsNetworkUp = (\<lambda>w. (True, w)), os_CreateSocketSet = (\<lambda>w. w), os_socket = (\<lambda>w. (Sock 0, w)),
     os_setup = (\<lambda>w s opt. w), os_SignalSocket = (\<lambda>w s. w), os_SignalSocketFromISR = (\<lambda>w s. w), os_calloc = (\<lambda>w. (True, w)),
     os_xTaskCreate = (\<lambda>w. (True, w)),
     handlers_valid = (\<lambda>_. True), handlers_size = length, handlers_get = (!),
     handlers_push = (\<lambda>xs x. (True, xs @ [x])),
     files_valid = (\<lambda>_. True), files_size = length, files_get = (!), files_push = (\<lambda>xs x. (True, xs @ [x]))\<rparr>"

definition lb_file :: http_file where
  "lb_file = \<lparr>file_path = ''/a.txt'', file_data = ''hello'', file_size = 5\<rparr>"

definition lb_ctx :: lb_http_ctx where
  "lb_ctx = \<lparr>cfg_handlers = [], cfg_files = [lb_file], cfg_max_clients = 2, st_initialized = False,
     st_handle = False, st_socket = NULL_SOCKET, st_clients = None, st_buf_tx_hdr = []\<rparr>"

definition lb_start :: loopback where
  "lb_start = \<lparr>lb_in = ''GET /a.txt HTTP/1.1'' @ [CR, LF, CR, LF], lb_rcvd = [], lb_got = [], lb_out = [], lb_space = 400, lb_open = False\<rparr>"

lemma lb_lib_ok: "uni_lib_ok lb_http"
  by (simp add: uni_lib_ok_def lb_http_def lb_snprintf_def)

lemma lb_http_env_ok: "http_env_ok lb_http"
  using lb_lib_ok by (simp add: http_env_ok_def recv_bounded_def lb_http_def lb_recv_def Let_def)

lemma lb_calloc: "calloc_succeeds lb_http"
  by (simp add: calloc_succeeds_def lb_http_def)

lemma lb_registry: "registry_ok lb_http lb_ctx"
  by (simp add: registry_ok_def lb_http_def lb_ctx_def file_ok_def lb_file_def)

lemma lb_network: "wait_network lb_http w = Some w"
  by (subst wait_network.simps) (simp add: lb_http_def)


section \<open>One client of the loopback\<close>

definition lb_serving :: lb_http_ctx where
  "lb_serving = lb_ctx\<lparr>st_buf_tx_hdr := replicate 256 NUL\<rparr>"

definition lb_client :: "loopback http_client" where
  "lb_client = (http_client_zero lb_http)\<lparr>cl_socket := Sock 1\<rparr>"

definition lb_connected :: loopback where
  "lb_connected = lb_start\<lparr>lb_in := [], lb_open := True\<rparr>"

declare sendfile_loop.simps [code]

lemma lb_client_idle: "client_inv lb_http lb_client" "cl_command_type lb_client = HTTP_COMMAND_UNKNOWN"
  by (simp_all add: lb_client_def http_client_zero_def client_inv_def client_bufs_ok_def client_phase_ok_def lb_http_def)

lemma lb_serving_inv: "ctx_inv lb_http lb_serving"
  by (simp add: ctx_inv_def registry_ok_def lb_serving_def lb_http_def lb_ctx_def file_ok_def lb_file_def)

lemma lb_tcp_stream: "tcp_stream lb_http s (\<lambda>_. True) lb_out lb_space"
  by (simp add: tcp_stream_def lb_http_def lb_send_def Let_def min_def)

lemma lb_get_eval:
  "map_option (\<lambda>(r, ctx, c, w). (r, cl_command_type c)) (http_server_cmd_get_start lb_http lb_serving lb_client lb_connected ''/a.txt'')
   = Some (5, HTTP_COMMAND_UNKNOWN)"
  by code_simp


definition lb_sending :: "loopback http_client" where
  "lb_sending = lb_client\<lparr>cl_command_type := HTTP_COMMAND_GET, cl_file := Some lb_file, cl_header_sent := True\<rparr>"

definition lb_narrow :: loopback where
  "lb_narrow = lb_connected\<lparr>lb_space := 3\<rparr>"

lemma lb_work_eval:
  "map_option (\<lambda>(r, ctx, c, w). r) (http_server_client_work lb_http lb_serving lb_sending lb_narrow) = Some 3"
  by code_simp

theorem http_get_terminates_witness:
  "\<exists>c. http_get_rounds lb_http (\<lambda>_. True) lb_sending 1 c \<and> (1 :: nat) \<le> unat (file_size lb_file) - unat (cl_file_offset lb_sending)"
proof -
  obtain ctx' c w where g: "http_server_client_work lb_http lb_serving lb_sending lb_narrow = Some (3, ctx', c, w)"
    using lb_work_eval by auto
  have r: "http_get_rounds lb_http (\<lambda>_. True) lb_sending (Suc 0) c"
    by (rule get_rounds_Suc [OF get_rounds_0 TrueI _ lb_serving_inv _ _ _ g, where sp = 3 and x = 1 and ?w1.0 = lb_narrow and ?w2.0 = lb_narrow])
      (simp_all add: lb_sending_def lb_http_def lb_narrow_def lb_connected_def)
  have c: "client_inv lb_http lb_sending" "cl_command_type lb_sending = HTTP_COMMAND_GET" "cl_header_sent lb_sending"
    "cl_file lb_sending = Some lb_file"
    using lb_client_idle by (simp_all add: lb_sending_def client_inv_def client_bufs_ok_def client_phase_ok_def file_ok_def lb_file_def)
  show ?thesis using http_get_terminates [OF lb_http_env_ok c lb_tcp_stream r] r by auto
qed

section \<open>A handler that keeps its input\<close>

definition lb_keep :: "loopback http_handler_fn" where
  "lb_keep w n input = (0, [], w\<lparr>lb_got := lb_got w @ (case input of None \<Rightarrow> [] | Some d \<Rightarrow> d)\<rparr>)"

definition lb_hook :: "loopback http_handler" where
  "lb_hook = \<lparr>handler_path = ''/up'', handler_command = HTTP_COMMAND_POST, handler_function = Some lb_keep\<rparr>"

definition lb_posting :: lb_http_ctx where
  "lb_posting = lb_serving\<lparr>cfg_handlers := [lb_hook]\<rparr>"

definition lb_poster :: "loopback http_client" where
  "lb_poster = lb_client\<lparr>cl_content_length := 5\<rparr>"

definition lb_uploading :: loopback where
  "lb_uploading = lb_connected\<lparr>lb_in := ''cdeXY''\<rparr>"

lemma lb_body_stream: "body_stream lb_http s lb_rcvd lb_got"
  by (simp add: body_stream_def lb_http_def lb_recv_def lb_send_def Let_def)

lemma lb_keep_collects: "handler_collects lb_keep lb_rcvd lb_got"
  by (simp add: handler_collects_def lb_keep_def)

lemma lb_post_eval:
  "map_option (\<lambda>((r1, x1, c1, w1), (r2, x2, c2, w2), (r3, x3, c3, w3)). map cl_command_type [c1, c2, c3])
     (do { (r1, x1, c1, w1) \<leftarrow> http_server_cmd_post_start lb_http lb_posting lb_poster lb_uploading ''/up'' ''ab'';
           (r2, x2, c2, w2) \<leftarrow> http_server_client_work lb_http x1 c1 w1;
           (r3, x3, c3, w3) \<leftarrow> http_server_client_work lb_http x2 c2 w2;
           Some ((r1, x1, c1, w1), (r2, x2, c2, w2), (r3, x3, c3, w3)) })
   = Some [HTTP_COMMAND_POST, HTTP_COMMAND_POST, HTTP_COMMAND_UNKNOWN]"
  by code_simp


section \<open>The registries of the loopback\<close>

lemma lb_registries: "registries_ok lb_http"
  by (simp add: registries_ok_def array_ok_def lb_http_def nth_append)

theorem http_registration_witness:
  "find_file lb_http (cfg_files (lb_ctx\<lparr>cfg_files := [lb_file, \<lparr>file_path = ''/b'', file_data = ''x'', file_size = 1\<rparr>]\<rparr>)) ''/b''
     = Some \<lparr>file_path = ''/b'', file_data = ''x'', file_size = 1\<rparr>"
proof -
  have f: "uni_net_http_server_register_file_ex lb_http (Some lb_ctx) (Some ''/b'') (Some ''x'') 1 =
      (True, Some (lb_ctx\<lparr>cfg_files := [lb_file, \<lparr>file_path = ''/b'', file_data = ''x'', file_size = 1\<rparr>]\<rparr>))"
    by (simp add: uni_net_http_server_register_file_ex_def uni_net_http_server_register_file_def lb_http_def lb_ctx_def)
  have h: "uni_net_http_server_register_handler_ex lb_http (Some lb_ctx) HTTP_COMMAND_POST (Some ''/b'') (Some lb_keep) =
      (True, Some (lb_ctx\<lparr>cfg_handlers := [\<lparr>handler_path = ''/b'', handler_command = HTTP_COMMAND_POST,
        handler_function = Some lb_keep\<rparr>]\<rparr>))"
    by (simp add: uni_net_http_server_register_handler_ex_def uni_net_http_server_register_handler_def lb_http_def lb_ctx_def)
  have "find_file lb_http (cfg_files lb_ctx) ''/b'' = None"
    by (simp add: find_file_def lb_http_def lb_ctx_def lb_file_def)
  with http_registration [OF lb_registries f h, of "''/b''" HTTP_COMMAND_POST] show ?thesis by simp
qed

theorem http_unknown_path_witness:
  "\<exists>b. http_server_cmd_get_start lb_http lb_serving lb_client lb_connected ''/none'' =
    Some (fst (lb_send lb_connected (Sock 1) http_404), lb_serving\<lparr>st_buf_tx_hdr := b\<rparr>,
          http_server_client_clear lb_client, snd (lb_send lb_connected (Sock 1) http_404))"
proof -
  have u: "find_handler lb_http (cfg_handlers lb_serving) HTTP_COMMAND_GET ''/none'' = None"
    "find_handler lb_http (cfg_handlers lb_serving) HTTP_COMMAND_POST ''/none'' = None"
    "find_file lb_http (cfg_files lb_serving) ''/none'' = None"
    by (simp_all add: find_handler_def find_file_def lb_http_def lb_serving_def lb_ctx_def lb_file_def)
  have "os_send lb_http lb_connected (cl_socket lb_client) http_404 =
      (fst (lb_send lb_connected (Sock 1) http_404), snd (lb_send lb_connected (Sock 1) http_404))"
    by (simp add: lb_http_def lb_client_def)
  from http_unknown_path [OF lb_http_env_ok lb_serving_inv lb_client_idle u this] show ?thesis by blast
qed

theorem http_client_typed_witness:
  "\<exists>r b c' w'. http_server_client_work lb_http lb_serving lb_client lb_start = Some (r, lb_serving\<lparr>st_buf_tx_hdr := b\<rparr>, c', w')
    \<and> ctx_inv lb_http (lb_serving\<lparr>st_buf_tx_hdr := b\<rparr>) \<and> client_inv lb_http c' \<and> cl_socket c' = cl_socket lb_client"
  by (rule http_client_typed [OF lb_http_env_ok lb_serving_inv lb_client_idle(1)])

end
