(* ===== verification/Ftp_Client.thy ===== *)
theory Ftp_Client
  imports Net_Env
begin

text \<open>
  \<^verbatim>\<open>uni_net_ftp_client.[ch]\<close>: the reply handlers, the splitting of the command channel into lines,
  the data transfer, the task state machine, the client thread and the public functions.  As in
  the HTTP server, a result \<open>None\<close> is an access through an invalid pointer or an endless loop.
\<close>

section \<open>Types\<close>

datatype ftp_callback_type = CB_DISCONNECT | CB_RECV | CB_RECV_FINISHED | CB_RECV_FAILED

datatype ftp_reason =
    REASON_UNKNOWN | REASON_RESPONSE_ERR | REASON_WRONG_DATA | REASON_WRONG_CMD | REASON_MEMORY_ALLOC
  | REASON_NO_BYTES | REASON_TERMINATION | REASON_CONNECT | REASON_NETWORK | REASON_SOCKET

fun ftp_reason_code :: "ftp_reason \<Rightarrow> nat" where
  "ftp_reason_code REASON_UNKNOWN = 0"
| "ftp_reason_code REASON_RESPONSE_ERR = 1"
| "ftp_reason_code REASON_WRONG_DATA = 2"
| "ftp_reason_code REASON_WRONG_CMD = 3"
| "ftp_reason_code REASON_MEMORY_ALLOC = 4"
| "ftp_reason_code REASON_NO_BYTES = 5"
| "ftp_reason_code REASON_TERMINATION = 6"
| "ftp_reason_code REASON_CONNECT = 7"
| "ftp_reason_code REASON_NETWORK = 8"
| "ftp_reason_code REASON_SOCKET = 9"

datatype ftp_task_type = TYPE_STARTUP | TYPE_IDLE | TYPE_RETR | TYPE_LIST | TYPE_TERMINATION

text \<open>
  The enumeration of task states has two names for the value 4, \<^verbatim>\<open>REQUESTED\<close> and
  \<^verbatim>\<open>IN_PROGRESS\<close>; they are one constructor with a second name.
\<close>

datatype ftp_task_state =
    STATE_NOT_STARTED | STATE_SWITCH_TO_PASV | STATE_STARTED | STATE_IN_PROGRESS | STATE_FINISHED | STATE_FAILED

abbreviation STATE_REQUESTED :: ftp_task_state where
  "STATE_REQUESTED \<equiv> STATE_IN_PROGRESS"

record ftp_task =
  tk_type :: ftp_task_type
  tk_state :: ftp_task_state
  tk_cookie_file :: "nat option"
  tk_progress :: u32
  tk_progress_total :: u32
  tk_name :: "char list"

type_synonym 'w ftp_callback = "'w \<Rightarrow> ftp_task \<Rightarrow> ftp_callback_type \<Rightarrow> char list option \<Rightarrow> nat \<Rightarrow> 'w"

record 'w ftp_ctx =
  cf_server_addr :: u32
  cf_server_port :: u16
  cf_timeout_rx :: u32
  cf_timeout_tx :: u32
  cf_auth_user :: string
  cf_auth_password :: string
  fs_thread :: bool
  fs_socket_set :: bool
  fs_socket_cmd :: socket_t
  fs_socket_data :: socket_t
  fs_task :: ftp_task
  fs_callback :: "'w ftp_callback option"

datatype ftp_sockopt = FO_WIN_PROPERTIES nat nat nat nat | FO_RCVTIMEO u32 | FO_SNDTIMEO u32

record 'w ftp_env = "'w net_os" +
  fos_CreateSocketSet :: "'w \<Rightarrow> bool \<times> 'w"
  fos_DeleteSocketSet :: "'w \<Rightarrow> 'w"
  fos_socket :: "'w \<Rightarrow> socket_t \<times> 'w"
  fos_setsockopt :: "'w \<Rightarrow> socket_t \<Rightarrow> ftp_sockopt \<Rightarrow> 'w"
  fos_connect :: "'w \<Rightarrow> socket_t \<Rightarrow> u32 \<Rightarrow> u16 \<Rightarrow> int \<times> 'w"
  fos_recvcount :: "'w \<Rightarrow> socket_t \<Rightarrow> int \<times> 'w"
  fos_recv_zerocopy :: "'w \<Rightarrow> socket_t \<Rightarrow> nat \<Rightarrow> int \<times> char list option \<times> 'w"
  fos_ReleaseTCPPayloadBuffer :: "'w \<Rightarrow> socket_t \<Rightarrow> nat \<Rightarrow> 'w"
  fos_FD_ISSET :: "'w \<Rightarrow> socket_t \<Rightarrow> bool \<times> 'w"
  fos_IsNetworkUp :: "'w \<Rightarrow> bool \<times> 'w"
  fos_calloc :: "'w \<Rightarrow> bool \<times> 'w"
  fos_xTaskCreate :: "'w \<Rightarrow> bool \<times> 'w"

section \<open>The C library\<close>

definition c_isspace :: "char \<Rightarrow> bool" where
  "c_isspace c \<longleftrightarrow> c \<in> {SPC, TAB, LF, CHR 0x0B, CHR 0x0C, CR}"

definition digit_value :: "char \<Rightarrow> int" where
  "digit_value c = int (of_char c) - 48"

definition digits_value :: "string \<Rightarrow> int" where
  "digits_value ds = foldl (\<lambda>v c. v * 10 + digit_value c) 0 ds"

text \<open>
  \<^verbatim>\<open>strtol(s, &end, 10)\<close> with a 32-bit \<^verbatim>\<open>long\<close>: the value, saturated, and the number of
  characters consumed, 0 when there is no number.
\<close>

definition c_strtol :: "string \<Rightarrow> int \<times> nat" where
  "c_strtol s =
     (let blanks = takeWhile c_isspace s;
          s1 = dropWhile c_isspace s;
          sign = (s1 \<noteq> [] \<and> (hd s1 = CHR ''-'' \<or> hd s1 = CHR ''+''));
          s2 = (if sign then tl s1 else s1);
          ds = takeWhile c_isdigit s2;
          v = (if sign \<and> hd s1 = CHR ''-'' then - digits_value ds else digits_value ds)
      in if ds = [] then (0, 0)
         else (max (- 2147483648) (min 2147483647 v),
               length blanks + (if sign then 1 else 0) + length ds))"

text \<open>\<^verbatim>\<open>strchr(s, c)\<close>: the string behind the first \<open>c\<close>, if there is one.\<close>

fun c_strchr :: "string \<Rightarrow> char \<Rightarrow> string option" where
  "c_strchr [] c = None"
| "c_strchr (x # xs) c = (if x = c then Some xs else c_strchr xs c)"

section \<open>Helpers\<close>

definition startup_cmds :: "string list" where
  "startup_cmds = [''OPTS UTF8 ON'' @ [CR, LF], ''TYPE I'' @ [CR, LF], ''PWD'' @ [CR, LF]]"

definition ftp_send_cmd :: "'w ftp_env \<Rightarrow> 'w ftp_ctx \<Rightarrow> 'w \<Rightarrow> string option \<Rightarrow> bool \<times> 'w" where
  "ftp_send_cmd e ctx w cmd =
     (case cmd of
        None \<Rightarrow> (False, w)
      | Some c \<Rightarrow> (let (r, w) = os_send e w (fs_socket_cmd ctx) c in (r = int (length c), w)))"

definition ftp_switch_to_passive :: "'w ftp_env \<Rightarrow> 'w ftp_ctx \<Rightarrow> 'w \<Rightarrow> bool \<times> 'w" where
  "ftp_switch_to_passive e ctx w = ftp_send_cmd e ctx w (Some (''PASV'' @ [CR, LF]))"

definition ftp_list_files :: "'w ftp_env \<Rightarrow> 'w ftp_ctx \<Rightarrow> 'w \<Rightarrow> bool \<times> 'w" where
  "ftp_list_files e ctx w = ftp_send_cmd e ctx w (Some (''LIST'' @ [CR, LF]))"

text \<open>The three commands built in \<^verbatim>\<open>char data[64]\<close>.\<close>

definition ftp_send_printf :: "'w ftp_env \<Rightarrow> 'w ftp_ctx \<Rightarrow> 'w \<Rightarrow> string \<Rightarrow> bool \<times> 'w" where
  "ftp_send_printf e ctx w out =
     (let (stored, ret) = lib_snprintf e 64 out
      in ftp_send_cmd e ctx w (Some (c_string (stored @ [NUL]) 0)))"

definition ftp_retr_file :: "'w ftp_env \<Rightarrow> 'w ftp_ctx \<Rightarrow> 'w \<Rightarrow> string \<Rightarrow> bool \<times> 'w" where
  "ftp_retr_file e ctx w name = ftp_send_printf e ctx w (''RETR '' @ name @ [CR, LF])"

definition ftp_send_login :: "'w ftp_env \<Rightarrow> 'w ftp_ctx \<Rightarrow> 'w \<Rightarrow> bool \<times> 'w" where
  "ftp_send_login e ctx w = ftp_send_printf e ctx w (''USER '' @ cf_auth_user ctx @ [CR, LF])"

definition ftp_send_password :: "'w ftp_env \<Rightarrow> 'w ftp_ctx \<Rightarrow> 'w \<Rightarrow> bool \<times> 'w" where
  "ftp_send_password e ctx w = ftp_send_printf e ctx w (''PASS '' @ cf_auth_password ctx @ [CR, LF])"

definition ftp_set_task :: "(ftp_task \<Rightarrow> ftp_task) \<Rightarrow> 'w ftp_ctx \<Rightarrow> 'w ftp_ctx" where
  "ftp_set_task f ctx = ctx\<lparr>fs_task := f (fs_task ctx)\<rparr>"

definition ftp_idle_task :: "ftp_task \<Rightarrow> ftp_task" where
  "ftp_idle_task t =
     t\<lparr>tk_type := TYPE_IDLE, tk_state := STATE_FINISHED, tk_cookie_file := None, tk_progress := 0,
       tk_progress_total := 0, tk_name := (tk_name t)[0 := NUL]\<rparr>"

definition ftp_close_data :: "'w ftp_env \<Rightarrow> 'w ftp_ctx \<Rightarrow> 'w \<Rightarrow> 'w ftp_ctx \<times> 'w" where
  "ftp_close_data e ctx w =
     (if fs_socket_data ctx \<noteq> NULL_SOCKET
      then (ctx\<lparr>fs_socket_data := NULL_SOCKET\<rparr>, os_closesocket e w (fs_socket_data ctx)) else (ctx, w))"

definition ftp_set_to_idle :: "'w ftp_env \<Rightarrow> 'w ftp_ctx \<Rightarrow> 'w \<Rightarrow> 'w ftp_ctx \<times> 'w" where
  "ftp_set_to_idle e ctx w = (let (ctx, w) = ftp_close_data e ctx w in (ftp_set_task ftp_idle_task ctx, w))"

definition ftp_call :: "'w ftp_ctx \<Rightarrow> 'w \<Rightarrow> ftp_callback_type \<Rightarrow> char list option \<Rightarrow> nat \<Rightarrow> 'w" where
  "ftp_call ctx w ty data n = (case fs_callback ctx of None \<Rightarrow> w | Some cb \<Rightarrow> cb w (fs_task ctx) ty data n)"

section \<open>Connection\<close>

datatype ftp_channel = CH_CMD | CH_DATA

fun ftp_set_socket :: "ftp_channel \<Rightarrow> socket_t \<Rightarrow> 'w ftp_ctx \<Rightarrow> 'w ftp_ctx" where
  "ftp_set_socket CH_CMD s ctx = ctx\<lparr>fs_socket_cmd := s\<rparr>"
| "ftp_set_socket CH_DATA s ctx = ctx\<lparr>fs_socket_data := s\<rparr>"

text \<open>The socket options: the windows of a data connection and the two timeouts.\<close>

definition ftp_setup_socket :: "'w ftp_env \<Rightarrow> 'w ftp_ctx \<Rightarrow> 'w \<Rightarrow> socket_t \<Rightarrow> u16 \<Rightarrow> 'w" where
  "ftp_setup_socket e ctx w s port =
     (let w = (if port \<noteq> cf_server_port ctx
               then fos_setsockopt e w s (FO_WIN_PROPERTIES (20 * cfg_MSS e) 10 (4 * cfg_MSS e) 2) else w);
          w = (if 0 < cf_timeout_rx ctx then fos_setsockopt e w s (FO_RCVTIMEO (cf_timeout_rx ctx)) else w)
      in (if 0 < cf_timeout_tx ctx then fos_setsockopt e w s (FO_SNDTIMEO (cf_timeout_tx ctx)) else w))"

text \<open>\<^verbatim>\<open>FD_SET\<close> on a \<^verbatim>\<open>NULL\<close> set does not return.\<close>

definition ftp_connect_socket ::
    "'w ftp_env \<Rightarrow> 'w ftp_ctx \<Rightarrow> 'w \<Rightarrow> ftp_channel \<Rightarrow> u16 \<Rightarrow> (bool \<times> 'w ftp_ctx \<times> 'w) option" where
  "ftp_connect_socket e ctx w ch port =
     (let (ctx, w) = (if \<not> fs_socket_set ctx
                      then (let (ok, w) = fos_CreateSocketSet e w in (ctx\<lparr>fs_socket_set := ok\<rparr>, w))
                      else (ctx, w));
          (s, w) = fos_socket e w;
          ctx = ftp_set_socket ch s ctx
      in if s \<noteq> NULL_SOCKET
         then let w = ftp_setup_socket e ctx w s port;
                  (r, w) = fos_connect e w s (cf_server_addr ctx) (lib_swap16 e port)
              in if r = 0
                 then (if fs_socket_set ctx then Some (True, ctx, os_FD_SET e w s eSELECT_READ) else None)
                 else Some (False, ctx, w)
         else Some (False, ctx, w))"

definition ftp_disconnect :: "'w ftp_env \<Rightarrow> 'w ftp_ctx \<Rightarrow> 'w \<Rightarrow> bool \<Rightarrow> ftp_reason \<Rightarrow> 'w ftp_ctx \<times> 'w" where
  "ftp_disconnect e ctx w call_callback reason =
     (let (ctx, w) = ftp_close_data e ctx w;
          (ctx, w) = (if fs_socket_cmd ctx \<noteq> NULL_SOCKET
                      then (ctx\<lparr>fs_socket_cmd := NULL_SOCKET\<rparr>, os_closesocket e w (fs_socket_cmd ctx)) else (ctx, w));
          (ctx, w) = (if fs_socket_set ctx then (ctx\<lparr>fs_socket_set := False\<rparr>, fos_DeleteSocketSet e w) else (ctx, w));
          w = (if call_callback then ftp_call ctx w CB_DISCONNECT None (ftp_reason_code reason) else w)
      in (ftp_set_task (\<lambda>t. t\<lparr>tk_type := TYPE_TERMINATION\<rparr>) ctx, w))"

section \<open>Reply handlers\<close>

definition ftp_handler_150 :: "'w ftp_env \<Rightarrow> 'w ftp_ctx \<Rightarrow> 'w \<Rightarrow> string option \<Rightarrow> 'w ftp_ctx \<times> 'w" where
  "ftp_handler_150 e ctx w ostr =
     (case ostr of
        None \<Rightarrow> ftp_set_to_idle e ctx w
      | Some str \<Rightarrow>
          (case c_strchr str (CHR ''('') of
             Some s \<Rightarrow> (ftp_set_task (\<lambda>t. t\<lparr>tk_progress_total := of_int (fst (c_strtol s))\<rparr>) ctx, w)
           | None \<Rightarrow> (ftp_set_task (\<lambda>t. t\<lparr>tk_progress_total := 1\<rparr>) ctx, w)))"

definition ftp_set_state :: "ftp_task_state \<Rightarrow> 'w ftp_ctx \<Rightarrow> 'w ftp_ctx" where
  "ftp_set_state st = ftp_set_task (\<lambda>t. t\<lparr>tk_state := st\<rparr>)"

definition ftp_handler_20x :: "'w ftp_ctx \<Rightarrow> 'w ftp_ctx" where
  "ftp_handler_20x ctx = ftp_set_state STATE_FINISHED ctx"

definition ftp_handler_220 :: "'w ftp_ctx \<Rightarrow> 'w ftp_ctx" where
  "ftp_handler_220 ctx =
     (if tk_type (fs_task ctx) = TYPE_STARTUP
      then ftp_set_task (\<lambda>t. t\<lparr>tk_state := STATE_NOT_STARTED, tk_progress := 0\<rparr>) ctx else ctx)"

text \<open>The six numbers of a 227 reply; \<open>None\<close> when \<^verbatim>\<open>parse_ok\<close> becomes false.\<close>

fun parse_pasv :: "nat \<Rightarrow> string \<Rightarrow> int list option" where
  "parse_pasv 0 p = Some []"
| "parse_pasv (Suc n) p =
     (let (v, k) = c_strtol p; p' = drop k p
      in if k = 0 then None
         else if n = 0 then Some [v]
         else case p' of
                c # q \<Rightarrow> (if c = CHR '','' then map_option ((#) v) (parse_pasv n q) else None)
              | [] \<Rightarrow> None)"

text \<open>\<^verbatim>\<open>uint16_t port = (data[4] << 8) + data[5]\<close>.\<close>

definition pasv_port :: "int list \<Rightarrow> u16" where
  "pasv_port d = of_int (d ! 4 * 256 + d ! 5)"

definition ftp_handler_227 :: "'w ftp_env \<Rightarrow> 'w ftp_ctx \<Rightarrow> 'w \<Rightarrow> string option \<Rightarrow> ('w ftp_ctx \<times> 'w) option" where
  "ftp_handler_227 e ctx w ostr =
     do { (result, ctx, w) \<leftarrow>
            (case ostr of
               None \<Rightarrow> Some (False, ctx, w)
             | Some str \<Rightarrow>
                 do { (result, ctx, w) \<leftarrow>
                        (case c_strchr str (CHR ''('') of
                           None \<Rightarrow> Some (False, ctx, w)
                         | Some p \<Rightarrow> (case parse_pasv 6 p of
                               None \<Rightarrow> Some (False, ctx, w)
                             | Some d \<Rightarrow> ftp_connect_socket e ctx w CH_DATA (pasv_port d)));
                      Some (result, ftp_set_state STATE_STARTED ctx, w) });
          Some (if result then ctx else ftp_set_task (\<lambda>t. t\<lparr>tk_type := TYPE_TERMINATION\<rparr>) ctx, w) }"

definition ftp_handler_226 :: "'w ftp_ctx \<Rightarrow> 'w ftp_ctx" where
  "ftp_handler_226 ctx = ctx"

definition ftp_handler_230 :: "'w ftp_ctx \<Rightarrow> 'w ftp_ctx" where
  "ftp_handler_230 ctx = ftp_set_state STATE_FINISHED ctx"

definition ftp_handler_257 :: "'w ftp_ctx \<Rightarrow> 'w ftp_ctx" where
  "ftp_handler_257 ctx = ftp_set_state STATE_FINISHED ctx"

declare ftp_handler_226_def [simp] ftp_handler_230_def [simp] ftp_handler_257_def [simp]

definition ftp_handler_331 :: "'w ftp_env \<Rightarrow> 'w ftp_ctx \<Rightarrow> 'w \<Rightarrow> 'w ftp_ctx \<times> 'w" where
  "ftp_handler_331 e ctx w = (ctx, snd (ftp_send_password e ctx w))"

definition ftp_handler_error :: "'w ftp_env \<Rightarrow> 'w ftp_ctx \<Rightarrow> 'w \<Rightarrow> 'w ftp_ctx \<times> 'w" where
  "ftp_handler_error e ctx w = ftp_disconnect e ctx w True REASON_RESPONSE_ERR"

definition ftp_handler_530 :: "'w ftp_env \<Rightarrow> 'w ftp_ctx \<Rightarrow> 'w \<Rightarrow> 'w ftp_ctx \<times> 'w" where
  "ftp_handler_530 e ctx w = (ctx, snd (ftp_send_login e ctx w))"

definition ftp_handler_550 :: "'w ftp_ctx \<Rightarrow> 'w ftp_ctx" where
  "ftp_handler_550 ctx = ftp_set_state STATE_FAILED ctx"

datatype ftp_code =
    CODE_150_OPENING_DATA_CONN | CODE_200_OK | CODE_202_NO_MEANING | CODE_220_SERVICE_READY
  | CODE_226_TRANSFER_COMPLETE | CODE_227_ENTERING_PASSIVE_MODE | CODE_230_LOGIN_OK | CODE_257_PATHNAME
  | CODE_331_PASSWORD_REQUIRED | CODE_421_SERVICE_NOT_AVAILABLE | CODE_425_FAILED_TO_OPEN_CONN
  | CODE_426_ERROR_WRITING_NETWORK_STREAM | CODE_451_SOCKET_ERROR | CODE_500_SERVICE_ERROR
  | CODE_501_NEED_PARAMETER | CODE_530_NOT_LOGGED_IN | CODE_550_FILE_UNAVAILABLE

fun ftp_code_value :: "ftp_code \<Rightarrow> int" where
  "ftp_code_value CODE_150_OPENING_DATA_CONN = 150"
| "ftp_code_value CODE_200_OK = 200"
| "ftp_code_value CODE_202_NO_MEANING = 202"
| "ftp_code_value CODE_220_SERVICE_READY = 220"
| "ftp_code_value CODE_226_TRANSFER_COMPLETE = 226"
| "ftp_code_value CODE_227_ENTERING_PASSIVE_MODE = 227"
| "ftp_code_value CODE_230_LOGIN_OK = 230"
| "ftp_code_value CODE_257_PATHNAME = 257"
| "ftp_code_value CODE_331_PASSWORD_REQUIRED = 331"
| "ftp_code_value CODE_421_SERVICE_NOT_AVAILABLE = 421"
| "ftp_code_value CODE_425_FAILED_TO_OPEN_CONN = 425"
| "ftp_code_value CODE_426_ERROR_WRITING_NETWORK_STREAM = 426"
| "ftp_code_value CODE_451_SOCKET_ERROR = 451"
| "ftp_code_value CODE_500_SERVICE_ERROR = 500"
| "ftp_code_value CODE_501_NEED_PARAMETER = 501"
| "ftp_code_value CODE_530_NOT_LOGGED_IN = 530"
| "ftp_code_value CODE_550_FILE_UNAVAILABLE = 550"

datatype ftp_handler =
    H_150 | H_20x | H_220 | H_226 | H_227 | H_230 | H_257 | H_331 | H_error | H_530 | H_550

definition ftp_cmd_map :: "(ftp_code \<times> ftp_handler) list" where
  "ftp_cmd_map =
    [(CODE_150_OPENING_DATA_CONN, H_150), (CODE_200_OK, H_20x), (CODE_202_NO_MEANING, H_20x),
     (CODE_220_SERVICE_READY, H_220), (CODE_226_TRANSFER_COMPLETE, H_226),
     (CODE_227_ENTERING_PASSIVE_MODE, H_227), (CODE_230_LOGIN_OK, H_230), (CODE_257_PATHNAME, H_257),
     (CODE_331_PASSWORD_REQUIRED, H_331), (CODE_421_SERVICE_NOT_AVAILABLE, H_error),
     (CODE_425_FAILED_TO_OPEN_CONN, H_error), (CODE_426_ERROR_WRITING_NETWORK_STREAM, H_error),
     (CODE_451_SOCKET_ERROR, H_error), (CODE_500_SERVICE_ERROR, H_error), (CODE_501_NEED_PARAMETER, H_error),
     (CODE_530_NOT_LOGGED_IN, H_530), (CODE_550_FILE_UNAVAILABLE, H_550)]"

fun ftp_run_handler :: "ftp_handler \<Rightarrow> 'w ftp_env \<Rightarrow> 'w ftp_ctx \<Rightarrow> 'w \<Rightarrow> string \<Rightarrow> ('w ftp_ctx \<times> 'w) option" where
  "ftp_run_handler H_150 e ctx w s = Some (ftp_handler_150 e ctx w (Some s))"
| "ftp_run_handler H_20x e ctx w s = Some (ftp_handler_20x ctx, w)"
| "ftp_run_handler H_220 e ctx w s = Some (ftp_handler_220 ctx, w)"
| "ftp_run_handler H_226 e ctx w s = Some (ftp_handler_226 ctx, w)"
| "ftp_run_handler H_227 e ctx w s = ftp_handler_227 e ctx w (Some s)"
| "ftp_run_handler H_230 e ctx w s = Some (ftp_handler_230 ctx, w)"
| "ftp_run_handler H_257 e ctx w s = Some (ftp_handler_257 ctx, w)"
| "ftp_run_handler H_331 e ctx w s = Some (ftp_handler_331 e ctx w)"
| "ftp_run_handler H_error e ctx w s = Some (ftp_handler_error e ctx w)"
| "ftp_run_handler H_530 e ctx w s = Some (ftp_handler_530 e ctx w)"
| "ftp_run_handler H_550 e ctx w s = Some (ftp_handler_550 ctx, w)"

section \<open>The command channel\<close>

fun ftp_find_handler :: "int \<Rightarrow> (ftp_code \<times> ftp_handler) list \<Rightarrow> ftp_handler option" where
  "ftp_find_handler code [] = None"
| "ftp_find_handler code ((c, h) # rest) = (if ftp_code_value c = code then Some h else ftp_find_handler code rest)"

definition ftp_work_cmd_single :: "'w ftp_env \<Rightarrow> 'w ftp_ctx \<Rightarrow> 'w \<Rightarrow> string \<Rightarrow> ('w ftp_ctx \<times> 'w) option" where
  "ftp_work_cmd_single e ctx w buf =
     (if length buf < 4 \<or> (buf ! 3 \<noteq> SPC \<and> buf ! 3 \<noteq> CHR ''-'')
      then Some (ftp_disconnect e ctx w True REASON_WRONG_DATA)
      else case ftp_find_handler (fst (c_strtol (take 3 buf))) ftp_cmd_map of
             Some h \<Rightarrow> ftp_run_handler h e ctx w (drop 4 buf)
           | None \<Rightarrow> Some (ftp_disconnect e ctx w True REASON_WRONG_CMD))"

text \<open>\<^verbatim>\<open>strstr(line, "\r\n")\<close>: the text before the first line end and the text behind it.\<close>

fun split_crlf :: "string \<Rightarrow> string \<times> string option" where
  "split_crlf [] = ([], None)"
| "split_crlf [c] = ([c], None)"
| "split_crlf (c # d # cs) =
     (if c = CR \<and> d = LF then ([], Some cs) else (let (l, r) = split_crlf (d # cs) in (c # l, r)))"

lemma split_crlf_rest: "split_crlf s = (l, Some r) \<Longrightarrow> length r < length s"
  by (induction s arbitrary: l rule: split_crlf.induct) (auto split: if_splits prod.splits)

text \<open>The loop over the lines of one reception.\<close>

function ftp_cmd_lines :: "'w ftp_env \<Rightarrow> 'w ftp_ctx \<Rightarrow> 'w \<Rightarrow> string \<Rightarrow> ('w ftp_ctx \<times> 'w) option" where
  "ftp_cmd_lines e ctx w text =
     (case split_crlf text of
        (line, next) \<Rightarrow>
          do { (ctx, w) \<leftarrow> (if line \<noteq> [] then ftp_work_cmd_single e ctx w line else Some (ctx, w));
               if tk_type (fs_task ctx) = TYPE_TERMINATION then Some (ctx, w)
               else case next of None \<Rightarrow> Some (ctx, w) | Some rest \<Rightarrow> ftp_cmd_lines e ctx w rest })"
  by pat_completeness auto
termination
  by (relation "measure (\<lambda>(e, ctx, w, text). length text)") (auto dest: split_crlf_rest [OF sym])

declare ftp_cmd_lines.simps [simp del]

text \<open>
  The reception into a zeroed buffer of \<^verbatim>\<open>byte_count + 1\<close> bytes: the C string it holds is the
  received text up to its first \<^verbatim>\<open>NUL\<close>.
\<close>

definition ftp_work_cmd :: "'w ftp_env \<Rightarrow> 'w ftp_ctx \<Rightarrow> 'w \<Rightarrow> ('w ftp_ctx \<times> 'w) option" where
  "ftp_work_cmd e ctx w =
     (let (byte_count, w) = fos_recvcount e w (fs_socket_cmd ctx)
      in if 0 < byte_count
         then let (ok, w) = fos_calloc e w
              in if \<not> ok then Some (ftp_disconnect e ctx w True REASON_MEMORY_ALLOC)
                 else let (byte_rcv, data, w) = os_recv e w (fs_socket_cmd ctx) (nat byte_count)
                      in if 0 < byte_rcv
                         then do { buf \<leftarrow> mem_write (replicate (nat byte_count + 1) NUL) 0 data;
                                   ftp_cmd_lines e ctx w (c_string buf 0) }
                         else Some (ftp_disconnect e ctx w True REASON_NO_BYTES)
         else Some (ctx, w))"

section \<open>The data channel\<close>

partial_function (option) ftp_data_loop :: "'w ftp_env \<Rightarrow> 'w ftp_ctx \<Rightarrow> 'w \<Rightarrow> ('w ftp_ctx \<times> 'w) option" where
  "ftp_data_loop e ctx w =
     (let (cnt, obuf, w) = fos_recv_zerocopy e w (fs_socket_data ctx) (cfg_MSS e);
          (ctx, w) =
            (if 0 < cnt \<and> obuf \<noteq> None
             then let ctx = (if tk_state (fs_task ctx) = STATE_STARTED
                             then ftp_set_state STATE_IN_PROGRESS ctx else ctx);
                      w = ftp_call ctx w CB_RECV obuf (nat cnt);
                      ctx = ftp_set_task (\<lambda>t. t\<lparr>tk_progress := tk_progress t + of_int cnt\<rparr>) ctx
                  in (ctx, fos_ReleaseTCPPayloadBuffer e w (fs_socket_data ctx) (nat cnt))
             else (ctx, w))
      in if 0 < cnt \<and> tk_progress (fs_task ctx) < tk_progress_total (fs_task ctx)
         then ftp_data_loop e ctx w
         else Some (ctx, w))"

definition ftp_work_data :: "'w ftp_env \<Rightarrow> 'w ftp_ctx \<Rightarrow> 'w \<Rightarrow> ('w ftp_ctx \<times> 'w) option" where
  "ftp_work_data e ctx w =
     (if tk_type (fs_task ctx) = TYPE_LIST \<or> tk_type (fs_task ctx) = TYPE_RETR
      then ftp_data_loop e ctx w else Some (ctx, w))"

section \<open>The task state machine\<close>

definition ftp_work_state_startup :: "'w ftp_env \<Rightarrow> 'w ftp_ctx \<Rightarrow> 'w \<Rightarrow> ('w ftp_ctx \<times> 'w) option" where
  "ftp_work_state_startup e ctx w =
     (let ctx = (if tk_state (fs_task ctx) = STATE_FINISHED
                 then ftp_set_task (\<lambda>t. t\<lparr>tk_progress := tk_progress t + 1, tk_state := STATE_NOT_STARTED\<rparr>) ctx
                 else ctx);
          ctx = (if of_nat (length startup_cmds) \<le> tk_progress (fs_task ctx)
                 then ftp_set_task (\<lambda>t. t\<lparr>tk_type := TYPE_IDLE, tk_state := STATE_FINISHED\<rparr>) ctx
                 else ctx)
      in if tk_state (fs_task ctx) = STATE_NOT_STARTED
         then do { let ctx = ftp_set_state STATE_IN_PROGRESS ctx;
                   cmd \<leftarrow> mem_get startup_cmds (unat (tk_progress (fs_task ctx)));
                   Some (ctx, snd (ftp_send_cmd e ctx w (Some cmd))) }
         else Some (ctx, w))"

definition ftp_work_state_data :: "'w ftp_env \<Rightarrow> 'w ftp_ctx \<Rightarrow> 'w \<Rightarrow> 'w ftp_ctx \<times> 'w" where
  "ftp_work_state_data e ctx w =
     (case tk_state (fs_task ctx) of
        STATE_NOT_STARTED \<Rightarrow>
          (let ctx = ftp_set_state STATE_SWITCH_TO_PASV ctx in (ctx, snd (ftp_switch_to_passive e ctx w)))
      | STATE_STARTED \<Rightarrow>
          (if tk_type (fs_task ctx) = TYPE_RETR
           then let ctx = ftp_set_state STATE_REQUESTED ctx
                in (ctx, snd (ftp_retr_file e ctx w (c_string (tk_name (fs_task ctx)) 0)))
           else if tk_type (fs_task ctx) = TYPE_LIST
           then let ctx = ftp_set_state STATE_REQUESTED ctx in (ctx, snd (ftp_list_files e ctx w))
           else ftp_set_to_idle e ctx w)
      | STATE_IN_PROGRESS \<Rightarrow>
          (if tk_progress_total (fs_task ctx) \<le> tk_progress (fs_task ctx)
           then ftp_set_to_idle e ctx (ftp_call ctx w CB_RECV_FINISHED None 0)
           else (ctx, w))
      | STATE_FAILED \<Rightarrow> ftp_set_to_idle e ctx (ftp_call ctx w CB_RECV_FAILED None 0)
      | _ \<Rightarrow> (ctx, w))"

definition ftp_work_state :: "'w ftp_env \<Rightarrow> 'w ftp_ctx \<Rightarrow> 'w \<Rightarrow> ('w ftp_ctx \<times> 'w) option" where
  "ftp_work_state e ctx w =
     (case tk_type (fs_task ctx) of
        TYPE_STARTUP \<Rightarrow> ftp_work_state_startup e ctx w
      | TYPE_RETR \<Rightarrow> Some (ftp_work_state_data e ctx w)
      | TYPE_LIST \<Rightarrow> Some (ftp_work_state_data e ctx w)
      | _ \<Rightarrow> Some (ctx, w))"

section \<open>The thread\<close>

text \<open>\<^verbatim>\<open>FD_ISSET\<close> dereferences the socket and the set.\<close>

definition ftp_isset :: "'w ftp_env \<Rightarrow> 'w ftp_ctx \<Rightarrow> 'w \<Rightarrow> socket_t \<Rightarrow> (bool \<times> 'w) option" where
  "ftp_isset e ctx w s = (if socket_valid s \<and> fs_socket_set ctx then Some (fos_FD_ISSET e w s) else None)"

definition ftp_thread_start :: "'w ftp_env \<Rightarrow> 'w ftp_ctx \<Rightarrow> 'w \<Rightarrow> 'w ftp_ctx \<times> 'w" where
  "ftp_thread_start e ctx w =
     (let (ctx, w) = ftp_disconnect e ctx w False REASON_UNKNOWN
      in (ftp_set_task (\<lambda>t. t\<lparr>tk_type := TYPE_STARTUP, tk_state := STATE_IN_PROGRESS, tk_progress := 0\<rparr>) ctx, w))"

text \<open>
  One round of the loop: the reason of a \<^verbatim>\<open>break\<close>, or \<open>None\<close> when the loop goes on.
\<close>

definition ftp_process_sockets :: "'w ftp_env \<Rightarrow> 'w ftp_ctx \<Rightarrow> 'w \<Rightarrow> ('w ftp_ctx \<times> 'w) option" where
  "ftp_process_sockets e ctx w =
     do { (b, w) \<leftarrow> ftp_isset e ctx w (fs_socket_cmd ctx);
          (ctx, w) \<leftarrow> (if b then ftp_work_cmd e ctx w else Some (ctx, w));
          if fs_socket_data ctx \<noteq> NULL_SOCKET
          then do { (b, w) \<leftarrow> ftp_isset e ctx w (fs_socket_data ctx);
                    if b then ftp_work_data e ctx w else Some (ctx, w) }
          else Some (ctx, w) }"

definition ftp_thread_round :: "'w ftp_env \<Rightarrow> 'w ftp_ctx \<Rightarrow> 'w \<Rightarrow> (ftp_reason option \<times> 'w ftp_ctx \<times> 'w) option" where
  "ftp_thread_round e ctx w =
     do { (ok, ctx, w) \<leftarrow> (if fs_socket_cmd ctx = NULL_SOCKET
                            then ftp_connect_socket e ctx w CH_CMD (cf_server_port ctx)
                            else Some (True, ctx, w));
          if \<not> ok then Some (Some REASON_CONNECT, ctx, w)
          else if \<not> fs_socket_set ctx then None
          else let (sel, w) = os_select e w
               in if sel \<noteq> 0
                  then do { (ctx, w) \<leftarrow> ftp_process_sockets e ctx w;
                            (ctx, w) \<leftarrow> ftp_work_state e ctx w;
                            Some (None, ctx, w) }
                  else let (up, w) = fos_IsNetworkUp e w
                       in if \<not> up then Some (Some REASON_NETWORK, ctx, w)
                          else let (c, w) = os_issocketconnected e w (fs_socket_cmd ctx)
                               in if c \<noteq> 1 then Some (Some REASON_SOCKET, ctx, w)
                                  else do { (ctx, w) \<leftarrow> ftp_work_state e ctx w;
                                            Some (None, ctx, w) } }"

definition ftp_thread_end :: "'w ftp_env \<Rightarrow> 'w ftp_ctx \<Rightarrow> 'w \<Rightarrow> ftp_reason \<Rightarrow> 'w ftp_ctx \<times> 'w" where
  "ftp_thread_end e ctx w reason =
     (let (ctx, w) = ftp_disconnect e ctx w True reason in (ctx\<lparr>fs_thread := False\<rparr>, w))"

section \<open>Public functions\<close>

definition uni_net_ftp_client_connect ::
    "'w ftp_env \<Rightarrow> 'w ftp_ctx option \<Rightarrow> 'w \<Rightarrow> u32 \<Rightarrow> u16 \<Rightarrow> bool \<times> 'w ftp_ctx option \<times> 'w" where
  "uni_net_ftp_client_connect e octx w addr port =
     (case octx of
        None \<Rightarrow> (False, None, w)
      | Some ctx \<Rightarrow>
          (let ctx = (if addr \<noteq> 0 then ctx\<lparr>cf_server_addr := addr\<rparr> else ctx);
               ctx = (if port \<noteq> 0 then ctx\<lparr>cf_server_port := port\<rparr> else ctx);
               (ok, w) = fos_xTaskCreate e w
           in (ok, Some (if ok then ctx\<lparr>fs_thread := True\<rparr> else ctx), w)))"

definition uni_net_ftp_client_disconnect :: "'w ftp_ctx option \<Rightarrow> bool \<times> 'w ftp_ctx option" where
  "uni_net_ftp_client_disconnect octx =
     (False, map_option (ftp_set_task (\<lambda>t. t\<lparr>tk_type := TYPE_TERMINATION\<rparr>)) octx)"

definition uni_net_ftp_client_is_connected :: "'w ftp_ctx option \<Rightarrow> bool" where
  "uni_net_ftp_client_is_connected octx =
     (case octx of None \<Rightarrow> False | Some ctx \<Rightarrow> fs_socket_cmd ctx \<noteq> NULL_SOCKET \<or> fs_thread ctx)"

definition uni_net_ftp_client_is_idle :: "'w ftp_ctx option \<Rightarrow> bool" where
  "uni_net_ftp_client_is_idle octx \<longleftrightarrow>
     uni_net_ftp_client_is_connected octx
     \<and> (case octx of None \<Rightarrow> False | Some ctx \<Rightarrow> tk_type (fs_task ctx) = TYPE_IDLE)"

definition uni_net_ftp_client_get_current_addr :: "'w ftp_ctx option \<Rightarrow> u32" where
  "uni_net_ftp_client_get_current_addr octx =
     (case octx of
        None \<Rightarrow> 0xFFFFFFFF
      | Some ctx \<Rightarrow> if uni_net_ftp_client_is_connected octx then cf_server_addr ctx else 0xFFFFFFFF)"

definition uni_net_ftp_client_get_task :: "'w ftp_ctx \<Rightarrow> ftp_task" where
  "uni_net_ftp_client_get_task ctx = fs_task ctx"

definition uni_net_ftp_client_set_callback ::
    "'w ftp_ctx option \<Rightarrow> 'w ftp_callback option \<Rightarrow> bool \<times> 'w ftp_ctx option" where
  "uni_net_ftp_client_set_callback octx cb =
     (case octx of None \<Rightarrow> (False, None) | Some ctx \<Rightarrow> (True, Some (ctx\<lparr>fs_callback := cb\<rparr>)))"

text \<open>\<^verbatim>\<open>strncpy(name, filename, sizeof(name) - 1)\<close> pads with \<^verbatim>\<open>NUL\<close> and leaves the last byte.\<close>

definition strncpy_name :: "char list \<Rightarrow> string \<Rightarrow> char list" where
  "strncpy_name name filename =
     (let n = length name - 1 in take n (filename @ replicate n NUL) @ drop n name)"

definition uni_net_ftp_client_download ::
    "'w ftp_ctx option \<Rightarrow> string \<Rightarrow> nat option \<Rightarrow> u32 \<Rightarrow> bool \<times> 'w ftp_ctx option" where
  "uni_net_ftp_client_download octx filename cookie sz =
     (if uni_net_ftp_client_is_idle octx
      then (True, map_option (ftp_set_task (\<lambda>t. t\<lparr>tk_type := TYPE_RETR, tk_state := STATE_NOT_STARTED,
              tk_progress := 0, tk_progress_total := sz, tk_cookie_file := cookie,
              tk_name := strncpy_name (tk_name t) filename\<rparr>)) octx)
      else (False, octx))"

definition uni_net_ftp_client_list :: "'w ftp_ctx option \<Rightarrow> bool \<times> 'w ftp_ctx option" where
  "uni_net_ftp_client_list octx =
     (if uni_net_ftp_client_is_idle octx
      then (True, map_option (ftp_set_task (\<lambda>t. t\<lparr>tk_type := TYPE_LIST, tk_state := STATE_NOT_STARTED,
              tk_progress := 0, tk_progress_total := 0, tk_name := (tk_name t)[0 := NUL]\<rparr>)) octx)
      else (False, octx))"

end
