(* ===== verification/Ftp_Safety.thy ===== *)
theory Ftp_Safety
  imports Ftp_Client
begin

text \<open>
  The FTP client as a transition system: rounds of its thread interleaved with calls of the
  public functions.  An invariant of all reachable states gives that no round faults and that a
  stopped client holds no socket.
\<close>

section \<open>What the environment guarantees\<close>

text \<open>
  A zero-copy reception returns a pointer to as many bytes as it counts.  Sockets and socket sets
  are available.  The peer's data is finite: a rank decreases with every reception.
\<close>

definition zerocopy_ok :: "'w ftp_env \<Rightarrow> bool" where
  "zerocopy_ok e \<longleftrightarrow> (\<forall>w s n. let (c, ob, w') = fos_recv_zerocopy e w s n
     in 0 < c \<longrightarrow> (case ob of None \<Rightarrow> False | Some d \<Rightarrow> length d = nat c))"

definition ftp_resources_ok :: "'w ftp_env \<Rightarrow> bool" where
  "ftp_resources_ok e \<longleftrightarrow> (\<forall>w. fst (fos_socket e w) \<noteq> INVALID_SOCKET \<and> fst (fos_CreateSocketSet e w))"

definition ftp_finite :: "'w ftp_env \<Rightarrow> ('w \<Rightarrow> nat) \<Rightarrow> bool" where
  "ftp_finite e rank \<longleftrightarrow> (\<forall>w s n c ob w' w''. fos_recv_zerocopy e w s n = (c, ob, w') \<and> 0 < c
      \<and> rank w'' \<le> rank w' \<longrightarrow> rank (fos_ReleaseTCPPayloadBuffer e w'' s (nat c)) < rank w)"

definition ftp_callback_quiet :: "('w \<Rightarrow> nat) \<Rightarrow> 'w ftp_ctx \<Rightarrow> bool" where
  "ftp_callback_quiet rank ctx \<longleftrightarrow>
     (case fs_callback ctx of None \<Rightarrow> True | Some cb \<Rightarrow> (\<forall>w t ty d n. rank (cb w t ty d n) \<le> rank w))"

definition ftp_env_ok :: "'w ftp_env \<Rightarrow> ('w \<Rightarrow> nat) \<Rightarrow> bool" where
  "ftp_env_ok e rank \<longleftrightarrow> recv_bounded e \<and> zerocopy_ok e \<and> ftp_resources_ok e \<and> ftp_finite e rank"

section \<open>The invariant\<close>

definition ftp_task_ok :: "ftp_task \<Rightarrow> bool" where
  "ftp_task_ok t \<longleftrightarrow> length (tk_name t) = 32 \<and> tk_name t ! 31 = NUL
     \<and> (tk_type t = TYPE_STARTUP \<longrightarrow> tk_progress t < 3)"

definition ftp_sockets_ok :: "'w ftp_ctx \<Rightarrow> bool" where
  "ftp_sockets_ok ctx \<longleftrightarrow> fs_socket_cmd ctx \<noteq> INVALID_SOCKET \<and> fs_socket_data ctx \<noteq> INVALID_SOCKET
     \<and> (fs_socket_cmd ctx \<noteq> NULL_SOCKET \<or> fs_socket_data ctx \<noteq> NULL_SOCKET \<longrightarrow> fs_socket_set ctx)"

definition ftp_inv :: "('w \<Rightarrow> nat) \<Rightarrow> 'w ftp_ctx \<Rightarrow> bool" where
  "ftp_inv rank ctx \<longleftrightarrow> ftp_task_ok (fs_task ctx) \<and> ftp_sockets_ok ctx \<and> ftp_callback_quiet rank ctx"

lemma ftp_inv_task:
  "ftp_inv rank ctx \<Longrightarrow> ftp_task_ok (f (fs_task ctx)) \<Longrightarrow> ftp_inv rank (ftp_set_task f ctx)"
  by (simp add: ftp_inv_def ftp_set_task_def ftp_sockets_ok_def ftp_callback_quiet_def)

lemma fs_task_set_task [simp]: "fs_task (ftp_set_task f ctx) = f (fs_task ctx)"
  by (simp add: ftp_set_task_def)

lemma ftp_set_task_simps [simp]:
  "fs_socket_cmd (ftp_set_task f ctx) = fs_socket_cmd ctx" "fs_socket_data (ftp_set_task f ctx) = fs_socket_data ctx"
  "fs_socket_set (ftp_set_task f ctx) = fs_socket_set ctx" "fs_callback (ftp_set_task f ctx) = fs_callback ctx"
  by (simp_all add: ftp_set_task_def)

lemma ftp_inv_set_state: "ftp_inv rank ctx \<Longrightarrow> ftp_inv rank (ftp_set_state st ctx)"
  by (simp add: ftp_set_state_def) (rule ftp_inv_task, simp_all add: ftp_inv_def ftp_task_ok_def)

lemma ftp_inv_terminate:
  "ftp_inv rank ctx \<Longrightarrow> ftp_inv rank (ftp_set_task (\<lambda>t. t\<lparr>tk_type := TYPE_TERMINATION\<rparr>) ctx)"
  by (rule ftp_inv_task) (simp_all add: ftp_inv_def ftp_task_ok_def)

lemma ftp_inv_close_data: "ftp_inv rank ctx \<Longrightarrow> ftp_inv rank (fst (ftp_close_data e ctx w))"
  by (simp add: ftp_close_data_def ftp_inv_def ftp_sockets_ok_def ftp_callback_quiet_def)

lemma ftp_inv_set_to_idle:
  assumes "ftp_inv rank ctx"
  shows "ftp_inv rank (fst (ftp_set_to_idle e ctx w))"
proof -
  obtain ctx1 w1 where c: "ftp_close_data e ctx w = (ctx1, w1)" by (cases "ftp_close_data e ctx w")
  have "ftp_inv rank ctx1" using ftp_inv_close_data [OF assms, of e w] c by simp
  then show ?thesis
    unfolding ftp_set_to_idle_def c
    by (simp, intro ftp_inv_task) (simp_all add: ftp_inv_def ftp_task_ok_def ftp_idle_task_def)
qed

text \<open>After a disconnection nothing is left open.\<close>

definition ftp_closed :: "'w ftp_ctx \<Rightarrow> bool" where
  "ftp_closed ctx \<longleftrightarrow> fs_socket_cmd ctx = NULL_SOCKET \<and> fs_socket_data ctx = NULL_SOCKET \<and> \<not> fs_socket_set ctx"

lemma ftp_disconnect_spec:
  assumes "ftp_inv rank ctx"
  shows "ftp_inv rank (fst (ftp_disconnect e ctx w cb r)) \<and> ftp_closed (fst (ftp_disconnect e ctx w cb r))
     \<and> tk_type (fs_task (fst (ftp_disconnect e ctx w cb r))) = TYPE_TERMINATION
     \<and> fs_callback (fst (ftp_disconnect e ctx w cb r)) = fs_callback ctx"
  using assms
  by (simp add: ftp_disconnect_def ftp_close_data_def ftp_closed_def ftp_inv_def ftp_task_ok_def
      ftp_sockets_ok_def ftp_callback_quiet_def ftp_set_task_def Let_def split_beta)

lemma ftp_connect_socket_ok:
  assumes "ftp_resources_ok e" and "ftp_inv rank ctx"
  shows "\<exists>ok ctx' w'. ftp_connect_socket e ctx w ch port = Some (ok, ctx', w') \<and> ftp_inv rank ctx'
     \<and> fs_task ctx' = fs_task ctx \<and> fs_socket_set ctx'
     \<and> (ok \<and> ch = CH_CMD \<longrightarrow> fs_socket_cmd ctx' \<noteq> NULL_SOCKET)"
proof -
  define ctx1 where "ctx1 = (if \<not> fs_socket_set ctx then ctx\<lparr>fs_socket_set := True\<rparr> else ctx)"
  define w1 where "w1 = (if \<not> fs_socket_set ctx then snd (fos_CreateSocketSet e w) else w)"
  have cs: "(if \<not> fs_socket_set ctx then (let (ok, w) = fos_CreateSocketSet e w in (ctx\<lparr>fs_socket_set := ok\<rparr>, w))
      else (ctx, w)) = (ctx1, w1)"
    using assms(1) by (auto simp: ctx1_def w1_def ftp_resources_ok_def split_beta)
  obtain s w2 where so: "fos_socket e w1 = (s, w2)" by (cases "fos_socket e w1")
  have s: "s \<noteq> INVALID_SOCKET" using assms(1) so by (metis ftp_resources_ok_def fst_conv)
  have set1: "fs_socket_set (ftp_set_socket ch s ctx1)" by (cases ch) (simp_all add: ctx1_def)
  have inv: "ftp_inv rank (ftp_set_socket ch s ctx1)"
    using assms(2) s set1
    by (cases ch) (auto simp: ctx1_def ftp_inv_def ftp_sockets_ok_def ftp_callback_quiet_def)
  have "fs_task (ftp_set_socket ch s ctx1) = fs_task ctx" by (cases ch) (simp_all add: ctx1_def)
  moreover have "ch = CH_CMD \<Longrightarrow> fs_socket_cmd (ftp_set_socket ch s ctx1) = s" by simp
  moreover obtain r w3 where "fos_connect e (ftp_setup_socket e (ftp_set_socket ch s ctx1) w2 s port) s
      (cf_server_addr (ftp_set_socket ch s ctx1)) (lib_swap16 e port) = (r, w3)" by fastforce
  ultimately show ?thesis
    using inv set1 unfolding ftp_connect_socket_def cs
    by (cases "s = NULL_SOCKET"; cases "r = 0") (auto simp: so Let_def)
qed

section \<open>The reply handlers\<close>

lemma ftp_handler_227_ok:
  assumes "ftp_resources_ok e" and "ftp_inv rank ctx"
  shows "\<exists>ctx' w'. ftp_handler_227 e ctx w os = Some (ctx', w') \<and> ftp_inv rank ctx'"
proof (cases "\<exists>str p d. os = Some str \<and> c_strchr str (CHR ''('') = Some p \<and> parse_pasv 6 p = Some d")
  case True
  then obtain str p d where *: "os = Some str" "c_strchr str (CHR ''('') = Some p" "parse_pasv 6 p = Some d" by blast
  obtain ok ctx1 w1 where c: "ftp_connect_socket e ctx w CH_DATA (pasv_port d) = Some (ok, ctx1, w1)" "ftp_inv rank ctx1"
    using ftp_connect_socket_ok [OF assms, of w CH_DATA "pasv_port d"] by blast
  then show ?thesis
    by (simp add: ftp_handler_227_def * ftp_inv_set_state ftp_inv_terminate)
next
  case False
  then show ?thesis
    using assms(2)
    by (auto simp: ftp_handler_227_def ftp_inv_set_state ftp_inv_terminate split: option.splits)
qed

lemma ftp_run_handler_ok:
  assumes "ftp_resources_ok e" and inv: "ftp_inv rank ctx"
  shows "\<exists>ctx' w'. ftp_run_handler h e ctx w s = Some (ctx', w') \<and> ftp_inv rank ctx'"
proof -
  have h150: "ftp_inv rank (ftp_set_task (\<lambda>t. t\<lparr>tk_progress_total := n\<rparr>) ctx)" for n
    using inv by (intro ftp_inv_task) (simp_all add: ftp_inv_def ftp_task_ok_def)
  have h220: "ftp_inv rank (ftp_set_task (\<lambda>t. t\<lparr>tk_state := STATE_NOT_STARTED, tk_progress := 0\<rparr>) ctx)"
    using inv by (intro ftp_inv_task) (simp_all add: ftp_inv_def ftp_task_ok_def)
  have disc: "ftp_inv rank (fst (ftp_disconnect e ctx w True r))" for r
    using ftp_disconnect_spec [OF inv] by blast
  show ?thesis
  proof (cases h)
    case H_error
    then show ?thesis using disc [of REASON_RESPONSE_ERR]
      by (cases "ftp_disconnect e ctx w True REASON_RESPONSE_ERR") (simp add: ftp_handler_error_def)
  qed (use h150 h220 ftp_handler_227_ok [OF assms] ftp_inv_set_state [OF inv] inv in
      \<open>simp_all add: ftp_handler_150_def ftp_handler_20x_def ftp_handler_220_def ftp_handler_331_def
        ftp_handler_530_def ftp_handler_550_def split: option.splits\<close>)
qed

lemma ftp_work_cmd_single_ok:
  assumes "ftp_resources_ok e" and inv: "ftp_inv rank ctx"
  shows "\<exists>ctx' w'. ftp_work_cmd_single e ctx w line = Some (ctx', w') \<and> ftp_inv rank ctx'"
proof -
  have disc: "\<exists>ctx' w'. Some (ftp_disconnect e ctx w True r) = Some (ctx', w') \<and> ftp_inv rank ctx'" for r
    using ftp_disconnect_spec [OF inv, of e w True r] by (cases "ftp_disconnect e ctx w True r") simp
  show ?thesis
    using disc ftp_run_handler_ok [OF assms]
    by (simp add: ftp_work_cmd_single_def split: option.splits)
qed

lemma ftp_cmd_lines_ok:
  "ftp_resources_ok e \<Longrightarrow> ftp_inv rank ctx \<Longrightarrow>
   \<exists>ctx' w'. ftp_cmd_lines e ctx w s = Some (ctx', w') \<and> ftp_inv rank ctx'"
proof (induction e ctx w s rule: ftp_cmd_lines.induct)
  case (1 e ctx w s)
  obtain line nxt where sp: "split_crlf s = (line, nxt)" by (cases "split_crlf s")
  obtain ctx1 w1 where c: "(if line \<noteq> [] then ftp_work_cmd_single e ctx w line else Some (ctx, w)) = Some (ctx1, w1)"
    and inv1: "ftp_inv rank ctx1"
    using ftp_work_cmd_single_ok [OF "1.prems", of w line] "1.prems"(2) by (cases "line = []") auto
  have eq: "ftp_cmd_lines e ctx w s = (if tk_type (fs_task ctx1) = TYPE_TERMINATION then Some (ctx1, w1)
      else case nxt of None \<Rightarrow> Some (ctx1, w1) | Some rest \<Rightarrow> ftp_cmd_lines e ctx1 w1 rest)"
    by (subst ftp_cmd_lines.simps) (simp only: sp c prod.case Option.bind.bind_lunit)
  show ?case
  proof (cases "tk_type (fs_task ctx1) = TYPE_TERMINATION \<or> nxt = None")
    case True
    with eq inv1 show ?thesis by auto
  next
    case False
    then obtain rest where "nxt = Some rest" by blast
    with eq False "1.IH" [OF sp [symmetric] c refl _ this "1.prems"(1) inv1] show ?thesis by simp
  qed
qed

lemma ftp_work_cmd_ok:
  assumes "ftp_env_ok e rank" and inv: "ftp_inv rank ctx"
  shows "\<exists>ctx' w'. ftp_work_cmd e ctx w = Some (ctx', w') \<and> ftp_inv rank ctx'"
proof -
  have res: "ftp_resources_ok e" and rb: "recv_bounded e" using assms(1) by (simp_all add: ftp_env_ok_def)
  have disc: "\<exists>ctx' w'. Some (ftp_disconnect e ctx w True r) = Some (ctx', w') \<and> ftp_inv rank ctx'" for r w
    using ftp_disconnect_spec [OF inv, of e w True r] by (cases "ftp_disconnect e ctx w True r") simp
  obtain n w1 where n: "fos_recvcount e w (fs_socket_cmd ctx) = (n, w1)" by fastforce
  obtain ok w2 where c: "fos_calloc e w1 = (ok, w2)" by fastforce
  obtain r d w3 where rv: "os_recv e w2 (fs_socket_cmd ctx) (nat n) = (r, d, w3)" by (cases "os_recv e w2 (fs_socket_cmd ctx) (nat n)")
  then have b: "r \<le> int (nat n)" "0 < r \<Longrightarrow> length d = nat r"
    using rb unfolding recv_bounded_def by (metis (mono_tags, lifting) case_prod_conv)+
  show ?thesis
  proof (cases "0 < n \<and> ok \<and> 0 < r")
    case True
    then have "length d \<le> nat n" using b by (simp add: nat_le_iff)
    then obtain buf where "mem_write (replicate (nat n + 1) NUL) 0 d = Some buf"
      using mem_write_Some [of 0 d "replicate (nat n + 1) NUL"] by simp
    with True n c rv ftp_cmd_lines_ok [OF res inv, of w3 "c_string buf 0"] show ?thesis
      by (simp add: ftp_work_cmd_def)
  next
    case False
    with n c rv disc inv show ?thesis by (auto simp: ftp_work_cmd_def)
  qed
qed

section \<open>The data channel\<close>

lemma ftp_call_rank: "ftp_inv rank ctx \<Longrightarrow> rank (ftp_call ctx w ty d n) \<le> rank w"
  by (simp add: ftp_inv_def ftp_callback_quiet_def ftp_call_def split: option.splits)

lemma ftp_data_loop_ok:
  assumes env: "ftp_env_ok e rank"
  shows "ftp_inv rank ctx \<Longrightarrow> tk_type (fs_task ctx) \<noteq> TYPE_STARTUP \<Longrightarrow>
    \<exists>ctx' w'. ftp_data_loop e ctx w = Some (ctx', w') \<and> ftp_inv rank ctx'"
proof (induction "rank w" arbitrary: ctx w rule: less_induct)
  case less
  obtain c ob w1 where rv: "fos_recv_zerocopy e w (fs_socket_data ctx) (cfg_MSS e) = (c, ob, w1)"
    by (cases "fos_recv_zerocopy e w (fs_socket_data ctx) (cfg_MSS e)")
  show ?case
  proof (cases "0 < c")
    case False
    then show ?thesis using less.prems by (subst ftp_data_loop.simps) (simp add: rv)
  next
    case True
    have "zerocopy_ok e" using env by (simp add: ftp_env_ok_def)
    then have ob: "ob \<noteq> None"
      using rv True unfolding zerocopy_ok_def by (metis (mono_tags, lifting) case_prod_conv option.simps(4))
    define ctx1 where "ctx1 = (if tk_state (fs_task ctx) = STATE_STARTED then ftp_set_state STATE_IN_PROGRESS ctx else ctx)"
    define w2 where "w2 = ftp_call ctx1 w1 CB_RECV ob (nat c)"
    define ctx2 where "ctx2 = ftp_set_task (\<lambda>t. t\<lparr>tk_progress := tk_progress t + of_int c\<rparr>) ctx1"
    define w3 where "w3 = fos_ReleaseTCPPayloadBuffer e w2 (fs_socket_data ctx1) (nat c)"
    have inv1: "ftp_inv rank ctx1" using less.prems by (simp add: ctx1_def ftp_inv_set_state)
    have ty: "tk_type (fs_task ctx1) = tk_type (fs_task ctx)" "fs_socket_data ctx1 = fs_socket_data ctx"
      by (simp_all add: ctx1_def ctx2_def ftp_set_state_def)
    have inv2: "ftp_inv rank ctx2" unfolding ctx2_def
      using inv1 less.prems(2) ty by (intro ftp_inv_task) (simp_all add: ftp_inv_def ftp_task_ok_def)
    have ty2: "tk_type (fs_task ctx2) \<noteq> TYPE_STARTUP" using less.prems(2) ty by (simp add: ctx2_def)
    have "rank w2 \<le> rank w1" unfolding w2_def by (rule ftp_call_rank [OF inv1])
    then have dec: "rank w3 < rank w"
      using env rv True unfolding w3_def ty(2) ftp_env_ok_def ftp_finite_def by blast
    have "ftp_data_loop e ctx w = (if tk_progress (fs_task ctx2) < tk_progress_total (fs_task ctx2)
        then ftp_data_loop e ctx2 w3 else Some (ctx2, w3))"
      using True ob by (subst ftp_data_loop.simps) (simp add: rv Let_def flip: ctx1_def w2_def ctx2_def w3_def)
    with less.hyps [OF dec inv2 ty2] inv2 show ?thesis by simp
  qed
qed

section \<open>The rounds of the thread\<close>

lemma ftp_work_state_startup_ok:
  assumes inv: "ftp_inv rank ctx" and ty: "tk_type (fs_task ctx) = TYPE_STARTUP"
  shows "\<exists>ctx' w'. ftp_work_state_startup e ctx w = Some (ctx', w') \<and> ftp_inv rank ctx'"
proof -
  define ctx1 where "ctx1 = (if tk_state (fs_task ctx) = STATE_FINISHED
      then ftp_set_task (\<lambda>t. t\<lparr>tk_progress := tk_progress t + 1, tk_state := STATE_NOT_STARTED\<rparr>) ctx else ctx)"
  define ctx2 where "ctx2 = (if of_nat (length startup_cmds) \<le> tk_progress (fs_task ctx1)
      then ftp_set_task (\<lambda>t. t\<lparr>tk_type := TYPE_IDLE, tk_state := STATE_FINISHED\<rparr>) ctx1 else ctx1)"
  have len: "length startup_cmds = 3" by (simp add: startup_cmds_def)
  have t: "ftp_task_ok (fs_task ctx)" using inv by (simp add: ftp_inv_def)
  have inv2: "ftp_inv rank ctx2"
    using inv t by (auto simp: ctx2_def ctx1_def len ftp_inv_def ftp_task_ok_def ftp_sockets_ok_def
        ftp_callback_quiet_def not_le)
  have eq: "ftp_work_state_startup e ctx w =
      (if tk_state (fs_task ctx2) = STATE_NOT_STARTED
       then do { let ctx = ftp_set_state STATE_IN_PROGRESS ctx2;
                 cmd \<leftarrow> mem_get startup_cmds (unat (tk_progress (fs_task ctx)));
                 Some (ctx, snd (ftp_send_cmd e ctx w (Some cmd))) }
       else Some (ctx2, w))"
    unfolding ftp_work_state_startup_def Let_def ctx1_def [symmetric] ctx2_def [symmetric] ..
  show ?thesis
  proof (cases "tk_state (fs_task ctx2) = STATE_NOT_STARTED")
    case True
    then have "\<not> of_nat (length startup_cmds) \<le> tk_progress (fs_task ctx1)" by (auto simp: ctx2_def)
    then have "tk_progress (fs_task ctx2) < 3" by (simp add: ctx2_def len not_le)
    then have "unat (tk_progress (fs_task (ftp_set_state STATE_IN_PROGRESS ctx2))) < length startup_cmds"
      by (simp add: ftp_set_state_def word_less_nat_alt len)
    then show ?thesis
      using True ftp_inv_set_state [OF inv2, of STATE_IN_PROGRESS]
      unfolding eq by (simp add: mem_get_Some Let_def)
  next
    case False
    with inv2 show ?thesis unfolding eq by simp
  qed
qed

lemma ftp_work_state_data_ok:
  assumes inv: "ftp_inv rank ctx"
  shows "ftp_inv rank (fst (ftp_work_state_data e ctx w))"
  using inv ftp_inv_set_to_idle [OF inv]
  by (cases "tk_state (fs_task ctx)") (simp_all add: ftp_work_state_data_def ftp_inv_set_state Let_def)

lemma ftp_work_state_ok:
  assumes inv: "ftp_inv rank ctx"
  shows "\<exists>ctx' w'. ftp_work_state e ctx w = Some (ctx', w') \<and> ftp_inv rank ctx'"
proof -
  have "\<exists>ctx' w'. Some (ftp_work_state_data e ctx w) = Some (ctx', w') \<and> ftp_inv rank ctx'"
    using ftp_work_state_data_ok [OF inv, of e w] by (cases "ftp_work_state_data e ctx w") simp
  then show ?thesis
    using inv ftp_work_state_startup_ok [OF inv]
    by (cases "tk_type (fs_task ctx)") (simp_all add: ftp_work_state_def)
qed

lemma ftp_process_sockets_ok:
  assumes env: "ftp_env_ok e rank" and inv: "ftp_inv rank ctx" and cmd: "fs_socket_cmd ctx \<noteq> NULL_SOCKET"
  shows "\<exists>ctx' w'. ftp_process_sockets e ctx w = Some (ctx', w') \<and> ftp_inv rank ctx'"
proof -
  obtain b w1 where 1: "ftp_isset e ctx w (fs_socket_cmd ctx) = Some (b, w1)"
    using inv cmd by (cases "fos_FD_ISSET e w (fs_socket_cmd ctx)")
      (simp add: ftp_isset_def ftp_inv_def ftp_sockets_ok_def socket_valid_def)
  obtain ctx1 w2 where 2: "(if b then ftp_work_cmd e ctx w1 else Some (ctx, w1)) = Some (ctx1, w2)"
    and inv1: "ftp_inv rank ctx1"
    using ftp_work_cmd_ok [OF env inv, of w1] inv by (cases b) auto
  show ?thesis
  proof (cases "fs_socket_data ctx1 = NULL_SOCKET")
    case True
    with 1 2 inv1 show ?thesis by (simp add: ftp_process_sockets_def)
  next
    case False
    then obtain b' w3 where 3: "ftp_isset e ctx1 w2 (fs_socket_data ctx1) = Some (b', w3)"
      using inv1 by (cases "fos_FD_ISSET e w2 (fs_socket_data ctx1)")
        (simp add: ftp_isset_def ftp_inv_def ftp_sockets_ok_def socket_valid_def)
    have "\<exists>ctx' w'. ftp_work_data e ctx1 w3 = Some (ctx', w') \<and> ftp_inv rank ctx'"
      using ftp_data_loop_ok [OF env inv1, of w3] inv1 by (auto simp: ftp_work_data_def)
    with 1 2 3 False inv1 show ?thesis by (simp add: ftp_process_sockets_def)
  qed
qed

lemma ftp_thread_round_ok:
  assumes env: "ftp_env_ok e rank" and inv: "ftp_inv rank ctx"
  shows "\<exists>r ctx' w'. ftp_thread_round e ctx w = Some (r, ctx', w') \<and> ftp_inv rank ctx'"
proof -
  have res: "ftp_resources_ok e" using env by (simp add: ftp_env_ok_def)
  obtain ok ctx1 w1 where 1: "(if fs_socket_cmd ctx = NULL_SOCKET
      then ftp_connect_socket e ctx w CH_CMD (cf_server_port ctx) else Some (True, ctx, w)) = Some (ok, ctx1, w1)"
    and inv1: "ftp_inv rank ctx1" and set1: "fs_socket_set ctx1" and cmd1: "ok \<Longrightarrow> fs_socket_cmd ctx1 \<noteq> NULL_SOCKET"
    using ftp_connect_socket_ok [OF res inv, of w CH_CMD "cf_server_port ctx"] inv
    by (cases "fs_socket_cmd ctx = NULL_SOCKET") (auto simp: ftp_inv_def ftp_sockets_ok_def)
  obtain sel w2 where sel: "os_select e w1 = (sel, w2)" by fastforce
  obtain up w3 where up: "fos_IsNetworkUp e w2 = (up, w3)" by fastforce
  obtain k w4 where k: "os_issocketconnected e w3 (fs_socket_cmd ctx1) = (k, w4)" by fastforce
  obtain ctx2 w5 where 2: "ok \<Longrightarrow> ftp_process_sockets e ctx1 w2 = Some (ctx2, w5)" "ok \<Longrightarrow> ftp_inv rank ctx2"
    using ftp_process_sockets_ok [OF env inv1 cmd1, of w2] by blast
  show ?thesis
    using 2 inv1 set1 ftp_work_state_ok [OF inv1, of e w4] ftp_work_state_ok [of rank ctx2 e w5]
    unfolding ftp_thread_round_def 1
    by (cases ok; cases "sel = 0"; cases up; cases "k = 1") (auto simp: sel up k)
qed

end
