(* ===== verification/Ftp_Protocol.thy ===== *)
theory Ftp_Protocol
  imports Ftp_Safety
begin

text \<open>
  The FTP client as a whole: the transition system of its thread and its callers, what the
  replies of a server do to it, and the transfer of a file.
\<close>

section \<open>Interleaving of the thread and its callers\<close>

text \<open>
  A state is whether the thread runs, the context and the world.  A round of the thread is one
  step; the public functions may be called between any two rounds, with callbacks that satisfy
  \<open>P\<close>.
\<close>

type_synonym 'w ftp_sys = "bool \<times> 'w ftp_ctx \<times> 'w"

inductive ftp_step :: "'w ftp_env \<Rightarrow> ('w ftp_callback option \<Rightarrow> bool) \<Rightarrow> 'w ftp_sys \<Rightarrow> 'w ftp_sys \<Rightarrow> bool"
  for e P where
  start: "uni_net_ftp_client_connect e (Some ctx) w addr port = (True, Some ctx', w') \<Longrightarrow>
    ftp_thread_start e ctx' w' = (ctx'', w'') \<Longrightarrow> ftp_step e P (False, ctx, w) (True, ctx'', w'')"
| start_fails: "uni_net_ftp_client_connect e (Some ctx) w addr port = (False, Some ctx', w') \<Longrightarrow>
    ftp_step e P (False, ctx, w) (False, ctx', w')"
| round: "tk_type (fs_task ctx) \<noteq> TYPE_TERMINATION \<Longrightarrow> ftp_thread_round e ctx w = Some (None, ctx', w') \<Longrightarrow>
    ftp_step e P (True, ctx, w) (True, ctx', w')"
| break: "tk_type (fs_task ctx) \<noteq> TYPE_TERMINATION \<Longrightarrow> ftp_thread_round e ctx w = Some (Some r, ctx', w') \<Longrightarrow>
    ftp_thread_end e ctx' w' r = (ctx'', w'') \<Longrightarrow> ftp_step e P (True, ctx, w) (False, ctx'', w'')"
| finish: "tk_type (fs_task ctx) = TYPE_TERMINATION \<Longrightarrow>
    ftp_thread_end e ctx w REASON_TERMINATION = (ctx', w') \<Longrightarrow> ftp_step e P (True, ctx, w) (False, ctx', w')"
| download: "uni_net_ftp_client_download (Some ctx) f c n = (b, Some ctx') \<Longrightarrow>
    ftp_step e P (run, ctx, w) (run, ctx', w)"
| list: "uni_net_ftp_client_list (Some ctx) = (b, Some ctx') \<Longrightarrow> ftp_step e P (run, ctx, w) (run, ctx', w)"
| disconnect: "uni_net_ftp_client_disconnect (Some ctx) = (b, Some ctx') \<Longrightarrow>
    ftp_step e P (run, ctx, w) (run, ctx', w)"
| set_callback: "P cb \<Longrightarrow> uni_net_ftp_client_set_callback (Some ctx) cb = (b, Some ctx') \<Longrightarrow>
    ftp_step e P (run, ctx, w) (run, ctx', w)"

inductive ftp_reachable :: "'w ftp_env \<Rightarrow> ('w ftp_callback option \<Rightarrow> bool) \<Rightarrow> 'w ftp_sys \<Rightarrow> 'w ftp_sys \<Rightarrow> bool"
  for e P s0 where
  init: "ftp_reachable e P s0 s0"
| step: "ftp_reachable e P s0 s \<Longrightarrow> ftp_step e P s s' \<Longrightarrow> ftp_reachable e P s0 s'"

text \<open>A zero-initialised context with a configuration.\<close>

definition ftp_initial :: "'w ftp_ctx \<Rightarrow> bool" where
  "ftp_initial ctx \<longleftrightarrow> ftp_closed ctx \<and> \<not> fs_thread ctx \<and> fs_callback ctx = None
     \<and> fs_task ctx = \<lparr>tk_type = TYPE_STARTUP, tk_state = STATE_NOT_STARTED, tk_cookie_file = None,
          tk_progress = 0, tk_progress_total = 0, tk_name = replicate 32 NUL\<rparr>"

definition callbacks_quiet :: "('w \<Rightarrow> nat) \<Rightarrow> ('w ftp_callback option \<Rightarrow> bool) \<Rightarrow> bool" where
  "callbacks_quiet rank P \<longleftrightarrow> (\<forall>cb. P (Some cb) \<longrightarrow> (\<forall>w t ty d n. rank (cb w t ty d n) \<le> rank w))"

definition ftp_sys_inv :: "('w \<Rightarrow> nat) \<Rightarrow> 'w ftp_sys \<Rightarrow> bool" where
  "ftp_sys_inv rank s \<longleftrightarrow> (case s of (run, ctx, w) \<Rightarrow>
     ftp_inv rank ctx \<and> (\<not> run \<longrightarrow> ftp_closed ctx \<and> \<not> fs_thread ctx))"

lemma nth_strncpy_name:
  assumes "length name = 32" and "name ! 31 = NUL"
  shows "length (strncpy_name name f) = 32 \<and> strncpy_name name f ! 31 = NUL"
proof -
  obtain p where "strncpy_name name f = p @ drop 31 name" "length p = 31"
    using assms(1) by (simp add: strncpy_name_def)
  with assms show ?thesis by (simp add: nth_append)
qed

lemma ftp_inv_thread: "ftp_inv rank (ctx\<lparr>fs_thread := b\<rparr>) = ftp_inv rank ctx"
    "ftp_inv rank (ctx\<lparr>cf_server_addr := a\<rparr>) = ftp_inv rank ctx"
    "ftp_inv rank (ctx\<lparr>cf_server_port := p\<rparr>) = ftp_inv rank ctx"
  by (simp_all add: ftp_inv_def ftp_sockets_ok_def ftp_callback_quiet_def)

lemma ftp_end_inv:
  assumes "ftp_inv rank ctx" and "ftp_thread_end e ctx w r = (ctx', w')"
  shows "ftp_sys_inv rank (False, ctx', w')"
proof -
  have "ctx' = (fst (ftp_disconnect e ctx w True r))\<lparr>fs_thread := False\<rparr>"
    using assms(2) by (simp add: ftp_thread_end_def Let_def split_beta)
  then show ?thesis
    using ftp_disconnect_spec [OF assms(1), of e w True r]
    by (simp add: ftp_sys_inv_def ftp_inv_thread ftp_closed_def)
qed

lemma ftp_connect_inv:
  assumes "uni_net_ftp_client_connect e (Some ctx) w addr port = (b, Some ctx', w')"
  shows "ftp_inv rank ctx' = ftp_inv rank ctx" and "ftp_closed ctx' = ftp_closed ctx"
    and "\<not> b \<Longrightarrow> fs_thread ctx' = fs_thread ctx"
  using assms
  by (auto simp: uni_net_ftp_client_connect_def ftp_inv_thread ftp_closed_def Let_def split: prod.splits if_splits)

lemma ftp_start_inv:
  assumes "ftp_inv rank ctx" and "ftp_thread_start e ctx w = (ctx', w')"
  shows "ftp_inv rank ctx'"
proof -
  obtain ctx1 w1 where d: "ftp_disconnect e ctx w False REASON_UNKNOWN = (ctx1, w1)" by fastforce
  then have "ftp_inv rank ctx1" using ftp_disconnect_spec [OF assms(1), of e w False REASON_UNKNOWN] by simp
  moreover have "ctx' = ftp_set_task (\<lambda>t. t\<lparr>tk_type := TYPE_STARTUP, tk_state := STATE_IN_PROGRESS, tk_progress := 0\<rparr>) ctx1"
    using assms(2) d by (simp add: ftp_thread_start_def)
  ultimately show ?thesis
    by (simp only:, intro ftp_inv_task) (simp_all add: ftp_inv_def ftp_task_ok_def)
qed

lemma ftp_step_inv:
  assumes env: "ftp_env_ok e rank" and cbs: "callbacks_quiet rank P"
  shows "ftp_step e P s s' \<Longrightarrow> ftp_sys_inv rank s \<Longrightarrow> ftp_sys_inv rank s'"
proof (induction rule: ftp_step.induct)
  case (start ctx w addr port ctx' w' ctx'' w'')
  then show ?case using ftp_connect_inv(1) [OF start(1), of rank] ftp_start_inv by (auto simp: ftp_sys_inv_def)
next
  case (start_fails ctx w addr port ctx' w')
  then show ?case using ftp_connect_inv(1) [OF start_fails(1), of rank] ftp_connect_inv(2,3) [OF start_fails(1)] by (simp add: ftp_sys_inv_def)
next
  case (round ctx w ctx' w')
  then show ?case using ftp_thread_round_ok [OF env, of ctx w] by (auto simp: ftp_sys_inv_def)
next
  case (break ctx w r ctx' w' ctx'' w'')
  then have "ftp_inv rank ctx'" using ftp_thread_round_ok [OF env, of ctx w] by (auto simp: ftp_sys_inv_def)
  then show ?case using break(3) by (rule ftp_end_inv)
next
  case (finish ctx w ctx' w')
  have "ftp_inv rank ctx" using finish(3) by (simp add: ftp_sys_inv_def)
  then show ?case using finish(2) by (rule ftp_end_inv)
next
  case (download ctx f c n b ctx' run w)
  then show ?case
    using nth_strncpy_name [of "tk_name (fs_task ctx)" f]
    by (auto simp: uni_net_ftp_client_download_def ftp_sys_inv_def ftp_closed_def ftp_inv_def ftp_task_ok_def
        ftp_sockets_ok_def ftp_callback_quiet_def ftp_set_task_def split: if_splits)
next
  case (list ctx b ctx' run w)
  then show ?case
    by (auto simp: uni_net_ftp_client_list_def ftp_sys_inv_def ftp_closed_def ftp_inv_def ftp_task_ok_def
        ftp_sockets_ok_def ftp_callback_quiet_def ftp_set_task_def split: if_splits)
next
  case (disconnect ctx b ctx' run w)
  then show ?case
    by (auto simp: uni_net_ftp_client_disconnect_def ftp_sys_inv_def ftp_closed_def ftp_inv_def ftp_task_ok_def
        ftp_sockets_ok_def ftp_callback_quiet_def ftp_set_task_def)
next
  case (set_callback cb ctx b ctx' run w)
  then show ?case
    using cbs
    by (auto simp: uni_net_ftp_client_set_callback_def callbacks_quiet_def ftp_sys_inv_def ftp_closed_def ftp_inv_def
        ftp_sockets_ok_def ftp_callback_quiet_def split: option.splits)
qed

lemma ftp_reachable_inv:
  assumes "ftp_env_ok e rank" and "callbacks_quiet rank P" and "ftp_initial ctx0"
  shows "ftp_reachable e P (False, ctx0, w0) s \<Longrightarrow> ftp_sys_inv rank s"
proof (induction rule: ftp_reachable.induct)
  case init
  then show ?case
    using assms(3) by (simp add: ftp_initial_def ftp_sys_inv_def ftp_inv_def ftp_closed_def ftp_task_ok_def
        ftp_sockets_ok_def ftp_callback_quiet_def)
next
  case (step s s')
  then show ?case using ftp_step_inv [OF assms(1,2)] by blast
qed



section \<open>The passive mode reply\<close>

lemma digits_value_append: "digits_value (ds @ [c]) = digits_value ds * 10 + digit_value c"
  by (simp add: digits_value_def)

lemma digit_value_char_of [simp]: "n < 10 \<Longrightarrow> digit_value (char_of (48 + n)) = int n"
  by (simp add: digit_value_def)

lemma digits_value_dec_string: "digits_value (dec_string n) = int n"
proof (induction n rule: dec_string.induct)
  case (1 n)
  show ?case
  proof (cases "n < 10")
    case True
    then show ?thesis by (simp add: dec_string.simps [of n] digits_value_def)
  next
    case False
    with 1 have "digits_value (dec_string n) = int (n div 10) * 10 + int (n mod 10)"
      by (simp add: dec_string.simps [of n] digits_value_append)
    also have "\<dots> = int n" by (simp flip: of_nat_mult of_nat_add add: of_nat_div of_nat_mod)
    finally show ?thesis .
  qed
qed

lemma c_strtol_dec:
  assumes "n \<le> 2147483647" and "rest = [] \<or> \<not> c_isdigit (hd rest)"
  shows "c_strtol (dec_string n @ rest) = (int n, length (dec_string n))"
proof -
  obtain x xs where x: "dec_string n = x # xs" "c_isdigit x"
    using dec_string_digits [of n] by (cases "dec_string n") (auto simp: dec_string.simps [of n] split: if_splits)
  then have ns: "\<not> c_isspace x" "x \<noteq> CHR ''-''" "x \<noteq> CHR ''+''"
    by (auto simp: c_isspace_def c_isdigit_def)
  have "takeWhile c_isdigit (dec_string n @ rest) = dec_string n"
    using dec_string_digits [of n] assms(2) by (cases rest) (auto simp: takeWhile_append list_all_iff)
  then show ?thesis
    using x ns assms(1) digits_value_dec_string [of n] by (simp add: c_strtol_def Let_def)
qed

lemma parse_pasv_Suc:
  assumes "n \<le> 2147483647"
  shows "parse_pasv (Suc (Suc k)) (dec_string n @ CHR '','' # rest) = map_option ((#) (int n)) (parse_pasv (Suc k) rest)"
  using c_strtol_dec [of n "CHR '','' # rest"] assms
  by (simp add: c_isdigit_def Let_def dec_string.simps [of n])

lemma parse_pasv_last:
  assumes "n \<le> 2147483647" and "rest = [] \<or> \<not> c_isdigit (hd rest)"
  shows "parse_pasv (Suc 0) (dec_string n @ rest) = Some [int n]"
  using c_strtol_dec [OF assms] by (simp add: Let_def dec_string.simps [of n])

lemma c_strchr_skip: "c \<notin> set xs \<Longrightarrow> c_strchr (xs @ c # ys) c = Some ys"
  by (induction xs) auto

definition pasv_text :: "nat \<Rightarrow> nat \<Rightarrow> nat \<Rightarrow> nat \<Rightarrow> nat \<Rightarrow> nat \<Rightarrow> string" where
  "pasv_text a b c d p1 p2 = dec_string a @ '','' @ dec_string b @ '','' @ dec_string c @ '','' @ dec_string d
     @ '','' @ dec_string p1 @ '','' @ dec_string p2"

text \<open>
  C23.  The client connects to the port the server announces: a 227 reply that prints an address and
  the two bytes of a port makes the client open the data socket on that port; if the connection
  is made, the task is ready to request its data.
\<close>

theorem ftp_handler_227_port:
  assumes "CHR ''('' \<notin> set pre" and "post = [] \<or> \<not> c_isdigit (hd post)"
    and "a < 256" "b < 256" "c < 256" "d < 256" "p1 < 256" "p2 < 256"
    and "ftp_connect_socket e ctx w CH_DATA (of_nat (p1 * 256 + p2)) = Some (True, ctx', w')"
  shows "ftp_handler_227 e ctx w (Some (pre @ ''('' @ pasv_text a b c d p1 p2 @ post))
    = Some (ftp_set_state STATE_STARTED ctx', w')"
proof -
  have six: "(6 :: nat) = Suc (Suc (Suc (Suc (Suc (Suc 0)))))" by simp
  have "parse_pasv 6 (pasv_text a b c d p1 p2 @ post) = Some [int a, int b, int c, int d, int p1, int p2]"
    using assms(2-8) unfolding six pasv_text_def
    by (simp add: parse_pasv_Suc parse_pasv_last del: parse_pasv.simps)
  moreover have "pasv_port [int a, int b, int c, int d, int p1, int p2] = of_nat (p1 * 256 + p2)"
    by (simp add: pasv_port_def)
  ultimately show ?thesis
    using assms(1,9) c_strchr_skip [of "CHR ''(''" pre "pasv_text a b c d p1 p2 @ post"]
    by (simp add: ftp_handler_227_def)
qed

section \<open>The startup sequence\<close>

text \<open>The server accepts a command, and the state machine makes its next step.\<close>

definition ftp_startup_next :: "'w ftp_env \<Rightarrow> 'w ftp_ctx \<times> 'w \<Rightarrow> ('w ftp_ctx \<times> 'w) option" where
  "ftp_startup_next e s = (case s of (ctx, w) \<Rightarrow> ftp_work_state e (ftp_handler_20x ctx) w)"

text \<open>
  C22.  After the greeting of the server the client sends its startup commands in the order of the
  table, one after each positive reply, and is idle after the reply to the last one.
\<close>

theorem ftp_startup_sequence:
  assumes "tk_type (fs_task ctx) = TYPE_STARTUP"
  shows "\<exists>ctx'. do { s \<leftarrow> ftp_work_state e (ftp_handler_220 ctx) w;
        s \<leftarrow> ftp_startup_next e s; s \<leftarrow> ftp_startup_next e s; ftp_startup_next e s } =
      Some (ctx', foldl (\<lambda>w cmd. snd (os_send e w (fs_socket_cmd ctx) cmd)) w startup_cmds)
    \<and> tk_type (fs_task ctx') = TYPE_IDLE"
  using assms
  by (simp add: ftp_work_state_def ftp_work_state_startup_def ftp_handler_220_def ftp_handler_20x_def
      ftp_set_state_def ftp_set_task_def ftp_startup_next_def ftp_send_cmd_def startup_cmds_def
      mem_get_def word_le_nat_alt Let_def split_beta)

section \<open>The end of a session\<close>

text \<open>
  C36.  An error reply is reported to the callback twice: the handler closes the connection and
  reports reason 1, and the end of the thread reports a disconnection again, with reason 6.
\<close>

theorem ftp_disconnect_reported_twice:
  assumes "fs_callback ctx = Some cb" and "ftp_handler_error e ctx w = (ctx1, w1)"
    and "ftp_thread_end e ctx1 w1 REASON_TERMINATION = (ctx2, w2)"
  shows "\<exists>v t. w1 = cb v t CB_DISCONNECT None 1 \<and> w2 = cb w1 (fs_task ctx1) CB_DISCONNECT None 6"
proof -
  have c1: "fs_socket_cmd ctx1 = NULL_SOCKET" "fs_socket_data ctx1 = NULL_SOCKET" "\<not> fs_socket_set ctx1"
    "fs_callback ctx1 = Some cb" and w1: "\<exists>v t. w1 = cb v t CB_DISCONNECT None 1"
    using assms(1,2) by (auto simp: ftp_handler_error_def ftp_disconnect_def ftp_close_data_def ftp_call_def
        ftp_set_task_def Let_def split_beta split: if_splits)
  have "w2 = cb w1 (fs_task ctx1) CB_DISCONNECT None 6"
    using assms(3) c1 by (simp add: ftp_thread_end_def ftp_disconnect_def ftp_close_data_def ftp_call_def Let_def)
  with w1 show ?thesis by blast
qed




end
