(* ===== verification/Ftp_Transfer.thy ===== *)
theory Ftp_Transfer
  imports Ftp_Protocol "HOL-Library.Sublist"
begin

text \<open>
  The transfer of a file by the FTP client, over a data connection whose received bytes are read
  without copying: the bytes stay in the receive buffer until they are released.
\<close>

section \<open>The data connection\<close>

text \<open>
  \<open>inp w\<close> are the bytes of the receive buffer of the socket, \<open>got w\<close> the bytes the callback has
  been given, and \<open>ok j w\<close> says that the stack works and has lent \<open>j\<close> bytes to the caller.  The
  buffer may grow at any time.  A positive result of a zero-copy \<^verbatim>\<open>FreeRTOS_recv\<close> lends a prefix of
  the buffer of at most \<open>B\<close> bytes, there is such a result whenever the buffer is not empty, and
  giving the lent bytes back removes them from the buffer.
\<close>

definition zerocopy_stream ::
    "'w ftp_env \<Rightarrow> socket_t \<Rightarrow> (nat \<Rightarrow> 'w \<Rightarrow> bool) \<Rightarrow> ('w \<Rightarrow> char list) \<Rightarrow> ('w \<Rightarrow> char list) \<Rightarrow> nat \<Rightarrow> bool" where
  "zerocopy_stream e s ok inp got B \<longleftrightarrow>
     (\<forall>w n j c ob w'. ok j w \<longrightarrow> fos_recv_zerocopy e w s n = (c, ob, w') \<longrightarrow>
        ok (nat c) w' \<and> prefix (inp w) (inp w') \<and> got w' = got w \<and> (0 < n \<and> inp w \<noteq> [] \<longrightarrow> 0 < c)
        \<and> (0 < c \<longrightarrow> (\<exists>d. ob = Some d \<and> length d = nat c \<and> length d \<le> B \<and> prefix d (inp w'))))
   \<and> (\<forall>w k. ok k w \<longrightarrow> 0 < k \<longrightarrow> ok 0 (fos_ReleaseTCPPayloadBuffer e w s k)
        \<and> prefix (drop k (inp w)) (inp (fos_ReleaseTCPPayloadBuffer e w s k))
        \<and> got (fos_ReleaseTCPPayloadBuffer e w s k) = got w)"

lemma zerocopyD:
  assumes "zerocopy_stream e s ok inp got B" and "ok j w"
  shows "fos_recv_zerocopy e w s n = (c, ob, w') \<Longrightarrow>
        ok (nat c) w' \<and> prefix (inp w) (inp w') \<and> got w' = got w \<and> (0 < n \<and> inp w \<noteq> [] \<longrightarrow> 0 < c)
        \<and> (0 < c \<longrightarrow> (\<exists>d. ob = Some d \<and> length d = nat c \<and> length d \<le> B \<and> prefix d (inp w')))"
    and "0 < j \<Longrightarrow> ok 0 (fos_ReleaseTCPPayloadBuffer e w s j) \<and> prefix (drop j (inp w)) (inp (fos_ReleaseTCPPayloadBuffer e w s j))
        \<and> got (fos_ReleaseTCPPayloadBuffer e w s j) = got w"
  using assms unfolding zerocopy_stream_def by blast+

text \<open>The callback appends what it is given to \<open>got\<close>.\<close>

definition callback_collects ::
    "'w ftp_callback \<Rightarrow> (nat \<Rightarrow> 'w \<Rightarrow> bool) \<Rightarrow> ('w \<Rightarrow> char list) \<Rightarrow> ('w \<Rightarrow> char list) \<Rightarrow> bool" where
  "callback_collects cb ok inp got \<longleftrightarrow>
     (\<forall>w t d n j. ok j w \<longrightarrow> ok j (cb w t CB_RECV (Some d) n) \<and> prefix (inp w) (inp (cb w t CB_RECV (Some d) n))
        \<and> got (cb w t CB_RECV (Some d) n) = got w @ take n d)"

section \<open>The data loop\<close>

definition ftp_received :: "int \<Rightarrow> 'w ftp_ctx \<Rightarrow> 'w ftp_ctx" where
  "ftp_received c ctx = ftp_set_task (\<lambda>t. t\<lparr>tk_progress := tk_progress t + of_int c\<rparr>)
     (if tk_state (fs_task ctx) = STATE_STARTED then ftp_set_state STATE_IN_PROGRESS ctx else ctx)"

lemma ftp_received_simps [simp]:
  "fs_socket_data (ftp_received c ctx) = fs_socket_data ctx" "fs_callback (ftp_received c ctx) = fs_callback ctx"
  "tk_progress (fs_task (ftp_received c ctx)) = tk_progress (fs_task ctx) + of_int c"
  "tk_progress_total (fs_task (ftp_received c ctx)) = tk_progress_total (fs_task ctx)"
  "tk_type (fs_task (ftp_received c ctx)) = tk_type (fs_task ctx)"
  "tk_state (fs_task (ftp_received c ctx)) =
     (if tk_state (fs_task ctx) = STATE_STARTED then STATE_IN_PROGRESS else tk_state (fs_task ctx))"
  by (simp_all add: ftp_received_def ftp_set_state_def)

lemma ftp_data_loop_chunk:
  assumes zc: "zerocopy_stream e (fs_socket_data ctx) ok inp got B" and cb: "fs_callback ctx = Some cb"
    and col: "callback_collects cb ok inp got" and w: "ok j w"
    and rv: "fos_recv_zerocopy e w (fs_socket_data ctx) (cfg_MSS e) = (c, ob, w1)" and c: "0 < c"
  obtains d w3 where "ftp_data_loop e ctx w =
      (if tk_progress (fs_task ctx) + of_int c < tk_progress_total (fs_task ctx)
       then ftp_data_loop e (ftp_received c ctx) w3 else Some (ftp_received c ctx, w3))"
    and "length d = nat c" and "length d \<le> B" and "ok 0 w3" and "got w3 = got w @ d" and "prefix (inp w) (d @ inp w3)"
proof -
  note r = zerocopyD(1) [OF zc w rv]
  obtain d where d: "ob = Some d" "length d = nat c" "length d \<le> B" "prefix d (inp w1)" using r c by blast
  have w1: "ok (nat c) w1" "prefix (inp w) (inp w1)" "got w1 = got w" using r by blast+
  define ctx1 where "ctx1 = (if tk_state (fs_task ctx) = STATE_STARTED then ftp_set_state STATE_IN_PROGRESS ctx else ctx)"
  define w2 where "w2 = ftp_call ctx1 w1 CB_RECV ob (nat c)"
  define w3 where "w3 = fos_ReleaseTCPPayloadBuffer e w2 (fs_socket_data ctx) (nat c)"
  have c1: "fs_callback ctx1 = Some cb" "fs_socket_data ctx1 = fs_socket_data ctx"
    using cb by (simp_all add: ctx1_def ftp_set_state_def)
  have w2: "ok (nat c) w2" "prefix (inp w1) (inp w2)" "got w2 = got w @ d"
    using col c1 d w1 by (simp_all add: w2_def ftp_call_def callback_collects_def)
  have w3: "ok 0 w3" "prefix (drop (nat c) (inp w2)) (inp w3)" "got w3 = got w @ d"
    using zerocopyD(2) [OF zc w2(1)] w2(3) c by (simp_all add: w3_def)
  have "prefix d (inp w2)" using d(4) w2(2) by (rule prefix_order.trans)
  then have "inp w2 = d @ drop (nat c) (inp w2)" using d(2) by (auto simp: prefix_def)
  then have "prefix (inp w2) (d @ inp w3)" using w3(2) by (metis same_prefix_prefix)
  then have ext: "prefix (inp w) (d @ inp w3)" using w1(2) w2(2) by (blast intro: prefix_order.trans)
  have eq: "ftp_set_task (\<lambda>t. t\<lparr>tk_progress := tk_progress t + of_int c\<rparr>) ctx1 = ftp_received c ctx"
    by (simp add: ftp_received_def ctx1_def)
  have "ftp_data_loop e ctx w = (if tk_progress (fs_task ctx) + of_int c < tk_progress_total (fs_task ctx)
       then ftp_data_loop e (ftp_received c ctx) w3 else Some (ftp_received c ctx, w3))"
    using c d(1)
    by (subst ftp_data_loop.simps) (simp add: rv Let_def w2_def [unfolded d(1)] w3_def eq c1(2) flip: ctx1_def)
  from that [OF this d(2,3) w3(1,3) ext] show thesis .
qed

text \<open>The bytes \<open>x\<close> have been moved from the connection to the callback.\<close>

definition ftp_moved :: "('w \<Rightarrow> char list) \<Rightarrow> ('w \<Rightarrow> char list) \<Rightarrow> char list \<Rightarrow> 'w ftp_ctx \<times> 'w \<Rightarrow> 'w ftp_ctx \<times> 'w \<Rightarrow> bool" where
  "ftp_moved inp got x s s' \<longleftrightarrow> (case (s, s') of ((ctx, w), (ctx', w')) \<Rightarrow>
     got w' = got w @ x \<and> prefix (inp w) (x @ inp w')
   \<and> unat (tk_progress (fs_task ctx')) = unat (tk_progress (fs_task ctx)) + length x
   \<and> tk_progress_total (fs_task ctx') = tk_progress_total (fs_task ctx)
   \<and> tk_type (fs_task ctx') = tk_type (fs_task ctx)
   \<and> (tk_state (fs_task ctx) = STATE_IN_PROGRESS \<longrightarrow> tk_state (fs_task ctx') = STATE_IN_PROGRESS))"

lemma ftp_moved_trans:
  assumes "ftp_moved inp got x s s1" and "ftp_moved inp got y s1 s2"
  shows "ftp_moved inp got (x @ y) s s2"
proof -
  obtain c w c1 w1 c2 w2 where s: "s = (c, w)" "s1 = (c1, w1)" "s2 = (c2, w2)" by (cases s; cases s1; cases s2)
  have "prefix (inp w) (x @ inp w1)" "prefix (inp w1) (y @ inp w2)" using assms by (simp_all add: ftp_moved_def s)
  then have "prefix (inp w) ((x @ y) @ inp w2)" by (metis append.assoc prefix_order.trans same_prefix_prefix)
  then show ?thesis using assms by (simp add: ftp_moved_def s)
qed

text \<open>
  The loop ends, and moves received bytes to the callback until the announced size is reached or
  everything that was in the buffer at the beginning has been moved.  The progress does not wrap
  around as long as one more chunk fits below 4 GB.
\<close>

lemma ftp_data_loop_moves:
  assumes "fs_callback ctx = Some cb" and "callback_collects cb ok inp got"
    and "zerocopy_stream e (fs_socket_data ctx) ok inp got B" and "0 < cfg_MSS e"
    and "unat (tk_progress (fs_task ctx)) + B < 2 ^ 32" and "unat (tk_progress_total (fs_task ctx)) + B \<le> 2 ^ 32" and "ok j w"
  shows "\<exists>x ctx' w'. ftp_data_loop e ctx w = Some (ctx', w') \<and> ok 0 w' \<and> ftp_moved inp got x (ctx, w) (ctx', w')
     \<and> (prefix (inp w) x \<or> tk_progress_total (fs_task ctx') \<le> tk_progress (fs_task ctx'))"
  using assms
proof (induction "unat (tk_progress_total (fs_task ctx)) - unat (tk_progress (fs_task ctx))" arbitrary: ctx w j rule: less_induct)
  case less
  let ?p = "tk_progress (fs_task ctx)" and ?T = "tk_progress_total (fs_task ctx)"
  obtain c ob w1 where rv: "fos_recv_zerocopy e w (fs_socket_data ctx) (cfg_MSS e) = (c, ob, w1)"
    by (cases "fos_recv_zerocopy e w (fs_socket_data ctx) (cfg_MSS e)")
  show ?case
  proof (cases "0 < c")
    case False
    then have io: "inp w = []" "got w1 = got w" "ok 0 w1"
      using zerocopyD(1) [OF less.prems(3,7) rv] less.prems(4) by simp_all
    have eq: "ftp_data_loop e ctx w = Some (ctx, w1)"
      using False by (subst ftp_data_loop.simps) (simp add: rv)
    show ?thesis using io by (intro exI [of _ "[]"] exI [of _ ctx] exI [of _ w1]) (simp add: eq ftp_moved_def)
  next
    case True
    let ?ctx = "ftp_received c ctx"
    obtain d w3 where st: "ftp_data_loop e ctx w = (if ?p + of_int c < ?T then ftp_data_loop e ?ctx w3 else Some (?ctx, w3))"
      and d: "length d = nat c" "length d \<le> B" "ok 0 w3" "got w3 = got w @ d" "prefix (inp w) (d @ inp w3)"
      by (rule ftp_data_loop_chunk [OF less.prems(3,1,2,7) rv True])
    have "unat (of_int c :: u32) = nat c" using True d(1,2) less.prems(5) by (intro unat_of_int_small) simp_all
    then have p: "unat (?p + of_int c) = unat ?p + length d"
      using d(1,2) less.prems(5) by (subst unat_plus_no_wrap) simp_all
    have one: "ftp_moved inp got d (ctx, w) (?ctx, w3)" using d p by (simp add: ftp_moved_def)
    show ?thesis
    proof (cases "?p + of_int c < ?T")
      case False
      then show ?thesis using st one d(3) not_less [of _ ?T]
        by (intro exI [of _ d] exI [of _ ?ctx] exI [of _ w3]) auto
    next
      case again: True
      then have lt: "unat ?p + length d < unat ?T" using p by (simp add: word_less_nat_alt)
      have dec: "unat (tk_progress_total (fs_task ?ctx)) - unat (tk_progress (fs_task ?ctx)) < unat ?T - unat ?p"
        using lt p True d(1) by simp
      have small: "unat (tk_progress (fs_task ?ctx)) + B < 2 ^ 32" using lt p less.prems(6) by simp
      obtain x ctx' w' where r: "ftp_data_loop e ?ctx w3 = Some (ctx', w')" "ftp_moved inp got x (?ctx, w3) (ctx', w')" "ok 0 w'"
        and fin: "prefix (inp w3) x \<or> tk_progress_total (fs_task ctx') \<le> tk_progress (fs_task ctx')"
        using less.hyps [OF dec _ less.prems(2) _ less.prems(4) small _ d(3)] less.prems(1,3,6) by (simp only: ftp_received_simps) blast
      have "prefix (inp w) (d @ x) \<or> tk_progress_total (fs_task ctx') \<le> tk_progress (fs_task ctx')"
        using fin d(5) by (metis prefix_order.trans same_prefix_prefix)
      then show ?thesis using st again r(1,3) ftp_moved_trans [OF one r(2)]
        by (intro exI [of _ "d @ x"] exI [of _ ctx'] exI [of _ w']) simp
    qed
  qed
qed

text \<open>
  C14.  The data loop of the FTP client always returns, and loses, repeats and reorders nothing, even
  while more bytes arrive: what the callback is given is the next bytes of the connection, in order,
  the progress of the task grows by their number without wrapping around, and the loop stops only
  when all bytes that were there at the beginning have been delivered or the announced size is
  reached.  No bytes are lent when it returns.
\<close>

theorem ftp_data_delivered:
  assumes "fs_callback ctx = Some cb" and "callback_collects cb ok inp got"
    and "zerocopy_stream e (fs_socket_data ctx) ok inp got B" and "0 < cfg_MSS e"
    and "unat (tk_progress (fs_task ctx)) + B < 2 ^ 32" and "unat (tk_progress_total (fs_task ctx)) + B \<le> 2 ^ 32" and "ok j w"
  shows "\<exists>ctx' w' x. ftp_data_loop e ctx w = Some (ctx', w') \<and> ok 0 w'
     \<and> got w' = got w @ x \<and> prefix (inp w) (x @ inp w')
     \<and> unat (tk_progress (fs_task ctx')) = unat (tk_progress (fs_task ctx)) + length x
     \<and> (prefix (inp w) x \<or> tk_progress_total (fs_task ctx') \<le> tk_progress (fs_task ctx'))"
proof -
  obtain x ctx' w' where "ftp_data_loop e ctx w = Some (ctx', w')" "ok 0 w'" "ftp_moved inp got x (ctx, w) (ctx', w')"
    "prefix (inp w) x \<or> tk_progress_total (fs_task ctx') \<le> tk_progress (fs_task ctx')"
    using ftp_data_loop_moves [OF assms] by blast
  then show ?thesis by (intro exI [of _ ctx'] exI [of _ w'] exI [of _ x]) (simp add: ftp_moved_def)
qed

text \<open>
  C18.  A download completes: when the announced number of bytes is in the receive buffer, handling
  the data socket gives at least all of them to the callback, and the state machine then reports the
  end of the reception, closes the data socket and is idle.
\<close>

theorem ftp_download_completes:
  assumes "fs_callback ctx = Some cb" and "callback_collects cb ok inp got"
    and "zerocopy_stream e (fs_socket_data ctx) ok inp got B" and "0 < cfg_MSS e"
    and "tk_type (fs_task ctx) = TYPE_RETR" and "tk_state (fs_task ctx) = STATE_IN_PROGRESS"
    and "tk_progress (fs_task ctx) = 0" and "unat (tk_progress_total (fs_task ctx)) \<le> length (inp w)"
    and "unat (tk_progress_total (fs_task ctx)) + B \<le> 2 ^ 32" and "B < 2 ^ 32" and "ok j w"
  shows "\<exists>ctx' w' x ctx'' w''. ftp_work_data e ctx w = Some (ctx', w') \<and> got w' = got w @ x
     \<and> prefix (take (unat (tk_progress_total (fs_task ctx))) (inp w)) x
     \<and> ftp_work_state e ctx' w' = Some (ctx'', w'')
     \<and> (ctx'', w'') = ftp_set_to_idle e ctx' (ftp_call ctx' w' CB_RECV_FINISHED None 0)
     \<and> fs_socket_data ctx'' = NULL_SOCKET \<and> tk_type (fs_task ctx'') = TYPE_IDLE"
proof -
  let ?T = "tk_progress_total (fs_task ctx)"
  have p0: "unat (tk_progress (fs_task ctx)) + B < 2 ^ 32" using assms(7,10) by simp
  obtain x ctx' w' where r: "ftp_data_loop e ctx w = Some (ctx', w')" "ftp_moved inp got x (ctx, w) (ctx', w')"
    "prefix (inp w) x \<or> tk_progress_total (fs_task ctx') \<le> tk_progress (fs_task ctx')"
    using ftp_data_loop_moves [OF assms(1-4) p0 assms(9,11)] by blast
  have m: "got w' = got w @ x" "prefix (inp w) (x @ inp w')" "unat (tk_progress (fs_task ctx')) = length x"
    "tk_progress_total (fs_task ctx') = ?T" "tk_type (fs_task ctx') = TYPE_RETR" "tk_state (fs_task ctx') = STATE_IN_PROGRESS"
    using r(2) assms(5-7) by (simp_all add: ftp_moved_def)
  have all: "unat ?T \<le> length x"
    using r(3) m(3,4) assms(8) prefix_length_le [of "inp w" x] by (auto simp: word_le_nat_alt)
  have "prefix (take (unat ?T) (inp w)) (x @ inp w')" using take_is_prefix m(2) by (rule prefix_order.trans)
  then have pre: "prefix (take (unat ?T) (inp w)) x" by (rule prefix_length_prefix) (use all in simp_all)
  have fin: "?T \<le> tk_progress (fs_task ctx')" using all m(3) by (simp add: word_le_nat_alt)
  have data: "ftp_work_data e ctx w = Some (ctx', w')" using r(1) assms(5) by (simp add: ftp_work_data_def)
  obtain ctx'' w'' where f: "ftp_set_to_idle e ctx' (ftp_call ctx' w' CB_RECV_FINISHED None 0) = (ctx'', w'')" by fastforce
  then have "ftp_work_state e ctx' w' = Some (ctx'', w'')"
    using m(4-6) fin by (simp add: ftp_work_state_def ftp_work_state_data_def)
  moreover have "fs_socket_data ctx'' = NULL_SOCKET" "tk_type (fs_task ctx'') = TYPE_IDLE"
    using f by (auto simp: ftp_set_to_idle_def ftp_close_data_def ftp_idle_task_def Let_def split: if_splits)
  ultimately show ?thesis using data f m(1) pre by auto
qed

end
