(* ===== verification/Ftp_On_Tcp.thy ===== *)
theory Ftp_On_Tcp
  imports Ftp_Transfer Tcp_Stream
begin

text \<open>
  The data connection of the FTP client on top of the TCP sockets: the parameters that stand for the
  zero-copy \<^verbatim>\<open>FreeRTOS_recv\<close> and for \<^verbatim>\<open>FreeRTOS_ReleaseTCPPayloadBuffer\<close> are instantiated by the model of
  these calls, and the IP task stores arriving segments between any two of them.
\<close>

section \<open>Lent bytes\<close>

lemma getptr_correct:
  assumes wf: "sb_wf b" and p: "uxStreamBufferGetPtr b = (n, i)"
  shows "mem_read (ucArray b) i (unat n) = Some (take (unat n) (sb_contents b))" and "unat n \<le> length (sb_contents b)"
    and "i = unat (uxTail b)" and "unat n = min (length (sb_contents b)) (unat (sbLENGTH b) - unat (uxTail b))"
proof -
  note W = sb_wfD [OF wf]
  show i: "i = unat (uxTail b)" using p by (simp add: uxStreamBufferGetPtr_def Let_def)
  have "unat (sbLENGTH b - uxTail b) = unat (sbLENGTH b) - unat (uxTail b)" using W by (simp add: unat_sub word_le_nat_alt)
  then show n: "unat n = min (length (sb_contents b)) (unat (sbLENGTH b) - unat (uxTail b))"
    using p by (auto simp: uxStreamBufferGetPtr_def Let_def c_min_def word_less_nat_alt word_le_nat_alt)
  then show le: "unat n \<le> length (sb_contents b)" by (simp del: length_contents)
  have fits: "i + unat n \<le> length (ucArray b)" using W n i by simp
  have "take (unat n) (drop i (ucArray b)) = sb_view b (unat n)"
    using fits W(3) i by (intro nth_equalityI) (simp_all add: sb_view_def)
  also have "\<dots> = take (unat n) (sb_contents b)" using le by (simp add: sb_contents_def take_sb_view)
  finally show "mem_read (ucArray b) i (unat n) = Some (take (unat n) (sb_contents b))"
    using fits by (simp add: mem_read_def)
qed

text \<open>\<open>j\<close> bytes at the pointer \<open>p\<close> have been lent by the socket.\<close>

definition lent :: "nat \<Rightarrow> nat \<Rightarrow> tcp_socket \<Rightarrow> bool" where
  "lent p j so \<longleftrightarrow> 0 < j \<longrightarrow> (case rxStream so of None \<Rightarrow> False
     | Some b \<Rightarrow> p = snd (uxStreamBufferGetPtr b) \<and> j \<le> unat (fst (uxStreamBufferGetPtr b)))"

lemma lent_arrived:
  assumes so: "sock_wf so" and a: "arrived so d so'" and l: "lent p j so"
  shows "lent p j so'"
proof (cases "0 < j")
  case True
  obtain b where b: "rxStream so = Some b" "p = snd (uxStreamBufferGetPtr b)" "j \<le> unat (fst (uxStreamBufferGetPtr b))"
    using l True by (auto simp: lent_def split: option.splits)
  obtain b' where b': "rxStream so' = Some b'" "uxTail b' = uxTail b" "sbLENGTH b' = sbLENGTH b"
    using a b(1) by (auto simp: arrived_def split: option.splits)
  have wf: "sb_wf b" "sb_wf b'" using so a b(1) b'(1) by (simp_all add: sock_wf_def arrived_def)
  have c: "sb_contents b' = sb_contents b @ d" using a b(1) b'(1) by (simp add: arrived_def rx_bytes_def)
  have "length (sb_contents b) \<le> length (sb_contents b')" unfolding c by simp
  moreover note getptr_correct(3,4) [OF wf(1) prod.collapse [symmetric]] getptr_correct(3,4) [OF wf(2) prod.collapse [symmetric]]
  ultimately show ?thesis using b(2,3) b' by (simp add: lent_def del: length_contents)
qed (simp add: lent_def)

text \<open>A zero-copy reception does not wait, and lends the bytes up to the end of the array.\<close>

definition ZERO_COPY_DONTWAIT :: u32 where
  "ZERO_COPY_DONTWAIT = or FREERTOS_ZERO_COPY FREERTOS_MSG_DONTWAIT"

lemma zero_copy_flags [simp]:
  "and ZERO_COPY_DONTWAIT FREERTOS_ZERO_COPY \<noteq> 0" "and ZERO_COPY_DONTWAIT FREERTOS_MSG_DONTWAIT \<noteq> 0"
  "and FREERTOS_MSG_DONTWAIT FREERTOS_ZERO_COPY = 0" "and FREERTOS_MSG_DONTWAIT FREERTOS_MSG_PEEK = 0"
  by (simp_all add: ZERO_COPY_DONTWAIT_def FREERTOS_ZERO_COPY_def FREERTOS_MSG_DONTWAIT_def FREERTOS_MSG_PEEK_def)

lemma valid_bound: "sock_wf so \<Longrightarrow> fr_bound so \<Longrightarrow> prvValidSocket (Some so) IPPROTO_TCP True"
  by (simp add: prvValidSocket_def sock_wf_def)

lemma rx_count_bytes:
  assumes "sock_wf so"
  shows "rx_count so 0 = int (length (rx_bytes so))"
proof (cases "rxStream so")
  case (Some b)
  then have "sint (uxStreamBufferGetSize b) = int (length (sb_contents b))" using assms by (intro sb_counts) (simp add: sock_wf_def)
  then show ?thesis using Some by (simp add: rx_count_def rx_bytes_def del: length_contents)
qed (simp add: rx_count_def rx_bytes_def)

lemma recv_zerocopy:
  assumes e: "rtos_ok e" and so: "sock_wf so" "fr_bound so"
  shows "\<exists>r d w'. FreeRTOS_recv e w (Some so) True n ZERO_COPY_DONTWAIT = Some (r, d, Some so, w') \<and> r < 2 ^ 31
    \<and> (rx_bytes so \<noteq> [] \<longrightarrow> 0 < r)
    \<and> (0 < r \<longrightarrow> length d = nat r \<and> prefix d (rx_bytes so)
        \<and> (\<exists>b. rxStream so = Some b \<and> unat (fst (uxStreamBufferGetPtr b)) = nat r))"
proof (cases "rx_bytes so = []")
  case True
  then have z: "rx_count so 0 = 0" using rx_count_bytes [OF so(1)] by simp
  obtain bits so1 w1 where wb: "k_WaitBits e w so eSOCKET_INTR 0 = (bits, so1, w1)" by (cases "k_WaitBits e w so eSOCKET_INTR 0")
  have so1: "so1 = so" using rtos_okD(7) [OF e wb] .
  have "\<exists>r bits' w'. prvRecvWait e w so ZERO_COPY_DONTWAIT = Some (r, bits', so, w') \<and> r \<le> 0"
    using z wb so1 rtos_okD(2,3) [OF e] by (auto simp: prvRecvWait_def tcp_recv_wait.simps)
  then obtain r bits' w' where r: "prvRecvWait e w so ZERO_COPY_DONTWAIT = Some (r, bits', so, w')" "r \<le> 0" by blast
  then have "\<exists>r w'. FreeRTOS_recv e w (Some so) True n ZERO_COPY_DONTWAIT = Some (r, [], Some so, w') \<and> r \<le> 0"
    using valid_bound [OF so] rtos_okD(5) [OF e] by (auto simp: FreeRTOS_recv_def)
  then show ?thesis using True by force
next
  case False
  then obtain b where b: "rxStream so = Some b" by (auto simp: rx_bytes_def split: option.splits)
  have wf: "sb_wf b" using so(1) b by (simp add: sock_wf_def)
  have rb: "rx_bytes so = sb_contents b" using b by (simp add: rx_bytes_def)
  obtain m i where p: "uxStreamBufferGetPtr b = (m, i)" by (cases "uxStreamBufferGetPtr b")
  note g = getptr_correct [OF wf p]
  have pos: "0 < length (sb_contents b)" using False rb by (simp del: length_contents)
  then have m0: "0 < unat m" using g(4) sb_wfD [OF wf] by simp
  have m31: "unat m < 2 ^ 31" using g(2) sb_counts(4) [OF wf] by linarith
  then have sm: "sint m = int (unat m)" by (rule sint_small)
  have "rx_count so 0 \<noteq> 0" "0 < rx_count so 0" using rx_count_bytes [OF so(1)] pos rb by (simp_all del: length_contents)
  then have "FreeRTOS_recv e w (Some so) True n ZERO_COPY_DONTWAIT = Some (int (unat m), take (unat m) (sb_contents b), Some so, w)"
    using valid_bound [OF so] b p g(1) sm
    by (simp add: FreeRTOS_recv_def prvRecvWait_def tcp_recv_wait.simps prvRecvData_def)
  moreover have "int (unat m) < 2 ^ 31" using m31 of_nat_less_iff [of "unat m" "2 ^ 31", where 'a = int] by simp
  moreover have "0 < uint m" using m0 of_nat_0_less_iff [of "unat m", where 'a = int] by simp
  ultimately show ?thesis using g(2) b p rb take_is_prefix [of "unat m" "sb_contents b"] by auto
qed

lemma release_lent:
  assumes e: "rtos_ok e" and so: "sock_wf so" "fr_bound so" and l: "lent p j so" and j: "0 < j"
  shows "\<exists>so' w'. FreeRTOS_ReleaseTCPPayloadBuffer e w (Some so) p (int j) = Some (True, Some so', w') \<and> took so j so'"
proof -
  obtain b where b: "rxStream so = Some b" "p = snd (uxStreamBufferGetPtr b)" "j \<le> unat (fst (uxStreamBufferGetPtr b))"
    using l j by (auto simp: lent_def split: option.splits)
  have wf: "sb_wf b" using so(1) b(1) by (simp add: sock_wf_def)
  have rb: "rx_bytes so = sb_contents b" using b(1) by (simp add: rx_bytes_def)
  have len: "j \<le> length (rx_bytes so)" "j < 2 ^ 31"
    using getptr_correct(2) [OF wf prod.collapse [symmetric]] b(3) sb_counts(4) [OF wf] unfolding rb by linarith+
  have uj: "unat (of_nat j :: size_t) = j" using len(2) by (simp add: unat_of_nat_32)
  then have m: "min (length (rx_bytes so)) (unat (of_nat j :: size_t)) = j" using len(1) by simp
  obtain so' w' where r: "prvRecvData e w so False (of_nat j) FREERTOS_MSG_DONTWAIT = Some (int j, [], so', w')" "took so j so'"
    by (rule recv_data [OF so(1) b(1) zero_copy_flags(3,4), where n = "of_nat j" and want = False, unfolded m]) simp
  have "0 < rx_count so 0" using rx_count_bytes [OF so(1)] len(1) j by auto
  then have "FreeRTOS_recv e w (Some so) False (of_nat j) FREERTOS_MSG_DONTWAIT = Some (int j, [], Some so', w')"
    using valid_bound [OF so] r(1) by (simp add: FreeRTOS_recv_def prvRecvWait_def tcp_recv_wait.simps)
  moreover have "of_nat j \<le> fst (uxStreamBufferGetPtr b)" using b(3) uj by (simp add: word_le_nat_alt)
  ultimately have "FreeRTOS_ReleaseTCPPayloadBuffer e w (Some so) p (int j) = Some (True, Some so', w')"
    using b(1,2) by (simp add: FreeRTOS_ReleaseTCPPayloadBuffer_def case_prod_beta Let_def)
  then show ?thesis using r(2) by blast
qed

section \<open>Sockets as the world of the client\<close>

text \<open>
  \<open>ft_coming\<close> are the batches of segments that arrive on the data connection, one batch before
  each call; \<open>ft_ptr\<close> is the pointer that the last reception returned, and \<open>ft_app\<close> the state of the
  application.
\<close>

record ('k, 'a) ftp_tcp_world =
  ft_socks :: "nat \<Rightarrow> tcp_socket"
  ft_coming :: "char list list list"
  ft_ptr :: nat
  ft_app :: 'a
  ft_kernel :: 'k

definition ip_store :: "'k tcp_rtos \<Rightarrow> nat \<Rightarrow> ('k, 'a) ftp_tcp_world \<Rightarrow> char list \<Rightarrow> ('k, 'a) ftp_tcp_world" where
  "ip_store k i w d =
     (case lTCPAddRxdata k (ft_kernel w) (ft_socks w i) 0 (Some d) (of_nat (length d)) of
        None \<Rightarrow> w | Some (r, so, kw) \<Rightarrow> w\<lparr>ft_socks := (ft_socks w)(i := so), ft_kernel := kw\<rparr>)"

definition ip_task :: "'k tcp_rtos \<Rightarrow> nat \<Rightarrow> ('k, 'a) ftp_tcp_world \<Rightarrow> ('k, 'a) ftp_tcp_world" where
  "ip_task k i w = (case ft_coming w of [] \<Rightarrow> w | ds # rest \<Rightarrow> foldl (ip_store k i) (w\<lparr>ft_coming := rest\<rparr>) ds)"

text \<open>The two calls.  A fault, which the lemmas exclude, is an error of the first and leaves the second without effect.\<close>

definition ft_zerocopy :: "'k tcp_rtos \<Rightarrow> ('k, 'a) ftp_tcp_world \<Rightarrow> nat \<Rightarrow> nat \<Rightarrow> int \<times> char list option \<times> ('k, 'a) ftp_tcp_world" where
  "ft_zerocopy k w i n =
     (case FreeRTOS_recv k (ft_kernel w) (Some (ft_socks w i)) True (of_nat n) ZERO_COPY_DONTWAIT of
        Some (r, d, Some so, kw) \<Rightarrow>
          (r, if 0 < r then Some d else None,
           w\<lparr>ft_socks := (ft_socks w)(i := so), ft_kernel := kw,
             ft_ptr := (case rxStream so of None \<Rightarrow> 0 | Some b \<Rightarrow> snd (uxStreamBufferGetPtr b))\<rparr>)
      | _ \<Rightarrow> (- k_EINVAL k, None, w))"

definition ft_release :: "'k tcp_rtos \<Rightarrow> ('k, 'a) ftp_tcp_world \<Rightarrow> nat \<Rightarrow> nat \<Rightarrow> ('k, 'a) ftp_tcp_world" where
  "ft_release k w i n =
     (case FreeRTOS_ReleaseTCPPayloadBuffer k (ft_kernel w) (Some (ft_socks w i)) (ft_ptr w) (int n) of
        Some (r, Some so, kw) \<Rightarrow> w\<lparr>ft_socks := (ft_socks w)(i := so), ft_kernel := kw\<rparr>
      | _ \<Rightarrow> w)"

definition ftp_on_tcp :: "'k tcp_rtos \<Rightarrow> ('k, 'a) ftp_tcp_world ftp_env \<Rightarrow> ('k, 'a) ftp_tcp_world ftp_env" where
  "ftp_on_tcp k e = e\<lparr>
     fos_recv_zerocopy := (\<lambda>w s n. case s of Sock i \<Rightarrow> ft_zerocopy k (ip_task k i w) i n | _ \<Rightarrow> (- k_EINVAL k, None, w)),
     fos_ReleaseTCPPayloadBuffer := (\<lambda>w s n. case s of Sock i \<Rightarrow> ft_release k (ip_task k i w) i n | _ \<Rightarrow> w)\<rparr>"

definition ft_ok :: "nat \<Rightarrow> nat \<Rightarrow> ('k, 'a) ftp_tcp_world \<Rightarrow> bool" where
  "ft_ok i j w \<longleftrightarrow> sock_wf (ft_socks w i) \<and> fr_bound (ft_socks w i) \<and> lent (ft_ptr w) j (ft_socks w i)
     \<and> (\<forall>ds\<in>set (ft_coming w). \<forall>d\<in>set ds. length d < 2 ^ 31)"

abbreviation ft_rx :: "nat \<Rightarrow> ('k, 'a) ftp_tcp_world \<Rightarrow> char list" where
  "ft_rx i w \<equiv> rx_bytes (ft_socks w i)"

section \<open>The laws of the client's environment\<close>

definition ft_grown :: "nat \<Rightarrow> nat \<Rightarrow> ('k, 'a) ftp_tcp_world \<Rightarrow> ('k, 'a) ftp_tcp_world \<Rightarrow> bool" where
  "ft_grown i j w w' \<longleftrightarrow> ft_ok i j w' \<and> prefix (ft_rx i w) (ft_rx i w') \<and> ft_app w' = ft_app w"

lemma ip_store_grown:
  assumes k: "rtos_ok k" and w: "ft_ok i j w" and d: "length d < 2 ^ 31"
  shows "ft_grown i j w (ip_store k i w d)"
proof -
  have so: "sock_wf (ft_socks w i)" "fr_bound (ft_socks w i)" "lent (ft_ptr w) j (ft_socks w i)" using w by (simp_all add: ft_ok_def)
  obtain r so' kw where s: "lTCPAddRxdata k (ft_kernel w) (ft_socks w i) 0 (Some d) (of_nat (length d)) = Some (r, so', kw)"
    and a: "arrived (ft_socks w i) (take (nat r) d) so'"
    using deliver [OF k so(1) d, of "ft_kernel w"] by blast
  have "lent (ft_ptr w) j so'" by (rule lent_arrived [OF so(1) a so(3)])
  moreover have "sock_wf so'" "fr_bound so'" "prefix (ft_rx i w) (rx_bytes so')"
    using a so(2) by (simp_all add: arrived_def same_mode_def)
  ultimately show ?thesis using w s by (simp add: ft_grown_def ft_ok_def ip_store_def)
qed

lemma ip_task_grown:
  assumes k: "rtos_ok k" and w: "ft_ok i j w"
  shows "ft_grown i j w (ip_task k i w)"
proof (cases "ft_coming w")
  case Nil
  then show ?thesis using w by (simp add: ip_task_def ft_grown_def)
next
  case (Cons ds rest)
  have "ft_grown i j v (foldl (ip_store k i) v ds)" if "ft_ok i j v" "\<forall>d\<in>set ds. length d < 2 ^ 31" for v
    using that
  proof (induction ds arbitrary: v)
    case (Cons d ds)
    have g: "ft_grown i j v (ip_store k i v d)" using ip_store_grown [OF k Cons.prems(1)] Cons.prems(2) by simp
    then have "ft_grown i j (ip_store k i v d) (foldl (ip_store k i) (ip_store k i v d) ds)"
      using Cons.IH Cons.prems(2) by (simp add: ft_grown_def)
    with g show ?case by (auto simp: ft_grown_def intro: prefix_order.trans)
  qed (simp add: ft_grown_def)
  from this [of "w\<lparr>ft_coming := rest\<rparr>"] show ?thesis
    using w Cons by (simp add: ft_ok_def ip_task_def ft_grown_def)
qed

lemma ft_zerocopy_ok:
  assumes k: "rtos_ok k" and w: "ft_ok i j w" and z: "ft_zerocopy k w i n = (c, ob, w')"
  shows "ft_grown i (nat c) w w' \<and> ft_rx i w' = ft_rx i w \<and> (ft_rx i w \<noteq> [] \<longrightarrow> 0 < c)
    \<and> (0 < c \<longrightarrow> (\<exists>d. ob = Some d \<and> length d = nat c \<and> length d \<le> 2 ^ 31 \<and> prefix d (ft_rx i w')))"
proof -
  let ?so = "ft_socks w i"
  have so: "sock_wf ?so" "fr_bound ?so" using w by (simp_all add: ft_ok_def)
  obtain r d kw where f: "FreeRTOS_recv k (ft_kernel w) (Some ?so) True (of_nat n) ZERO_COPY_DONTWAIT = Some (r, d, Some ?so, kw)"
      "r < 2 ^ 31" "rx_bytes ?so \<noteq> [] \<longrightarrow> 0 < r"
    and g: "0 < r \<longrightarrow> length d = nat r \<and> prefix d (rx_bytes ?so)
        \<and> (\<exists>b. rxStream ?so = Some b \<and> unat (fst (uxStreamBufferGetPtr b)) = nat r)"
    using recv_zerocopy [OF k so, of "ft_kernel w" "of_nat n"] by blast
  have c: "c = r" "ob = (if 0 < r then Some d else None)" and w': "ft_socks w' i = ?so" "ft_coming w' = ft_coming w" "ft_app w' = ft_app w"
      "ft_ptr w' = (case rxStream ?so of None \<Rightarrow> 0 | Some b \<Rightarrow> snd (uxStreamBufferGetPtr b))"
    using z f(1) by (auto simp: ft_zerocopy_def)
  have "lent (ft_ptr w') (nat r) ?so" using g w'(4) by (auto simp: lent_def)
  then have "ft_grown i (nat c) w w'" using w w'(1-3) c(1) by (simp add: ft_grown_def ft_ok_def)
  moreover have "nat r \<le> 2 ^ 31" using f(2) by simp
  ultimately show ?thesis using f(3) g c w'(1) by auto
qed

lemma ft_release_ok:
  assumes k: "rtos_ok k" and w: "ft_ok i j w" and j: "0 < j"
  shows "ft_ok i 0 (ft_release k w i j) \<and> ft_rx i (ft_release k w i j) = drop j (ft_rx i w) \<and> ft_app (ft_release k w i j) = ft_app w"
proof -
  have so: "sock_wf (ft_socks w i)" "fr_bound (ft_socks w i)" "lent (ft_ptr w) j (ft_socks w i)" using w by (simp_all add: ft_ok_def)
  obtain so' kw where "FreeRTOS_ReleaseTCPPayloadBuffer k (ft_kernel w) (Some (ft_socks w i)) (ft_ptr w) (int j) = Some (True, Some so', kw)"
    and t: "took (ft_socks w i) j so'"
    using release_lent [OF k so j, of "ft_kernel w"] by blast
  then have "ft_release k w i j = w\<lparr>ft_socks := (ft_socks w)(i := so'), ft_kernel := kw\<rparr>" by (simp add: ft_release_def)
  then show ?thesis using w t by (simp add: ft_ok_def took_def same_mode_def lent_def)
qed

lemma ftp_on_tcp_stream:
  fixes k :: "'k tcp_rtos" and got :: "'a \<Rightarrow> char list"
  assumes k: "rtos_ok k"
  shows "zerocopy_stream (ftp_on_tcp k e) (Sock i) (ft_ok i) (ft_rx i) (\<lambda>w. got (ft_app w)) (2 ^ 31)"
  unfolding zerocopy_stream_def
proof (intro conjI allI impI)
  fix w n j c ob w'
  assume w: "ft_ok i j w" and z: "fos_recv_zerocopy (ftp_on_tcp k e) w (Sock i) n = (c, ob, w')"
  have g: "ft_grown i j w (ip_task k i w)" by (rule ip_task_grown [OF k w])
  have f: "ft_zerocopy k (ip_task k i w) i n = (c, ob, w')" using z by (simp add: ftp_on_tcp_def)
  have ok: "ft_ok i j (ip_task k i w)" using g by (simp add: ft_grown_def)
  note r = ft_zerocopy_ok [OF k ok f]
  show "ft_ok i (nat c) w'" using r by (simp add: ft_grown_def)
  show "prefix (ft_rx i w) (ft_rx i w')" using r g by (simp add: ft_grown_def)
  show "got (ft_app w') = got (ft_app w)" using r g by (simp add: ft_grown_def)
  show "0 < c" if "0 < n \<and> ft_rx i w \<noteq> []" using that r g by (auto simp: ft_grown_def)
  show "\<exists>d. ob = Some d \<and> length d = nat c \<and> length d \<le> 2 ^ 31 \<and> prefix d (ft_rx i w')" if "0 < c" using that r by blast
next
  fix w :: "('k, 'a) ftp_tcp_world" and j
  assume w: "ft_ok i j w" and j: "0 < j"
  have g: "ft_grown i j w (ip_task k i w)" by (rule ip_task_grown [OF k w])
  let ?w = "fos_ReleaseTCPPayloadBuffer (ftp_on_tcp k e) w (Sock i) j"
  have eq: "?w = ft_release k (ip_task k i w) i j" by (simp add: ftp_on_tcp_def)
  have r: "ft_ok i 0 ?w \<and> ft_rx i ?w = drop j (ft_rx i (ip_task k i w)) \<and> ft_app ?w = ft_app (ip_task k i w)"
    unfolding eq by (rule ft_release_ok [OF k _ j]) (use g in \<open>simp add: ft_grown_def\<close>)
  show "ft_ok i 0 ?w" "got (ft_app ?w) = got (ft_app w)" using r g by (simp_all add: ft_grown_def)
  show "prefix (drop j (ft_rx i w)) (ft_rx i ?w)" using r g by (auto simp: ft_grown_def prefix_def)
qed

text \<open>The callback changes the state of the application only, and appends what it is given.\<close>

definition ft_collects :: "('a \<Rightarrow> char list) \<Rightarrow> ('k, 'a) ftp_tcp_world ftp_callback \<Rightarrow> bool" where
  "ft_collects got cb \<longleftrightarrow> (\<forall>w t d n. \<exists>a. cb w t CB_RECV (Some d) n = w\<lparr>ft_app := a\<rparr> \<and> got a = got (ft_app w) @ take n d)"

lemma ft_callback:
  fixes cb :: "('k, 'a) ftp_tcp_world ftp_callback"
  assumes "ft_collects got cb"
  shows "callback_collects cb (ft_ok i) (ft_rx i) (\<lambda>w. got (ft_app w))"
  unfolding callback_collects_def
proof (intro allI impI)
  fix w :: "('k, 'a) ftp_tcp_world" and t d n j
  assume w: "ft_ok i j w"
  obtain a where "cb w t CB_RECV (Some d) n = w\<lparr>ft_app := a\<rparr>" "got a = got (ft_app w) @ take n d"
    using assms unfolding ft_collects_def by blast
  then show "ft_ok i j (cb w t CB_RECV (Some d) n) \<and> prefix (ft_rx i w) (ft_rx i (cb w t CB_RECV (Some d) n))
      \<and> got (ft_app (cb w t CB_RECV (Some d) n)) = got (ft_app w) @ take n d"
    using w by (simp add: ft_ok_def)
qed

section \<open>A download over TCP\<close>


end
