(* ===== verification/Tcp_Loopback.thy ===== *)
theory Tcp_Loopback
  imports Loopback Http_On_Tcp Tcp_Blocking Ftp_On_Tcp
begin

text \<open>
  A concrete kernel and a concrete connection, for the examples on TCP: memory is always
  available and nothing else runs.  The check of the time-out is given.
\<close>

definition tk_of :: "('k \<Rightarrow> u32 \<Rightarrow> bool \<times> u32 \<times> 'k) \<Rightarrow> 'k tcp_rtos" where
  "tk_of check = \<lparr>k_WaitBits = (\<lambda>w so bits t. (0, so, w)), k_SetBits = (\<lambda>w bits. w), k_SetTimeOutState = (\<lambda>w. w),
     k_CheckForTimeOut = check, k_SendEventToIPTask = (\<lambda>w. w),
     k_MallocLarge = (\<lambda>w n. (Some (replicate n NUL), w)), k_TCPStateChange = (\<lambda>w so st. (so\<lparr>eTCPState := st\<rparr>, w)),
     k_CallingFromIPTask = False, k_SUPPORT_SIGNALS = False, k_SUPPORT_SELECT = True,
     k_EINVAL = 22, k_ENOMEM = 12, k_ENOTCONN = 128, k_ENOSPC = 28, k_EINTR = 4\<rparr>"

text \<open>The state of the kernel is its event groups.\<close>

type_synonym tk_kernel = "nat \<Rightarrow> u32"

definition tk :: "tk_kernel tcp_rtos" where
  "tk = tk_of (\<lambda>w t. (True, t, w))"

definition tg :: "(tk_kernel, 'n) sel_rtos" where
  "tg = \<lparr>g_GetBits = (\<lambda>w ss. w ss), g_SetBits = (\<lambda>w ss b. w(ss := or (w ss) b)),
     g_ClearBits = (\<lambda>w ss b. w(ss := and (w ss) (not b))), g_WaitBits = (\<lambda>w n ss b t. (w ss, n, w)),
     g_SendEventStruct = (\<lambda>w n. (True, n, w))\<rparr>"

text \<open>A kernel whose state is the number of waits before a time-out.\<close>

definition tk_slow :: "nat tcp_rtos" where
  "tk_slow = tk_of (\<lambda>w t. (w = 0, t, w - 1))"

definition tk_socket :: tcp_socket where
  "tk_socket = \<lparr>fr_bound = True, fr_protocol = IPPROTO_TCP, xEventBits = 0, xSelectBits = 0,
     so_sel = \<lparr>pxSocketSet = None, xSocketBits = 0, pxPeerSocket = None, bPassAccept = False,
       bPassQueued = False, bReuseSocket = False, bConnPrepared = False, bConnPassed = False\<rparr>,
     xReceiveBlockTime = 0, xSendBlockTime = 0, eTCPState = eESTABLISHED, bCloseAfterSend = False, bCloseRequested = False,
     bLowWater = False, bWinChange = False, bFinSent = False, bMallocError = False, usTimeout = 0, usMSS = 256,
     uxLittleSpace = 0, uxEnoughSpace = 0, uxRxStreamSize = 256, uxTxStreamSize = 256, rxStream = None, txStream = None\<rparr>"

lemma tk_of_ok: "rtos_ok (tk_of check)"
proof -
  have "\<exists>t u v. so\<lparr>eTCPState := st\<rparr> = so\<lparr>eTCPState := t, usTimeout := u, bCloseRequested := v\<rparr>" for so :: tcp_socket and st
    by (rule exI [of _ st], rule exI [of _ "usTimeout so"], rule exI [of _ "bCloseRequested so"]) simp
  then show ?thesis by (simp add: rtos_ok_def tk_of_def)
qed

lemma tk_ok: "rtos_ok tk"
  by (simp add: tk_def tk_of_ok)

lemma tk_slow_waits: "rtos_waits tk_slow id"
  by (simp add: rtos_waits_def tk_slow_def tk_of_def ip_moved_refl)

lemma tk_socket_ok: "sock_ok tk_socket"
  by (simp add: sock_ok_def sock_wf_def tk_socket_def)


abbreviation tk_blocking :: tcp_socket where
  "tk_blocking \<equiv> tk_socket\<lparr>xReceiveBlockTime := 5, xSendBlockTime := 5\<rparr>"


section \<open>A GET on the connection\<close>

type_synonym tk_http_env = "(tk_kernel, tk_kernel tcp_world http_handler list, http_file list) tcp_http_env"

definition tk_env :: tk_http_env where
  "tk_env = \<lparr>
     os_recv = (\<lambda>w s n. (0, [], w)), os_send = (\<lambda>w s d. (0, w)), os_tx_space = (\<lambda>w s. (0, w)),
     os_issocketconnected = (\<lambda>w s. (0, w)),
     os_FD_SET = (\<lambda>w s b. w), os_FD_CLR = (\<lambda>w s b. w), os_closesocket = (\<lambda>w s. w), os_select = (\<lambda>w. (1, w)),
     lib_min = c_min, lib_min3 = c_min3, lib_swap16 = swap16, lib_snprintf = lb_snprintf, cfg_MSS = 256,
     os_accept = (\<lambda>w s. (NULL_SOCKET, w)),
     os_IsNetworkUp = (\<lambda>w. (True, w)), os_CreateSocketSet = (\<lambda>w. w), os_socket = (\<lambda>w. (Sock 0, w)),
     os_setup = (\<lambda>w s opt. w), os_SignalSocket = (\<lambda>w s. w), os_SignalSocketFromISR = (\<lambda>w s. w), os_calloc = (\<lambda>w. (True, w)),
     os_xTaskCreate = (\<lambda>w. (True, w)),
     handlers_valid = (\<lambda>_. True), handlers_size = length, handlers_get = (!),
     handlers_push = (\<lambda>xs x. (True, xs @ [x])),
     files_valid = (\<lambda>_. True), files_size = length, files_get = (!), files_push = (\<lambda>xs x. (True, xs @ [x]))\<rparr>"

definition tk_world :: "tk_kernel tcp_world" where
  "tk_world = \<lparr>xBoundUDPSocketsList = [], xBoundTCPSocketsList = [1], tw_socks = (\<lambda>_. tk_socket),
     tw_udp = (\<lambda>_. \<lparr>us_SocketSet = None, us_SelectBits = 0, us_SocketBits = 0, us_waiting = 0\<rparr>),
     tw_acked = (\<lambda>_. []), tw_kernel = (\<lambda>_. 0)\<rparr>"

definition tk_ctx :: "(tk_kernel tcp_world, tk_kernel tcp_world http_handler list, http_file list) http_ctx" where
  "tk_ctx = \<lparr>cfg_handlers = [], cfg_files = [lb_file], cfg_max_clients = 2, st_initialized = False,
     st_handle = False, st_socket = NULL_SOCKET, st_clients = None, st_buf_tx_hdr = replicate 256 NUL\<rparr>"

definition tk_client :: "tk_kernel tcp_world http_client" where
  "tk_client = (http_client_zero (on_tcp tk tg 0 tk_env))\<lparr>cl_socket := Sock 1\<rparr>"

declare tcp_send_loop.simps [code]

lemma tk_env_ok: "http_env_ok tk_env"
  by (simp add: http_env_ok_def recv_bounded_def uni_lib_ok_def tk_env_def lb_snprintf_def)

lemma tg_keeps: "ip_keeps tg i"
  by (simp add: ip_keeps_def tg_def)

lemma tk_client_idle:
  "client_inv (on_tcp tk tg 0 tk_env) tk_client" "cl_command_type tk_client = HTTP_COMMAND_UNKNOWN" "cl_socket tk_client = Sock 1"
  by (simp_all add: tk_client_def http_client_zero_def client_inv_def client_bufs_ok_def client_phase_ok_def on_tcp_def tk_env_def)

lemma tk_ctx_inv: "ctx_inv (on_tcp tk tg 0 tk_env) tk_ctx"
  by (simp add: ctx_inv_def registry_ok_def on_tcp_def tk_env_def tk_ctx_def file_ok_def lb_file_def)

lemma tk_get_eval:
  "map_option (\<lambda>(r, ctx, c, w). (r, cl_command_type c)) (http_server_cmd_get_start (on_tcp tk tg 0 tk_env) tk_ctx tk_client tk_world ''/a.txt'')
   = Some (5, HTTP_COMMAND_UNKNOWN)"
  by code_simp


section \<open>Waiting for the connection\<close>

lemma tk_sel_ok: "sel_ok tk tg (\<lambda>_. 0)"
  by (simp add: sel_ok_def groups_ok_def tg_def tk_def tk_of_def)

text \<open>A set with one connection, on which bytes have arrived.\<close>

definition tk_net :: tcp_net where
  "tk_net = \<lparr>xBoundUDPSocketsList = [], xBoundTCPSocketsList = [1],
     tw_socks = (\<lambda>_. tk_socket\<lparr>xSelectBits := 1, so_sel := so_sel tk_socket\<lparr>pxSocketSet := Some 0\<rparr>,
       rxStream := Some \<lparr>uxTail = 6, uxMid = 6, uxHead = 1, uxFront = 1, sbLENGTH = 8, ucArray = ''l.....he''\<rparr>\<rparr>),
     tw_udp = (\<lambda>_. \<lparr>us_SocketSet = None, us_SelectBits = 0, us_SocketBits = 0, us_waiting = 0\<rparr>)\<rparr>"

lemma tk_net_ok: "net_ok tk_net"
  by (simp add: net_ok_def tk_net_def sock_wf_def tk_socket_def sb_wf_def)

declare select_loop.simps [code]

lemma tk_select_eval: "map_option fst (FreeRTOS_select tk tg tk_net (\<lambda>_. 0) (Some 0) 5) = Some 1"
  by code_simp


section \<open>A download on the connection\<close>

type_synonym tk_ftp_world = "(tk_kernel, char list) ftp_tcp_world"

text \<open>
  Three bytes are in the receive stream, across the end of its array, and more segments arrive
  while they are being delivered.
\<close>

definition tk_ftp_socket :: tcp_socket where
  "tk_ftp_socket = tk_socket\<lparr>rxStream := Some \<lparr>uxTail = 6, uxMid = 6, uxHead = 1, uxFront = 1, sbLENGTH = 8,
     ucArray = ''l.....he''\<rparr>\<rparr>"

definition tk_ftp_world :: tk_ftp_world where
  "tk_ftp_world = \<lparr>ft_socks = (\<lambda>_. tk_ftp_socket), ft_coming = [[], [''l''], [''o'']], ft_ptr = 0, ft_app = [], ft_kernel = (\<lambda>_. 0)\<rparr>"

definition tk_ftp_callback :: "tk_ftp_world ftp_callback" where
  "tk_ftp_callback w t ty od n = w\<lparr>ft_app := ft_app w @ (case od of None \<Rightarrow> [] | Some d \<Rightarrow> take n d)\<rparr>"

definition tk_ftp_env :: "tk_ftp_world ftp_env" where
  "tk_ftp_env = \<lparr>
     os_recv = (\<lambda>w s n. (0, [], w)), os_send = (\<lambda>w s d. (0, w)), os_tx_space = (\<lambda>w s. (0, w)), os_issocketconnected = (\<lambda>w s. (1, w)),
     os_FD_SET = (\<lambda>w s b. w), os_FD_CLR = (\<lambda>w s b. w), os_closesocket = (\<lambda>w s. w), os_select = (\<lambda>w. (1, w)),
     lib_min = min, lib_min3 = (\<lambda>a b c. min a (min b c)), lib_swap16 = swap16, lib_snprintf = lb_snprintf, cfg_MSS = 256,
     fos_CreateSocketSet = (\<lambda>w. (True, w)), fos_DeleteSocketSet = (\<lambda>w. w), fos_socket = (\<lambda>w. (Sock 1, w)),
     fos_setsockopt = (\<lambda>w s opt. w), fos_connect = (\<lambda>w s a p. (0, w)), fos_recvcount = (\<lambda>w s. (0, w)),
     fos_recv_zerocopy = (\<lambda>w s n. (0, None, w)), fos_ReleaseTCPPayloadBuffer = (\<lambda>w s k. w),
     fos_FD_ISSET = (\<lambda>w s. (True, w)), fos_IsNetworkUp = (\<lambda>w. (True, w)), fos_calloc = (\<lambda>w. (True, w)),
     fos_xTaskCreate = (\<lambda>w. (True, w))\<rparr>"

definition tk_ftp_ctx :: "tk_ftp_world ftp_ctx" where
  "tk_ftp_ctx = \<lparr>cf_server_addr = 1, cf_server_port = 21, cf_timeout_rx = 0, cf_timeout_tx = 0,
     cf_auth_user = ''u'', cf_auth_password = ''p'', fs_thread = True, fs_socket_set = True,
     fs_socket_cmd = Sock 1, fs_socket_data = Sock 2,
     fs_task = \<lparr>tk_type = TYPE_RETR, tk_state = STATE_IN_PROGRESS, tk_cookie_file = None,
       tk_progress = 0, tk_progress_total = 5, tk_name = replicate 32 NUL\<rparr>, fs_callback = Some tk_ftp_callback\<rparr>"

lemma tk_ftp_collects: "ft_collects id tk_ftp_callback"
  by (auto simp: ft_collects_def tk_ftp_callback_def)

lemma tk_ftp_socket_wf: "sock_wf tk_ftp_socket" "rx_bytes tk_ftp_socket = ''hel''"
proof -
  show wf: "sock_wf tk_ftp_socket" by (simp add: sock_wf_def tk_ftp_socket_def tk_socket_def sb_wf_def)
  show "rx_bytes tk_ftp_socket = ''hel''" by code_simp
qed


end
