(* ===== verification/Ftp_Loopback.thy ===== *)
theory Ftp_Loopback
  imports Ftp_Transfer
begin

text \<open>
  One concrete environment for the examples of the FTP client: the replies the server has sent, the
  part of the file that has arrived and the pieces that arrive later, the commands the server was
  sent and what the callback was given.
\<close>

record ftp_wire =
  fw_replies :: "char list"
  fw_file :: "char list"
  fw_later :: "char list list"
  fw_sent :: "char list"
  fw_got :: "char list"
  fw_events :: "(ftp_callback_type \<times> nat) list"

definition fw_recv :: "ftp_wire \<Rightarrow> socket_t \<Rightarrow> nat \<Rightarrow> int \<times> char list \<times> ftp_wire" where
  "fw_recv w s n = (let d = take n (fw_replies w) in (int (length d), d, w\<lparr>fw_replies := drop n (fw_replies w)\<rparr>))"

definition fw_zerocopy :: "ftp_wire \<Rightarrow> socket_t \<Rightarrow> nat \<Rightarrow> int \<times> char list option \<times> ftp_wire" where
  "fw_zerocopy w s n = (let d = take (min n 4) (fw_file w) in (int (length d), Some d, w))"

definition fw_callback :: "ftp_wire ftp_callback" where
  "fw_callback w t ty od n =
     w\<lparr>fw_got := fw_got w @ (case od of None \<Rightarrow> [] | Some d \<Rightarrow> take n d), fw_events := fw_events w @ [(ty, n)]\<rparr>"

definition fw_env :: "ftp_wire ftp_env" where
  "fw_env = \<lparr>
     os_recv = fw_recv, os_send = (\<lambda>w s d. (int (length d), w\<lparr>fw_sent := fw_sent w @ d\<rparr>)),
     os_tx_space = (\<lambda>w s. (1000, w)), os_issocketconnected = (\<lambda>w s. (1, w)),
     os_FD_SET = (\<lambda>w s b. w), os_FD_CLR = (\<lambda>w s b. w), os_closesocket = (\<lambda>w s. w), os_select = (\<lambda>w. (1, w)),
     lib_min = min, lib_min3 = (\<lambda>a b c. min a (min b c)), lib_swap16 = swap16,
     lib_snprintf = (\<lambda>n out. (take (n - 1) out, length out)), cfg_MSS = 4,
     fos_CreateSocketSet = (\<lambda>w. (True, w)), fos_DeleteSocketSet = (\<lambda>w. w), fos_socket = (\<lambda>w. (Sock 1, w)),
     fos_setsockopt = (\<lambda>w s opt. w), fos_connect = (\<lambda>w s a p. (0, w)),
     fos_recvcount = (\<lambda>w s. (int (length (fw_replies w)), w)), fos_recv_zerocopy = fw_zerocopy,
     fos_ReleaseTCPPayloadBuffer = (\<lambda>w s k. w\<lparr>fw_file := drop k (fw_file w)\<rparr>),
     fos_FD_ISSET = (\<lambda>w s. (True, w)), fos_IsNetworkUp = (\<lambda>w. (True, w)), fos_calloc = (\<lambda>w. (True, w)),
     fos_xTaskCreate = (\<lambda>w. (True, w))\<rparr>"

text \<open>The same environment where the next piece of the file arrives before each read.\<close>

definition fw_arrive :: "ftp_wire \<Rightarrow> ftp_wire" where
  "fw_arrive w = (case fw_later w of [] \<Rightarrow> w | d # ds \<Rightarrow> w\<lparr>fw_file := fw_file w @ d, fw_later := ds\<rparr>)"

definition fw_late_env :: "ftp_wire ftp_env" where
  "fw_late_env = fw_env\<lparr>fos_recv_zerocopy := (\<lambda>w. fw_zerocopy (fw_arrive w))\<rparr>"

definition fw_bad_env :: "ftp_wire ftp_env" where
  "fw_bad_env = fw_env\<lparr>fos_socket := (\<lambda>w. (INVALID_SOCKET, w)), fos_connect := (\<lambda>w s a p. (- 22, w))\<rparr>"

definition fw_task :: ftp_task where
  "fw_task = \<lparr>tk_type = TYPE_STARTUP, tk_state = STATE_NOT_STARTED, tk_cookie_file = None,
     tk_progress = 0, tk_progress_total = 0, tk_name = replicate 32 NUL\<rparr>"

definition fw_ctx :: "ftp_wire ftp_ctx" where
  "fw_ctx = \<lparr>cf_server_addr = 1, cf_server_port = 21, cf_timeout_rx = 0, cf_timeout_tx = 0,
     cf_auth_user = ''u'', cf_auth_password = ''p'', fs_thread = False, fs_socket_set = False,
     fs_socket_cmd = NULL_SOCKET, fs_socket_data = NULL_SOCKET, fs_task = fw_task, fs_callback = None\<rparr>"

definition fw_start :: ftp_wire where
  "fw_start = \<lparr>fw_replies = ''220 hi'' @ [CR, LF], fw_file = ''hello, world'', fw_later = [],
     fw_sent = [], fw_got = [], fw_events = []\<rparr>"

text \<open>The same client with a data connection and a download of 12 bytes in progress.\<close>

definition fw_busy :: "ftp_wire ftp_ctx" where
  "fw_busy = fw_ctx\<lparr>fs_thread := True, fs_socket_set := True, fs_socket_cmd := Sock 1, fs_socket_data := Sock 2,
     fs_task := fw_task\<lparr>tk_type := TYPE_RETR, tk_state := STATE_IN_PROGRESS, tk_progress_total := 12\<rparr>,
     fs_callback := Some fw_callback\<rparr>"

abbreviation fw_rank :: "ftp_wire \<Rightarrow> nat" where
  "fw_rank w \<equiv> length (fw_file w)"

lemma fw_released:
  assumes "fw_file w \<noteq> []" and "0 < (n :: nat)" and "k \<le> fw_rank w"
  shows "k - min (fw_rank w) (min n 4) < fw_rank w"
  using assms by (cases "fw_file w") (auto simp: min_def)

lemma fw_env_ok: "ftp_env_ok fw_env fw_rank"
  by (auto intro: fw_released simp: ftp_env_ok_def recv_bounded_def zerocopy_ok_def ftp_resources_ok_def ftp_finite_def fw_env_def
      fw_recv_def fw_zerocopy_def Let_def)

lemma fw_quiet: "callbacks_quiet fw_rank (\<lambda>cb. cb = None \<or> cb = Some fw_callback)"
  by (simp add: callbacks_quiet_def fw_callback_def)

lemma fw_initial: "ftp_initial fw_ctx"
  by (simp add: ftp_initial_def ftp_closed_def fw_ctx_def fw_task_def)

lemma fw_arrive: "prefix (fw_file w) (fw_file (fw_arrive w))" "fw_got (fw_arrive w) = fw_got w"
  by (auto simp: fw_arrive_def split: list.splits)

lemma fw_stream: "zerocopy_stream fw_late_env (Sock 2) (\<lambda>j w. True) fw_file fw_got 4"
  unfolding zerocopy_stream_def
proof (intro conjI allI)
  fix w n c ob w'
  have "0 < n \<Longrightarrow> fw_file w \<noteq> [] \<Longrightarrow> take (min n 4) (fw_file (fw_arrive w)) \<noteq> []" using fw_arrive(1) [of w] by auto
  then show "True \<longrightarrow> fos_recv_zerocopy fw_late_env w (Sock 2) n = (c, ob, w') \<longrightarrow>
      True \<and> prefix (fw_file w) (fw_file w') \<and> fw_got w' = fw_got w \<and> (0 < n \<and> fw_file w \<noteq> [] \<longrightarrow> 0 < c)
      \<and> (0 < c \<longrightarrow> (\<exists>d. ob = Some d \<and> length d = nat c \<and> length d \<le> 4 \<and> prefix d (fw_file w')))"
    using fw_arrive [of w] take_is_prefix [of "min n 4" "fw_file (fw_arrive w)"]
    by (auto simp: fw_late_env_def fw_zerocopy_def Let_def simp del: take_eq_Nil take_eq_Nil2)
qed (simp add: fw_late_env_def fw_env_def)

lemma fw_collects: "callback_collects fw_callback (\<lambda>j w. True) fw_file fw_got"
  by (simp add: callback_collects_def fw_callback_def)

lemma fw_late_MSS: "cfg_MSS fw_late_env = 4"
  by (simp add: fw_late_env_def fw_env_def)

abbreviation fw_started :: "ftp_wire ftp_ctx" where
  "fw_started \<equiv> ftp_set_task (\<lambda>t. t\<lparr>tk_type := TYPE_STARTUP, tk_state := STATE_IN_PROGRESS, tk_progress := 0\<rparr>)
     (fw_ctx\<lparr>fs_thread := True\<rparr>)"

lemma fw_reach_start:
  "ftp_reachable fw_env (\<lambda>cb. cb = None \<or> cb = Some fw_callback) (False, fw_ctx, fw_start) (True, fw_started, fw_start)"
proof (rule ftp_reachable.step [OF ftp_reachable.init])
  show "ftp_step fw_env (\<lambda>cb. cb = None \<or> cb = Some fw_callback) (False, fw_ctx, fw_start) (True, fw_started, fw_start)"
    by (rule ftp_step.start [of _ _ _ 0 0 "fw_ctx\<lparr>fs_thread := True\<rparr>" fw_start])
       (simp_all add: uni_net_ftp_client_connect_def fw_env_def ftp_thread_start_def ftp_disconnect_def ftp_close_data_def
         fw_ctx_def ftp_set_task_def fw_task_def)
qed

section \<open>The properties at these inputs\<close>



theorem ftp_handler_227_port_witness:
  "ftp_handler_227 fw_env fw_ctx fw_start (Some (''Entering ('' @ pasv_text 10 0 0 1 195 80 @ '')''))
    = Some (ftp_set_state STATE_STARTED (fw_ctx\<lparr>fs_socket_set := True, fs_socket_data := Sock 1\<rparr>), fw_start)"
proof -
  have "ftp_connect_socket fw_env fw_ctx fw_start CH_DATA (of_nat (195 * 256 + 80))
      = Some (True, fw_ctx\<lparr>fs_socket_set := True, fs_socket_data := Sock 1\<rparr>, fw_start)"
    by (simp add: ftp_connect_socket_def fw_env_def fw_ctx_def ftp_setup_socket_def Let_def)
  from ftp_handler_227_port [OF _ _ _ _ _ _ _ _ this, of "''Entering ''" "'')''" 10 0 0 1]
  show ?thesis by (simp add: c_isdigit_def)
qed

theorem ftp_startup_sequence_witness:
  "\<exists>ctx'. do { s \<leftarrow> ftp_work_state fw_env (ftp_handler_220 fw_ctx) fw_start;
        s \<leftarrow> ftp_startup_next fw_env s; s \<leftarrow> ftp_startup_next fw_env s; ftp_startup_next fw_env s } =
      Some (ctx', foldl (\<lambda>w cmd. snd (os_send fw_env w (fs_socket_cmd fw_ctx) cmd)) fw_start startup_cmds)
    \<and> tk_type (fs_task ctx') = TYPE_IDLE"
  by (rule ftp_startup_sequence) (simp add: fw_ctx_def fw_task_def)

theorem ftp_disconnect_reported_twice_witness:
  "\<exists>v t. snd (ftp_handler_error fw_env fw_busy fw_start) = fw_callback v t CB_DISCONNECT None 1
    \<and> snd (ftp_thread_end fw_env (fst (ftp_handler_error fw_env fw_busy fw_start))
         (snd (ftp_handler_error fw_env fw_busy fw_start)) REASON_TERMINATION)
      = fw_callback (snd (ftp_handler_error fw_env fw_busy fw_start))
         (fs_task (fst (ftp_handler_error fw_env fw_busy fw_start))) CB_DISCONNECT None 6"
  by (rule ftp_disconnect_reported_twice [OF _ prod.collapse [symmetric] prod.collapse [symmetric]])
     (simp add: fw_busy_def)


abbreviation fw_list :: "ftp_task_state \<Rightarrow> ftp_wire ftp_ctx" where
  "fw_list st \<equiv> fw_busy\<lparr>fs_task := fw_task\<lparr>tk_type := TYPE_LIST, tk_state := st\<rparr>\<rparr>"



abbreviation fw_late :: ftp_wire where
  "fw_late \<equiv> fw_start\<lparr>fw_file := ''hello'', fw_later := ['', wo'', ''rld'']\<rparr>"

theorem ftp_data_delivered_witness:
  "\<exists>ctx' w' x. ftp_data_loop fw_late_env fw_busy fw_late = Some (ctx', w')
     \<and> fw_got w' = fw_got fw_late @ x \<and> prefix (fw_file fw_late) (x @ fw_file w')
     \<and> unat (tk_progress (fs_task ctx')) = unat (tk_progress (fs_task fw_busy)) + length x
     \<and> (prefix (fw_file fw_late) x \<or> tk_progress_total (fs_task ctx') \<le> tk_progress (fs_task ctx'))"
  by (rule ftp_data_delivered [where B = 4, OF _ fw_collects, unfolded simp_thms]) (simp_all add: fw_busy_def fw_task_def fw_stream fw_late_MSS)

theorem ftp_download_completes_witness:
  "\<exists>ctx' w' x ctx'' w''. ftp_work_data fw_late_env fw_busy fw_start = Some (ctx', w') \<and> fw_got w' = [] @ x
     \<and> prefix ''hello, world'' x
     \<and> ftp_work_state fw_late_env ctx' w' = Some (ctx'', w'')
     \<and> (ctx'', w'') = ftp_set_to_idle fw_late_env ctx' (ftp_call ctx' w' CB_RECV_FINISHED None 0)
     \<and> fs_socket_data ctx'' = NULL_SOCKET \<and> tk_type (fs_task ctx'') = TYPE_IDLE"
proof -
  have "fw_got fw_start = []" "take (unat (tk_progress_total (fs_task fw_busy))) (fw_file fw_start) = ''hello, world''"
    by (simp_all add: fw_start_def fw_busy_def)
  with ftp_download_completes [of fw_busy fw_callback "\<lambda>j w. True" fw_file fw_got fw_late_env 4 fw_start, OF _ fw_collects]
  show ?thesis by (simp add: fw_busy_def fw_task_def fw_start_def fw_stream fw_late_MSS)
qed

end
