(* ===== verification/Inet_Addr.thy ===== *)
theory Inet_Addr
  imports Net_Env
begin

text \<open>
  Internet addresses: the byte order macros of \<^verbatim>\<open>FreeRTOS_IP.h\<close>, the address macro of
  \<^verbatim>\<open>FreeRTOS_Sockets.h\<close> (little endian) and the parser of \<^verbatim>\<open>FreeRTOS_IPv4_Sockets.c\<close>, which the
  endpoint helpers of the UDP modules call.
\<close>

unbundle bit_operations_syntax

section \<open>Definitions\<close>

definition FreeRTOS_htons :: "u16 \<Rightarrow> u16" where
  "FreeRTOS_htons x = (push_bit 8 x) OR (drop_bit 8 x)"

definition FreeRTOS_inet_addr_quick :: "u8 \<Rightarrow> u8 \<Rightarrow> u8 \<Rightarrow> u8 \<Rightarrow> u32" where
  "FreeRTOS_inet_addr_quick a b c d =
     (push_bit 24 (ucast d)) OR (push_bit 16 (ucast c)) OR (push_bit 8 (ucast b)) OR ucast a"

text \<open>The digits of one octet: \<^verbatim>\<open>ulValue\<close> wraps at 32 bits.\<close>

fun pton4_value :: "u32 \<Rightarrow> string \<Rightarrow> u32 \<times> string" where
  "pton4_value v [] = (v, [])"
| "pton4_value v (c # cs) =
     (if c_isdigit c then pton4_value (v * 10 + of_nat (of_char c - 48)) cs else (v, c # cs))"

definition octal_prefix :: "string \<Rightarrow> bool" where
  "octal_prefix p \<longleftrightarrow> (case p of c # d # _ \<Rightarrow> c = CHR ''0'' \<and> c_isdigit d | _ \<Rightarrow> False)"

text \<open>
  The loop over the octets: \<open>k\<close> of them are still to be read, and \<open>moved\<close> says that the
  pointer is no longer at the start of the string.  \<open>None\<close> is \<^verbatim>\<open>xResult == pdFAIL\<close>.
\<close>

fun pton4_octets :: "nat \<Rightarrow> bool \<Rightarrow> string \<Rightarrow> (u8 list \<times> string) option" where
  "pton4_octets 0 moved p = Some ([], p)"
| "pton4_octets (Suc k) moved p =
     (if octal_prefix p then None
      else let (v, p') = pton4_value 0 p
           in if \<not> moved \<and> length p' = length p then None
              else if 255 < v then None
              else if 0 < k
              then case p' of
                     c # q \<Rightarrow> (if c = CHR ''.''
                               then map_option (\<lambda>(os, r). (ucast v # os, r)) (pton4_octets k True q) else None)
                   | [] \<Rightarrow> None
              else Some ([ucast v], p'))"

definition FreeRTOS_inet_pton4 :: "string \<Rightarrow> u32 option" where
  "FreeRTOS_inet_pton4 s =
     (case pton4_octets 4 False s of
        Some ([a, b, c, d], []) \<Rightarrow> Some (FreeRTOS_inet_addr_quick a b c d)
      | _ \<Rightarrow> None)"

definition FreeRTOS_inet_addr :: "string \<Rightarrow> u32" where
  "FreeRTOS_inet_addr s = (case FreeRTOS_inet_pton4 s of Some a \<Rightarrow> a | None \<Rightarrow> 0)"

text \<open>The four bytes of an address as they lie in memory, on a little endian machine.\<close>

definition inet_octet :: "u32 \<Rightarrow> nat \<Rightarrow> u8" where
  "inet_octet a i = ucast (drop_bit (8 * i) a)"

definition dotted :: "u8 \<Rightarrow> u8 \<Rightarrow> u8 \<Rightarrow> u8 \<Rightarrow> string" where
  "dotted a b c d = dec_string (unat a) @ ''.'' @ dec_string (unat b) @ ''.'' @ dec_string (unat c)
     @ ''.'' @ dec_string (unat d)"

section \<open>Lemmas\<close>

lemma FreeRTOS_htons_swap: "FreeRTOS_htons x = swap16 x"
  unfolding FreeRTOS_htons_def swap16_def
  by (rule disjunctive_add [symmetric]) (auto simp: bit_simps dest: bit_imp_le_length)

lemma FreeRTOS_htons_involution [simp]: "FreeRTOS_htons (FreeRTOS_htons x) = x"
  by (rule bit_word_eqI) (auto simp: FreeRTOS_htons_def bit_simps dest: bit_imp_le_length)

lemma inet_octets:
  "inet_octet (FreeRTOS_inet_addr_quick a b c d) 0 = a" "inet_octet (FreeRTOS_inet_addr_quick a b c d) 1 = b"
  "inet_octet (FreeRTOS_inet_addr_quick a b c d) 2 = c" "inet_octet (FreeRTOS_inet_addr_quick a b c d) 3 = d"
  by (rule bit_word_eqI, auto simp: inet_octet_def FreeRTOS_inet_addr_quick_def bit_simps dest: bit_imp_le_length)+

lemma pton4_value_append:
  "list_all c_isdigit ds \<Longrightarrow> rest = [] \<or> \<not> c_isdigit (hd rest) \<Longrightarrow>
   pton4_value v (ds @ rest) = (foldl (\<lambda>v c. v * 10 + of_nat (of_char c - 48)) v ds, rest)"
proof (induction ds arbitrary: v)
  case Nil
  then show ?case by (cases rest) auto
qed simp

lemma dec_string_fold: "foldl (\<lambda>v c. v * 10 + of_nat (of_char c - 48)) 0 (dec_string n) = (of_nat n :: u32)"
proof (induction n rule: dec_string.induct)
  case (1 n)
  show ?case
  proof (cases "n < 10")
    case True
    then show ?thesis by (simp add: dec_string.simps [of n])
  next
    case False
    then have "foldl (\<lambda>v c. v * 10 + of_nat (of_char c - 48)) 0 (dec_string n)
        = (of_nat (n div 10) * 10 + of_nat (n mod 10) :: u32)"
      using 1 by (simp add: dec_string.simps [of n])
    also have "\<dots> = of_nat (n div 10 * 10 + n mod 10)" by (simp only: of_nat_add of_nat_mult of_nat_numeral)
    finally show ?thesis by (simp only: div_mult_mod_eq)
  qed
qed

lemma dec_string_ne [simp]: "dec_string n \<noteq> []"
  by (simp add: dec_string.simps [of n])

lemma dec_string_hd: "0 < n \<Longrightarrow> hd (dec_string n) \<noteq> CHR ''0''"
proof (induction n rule: dec_string.induct)
  case (1 n)
  then show ?case
    by (cases "n < 10") (auto simp: dec_string.simps [of n] hd_append char_of_eq_iff take_bit_nat_def)
qed

lemma dec_string_not_octal:
  assumes "rest = [] \<or> \<not> c_isdigit (hd rest)"
  shows "\<not> octal_prefix (dec_string n @ rest)"
proof (cases "n = 0")
  case True
  then show ?thesis using assms by (cases rest) (auto simp: octal_prefix_def dec_string.simps [of 0])
next
  case False
  then show ?thesis using dec_string_hd [of n] by (cases "dec_string n") (auto simp: octal_prefix_def split: list.splits)
qed

lemma pton4_value_dec:
  "rest = [] \<or> \<not> c_isdigit (hd rest) \<Longrightarrow> pton4_value 0 (dec_string (unat (x :: u8)) @ rest) = (ucast x, rest)"
  using dec_string_digits by (simp add: pton4_value_append dec_string_fold)

lemma unat_ucast_u8: "unat (ucast (x :: u8) :: u32) = unat x"
  using unat_bound [of x] by (simp add: unsigned_ucast_eq take_bit_nat_def)

lemma ucast_u8_le [simp]: "\<not> 255 < (ucast (x :: u8) :: u32)"
  using unat_bound [of x] unat_ucast_u8 [of x] by (simp add: word_less_nat_alt del: unat_ucast_u8)

lemma ucast_ucast_u8 [simp]: "ucast (ucast (x :: u8) :: u32) = x"
  by (rule bit_word_eqI) (auto simp: bit_simps)

lemma pton4_octets_step:
  "0 < k \<Longrightarrow> pton4_octets (Suc k) moved (dec_string (unat (x :: u8)) @ CHR ''.'' # rest)
     = map_option (\<lambda>(os, r). (x # os, r)) (pton4_octets k True rest)"
  by (simp add: pton4_value_dec dec_string_not_octal c_isdigit_def)

lemma pton4_octets_last:
  "pton4_octets (Suc 0) moved (dec_string (unat (x :: u8))) = Some ([x], [])"
  using pton4_value_dec [of "[]" x] dec_string_not_octal [of "[]" "unat x"] by simp

lemma inet_pton4_dotted: "FreeRTOS_inet_pton4 (dotted a b c d) = Some (FreeRTOS_inet_addr_quick a b c d)"
proof -
  have four: "(4 :: nat) = Suc (Suc (Suc (Suc 0)))" by simp
  have "pton4_octets 4 False (dotted a b c d) = Some ([a, b, c, d], [])"
    by (simp only: four) (simp add: dotted_def pton4_octets_step pton4_octets_last del: pton4_octets.simps)
  then show ?thesis by (simp add: FreeRTOS_inet_pton4_def)
qed

text \<open>
  C32.  An address survives printing: the parser maps the dotted decimal form of four octets to the
  address whose bytes in memory are these octets, in this order.
\<close>

theorem inet_addr_roundtrip:
  "\<exists>x. FreeRTOS_inet_pton4 (dotted a b c d) = Some x \<and> map (inet_octet x) [0, 1, 2, 3] = [a, b, c, d]"
  by (simp add: inet_pton4_dotted inet_octets [simplified])


end
