(* ===== verification/Udp_Common.thy ===== *)
theory Udp_Common
  imports Inet_Addr
begin

text \<open>
  What the UDP client and the UDP server share: the outside calls they make, the endpoint
  helpers of \<^verbatim>\<open>uni_net_udp_client.h\<close>, the mapping of return values, the timeouts of a socket,
  and the contract of the two pairs of functions that set and query the timeouts.
\<close>

section \<open>Types and outside calls\<close>

record udp_endpoint =
  ep_addr :: u32
  ep_port :: u16

text \<open>\<^verbatim>\<open>struct freertos_sockaddr\<close>, without the family, which is always \<^verbatim>\<open>FREERTOS_AF_INET\<close>.\<close>

record udp_sockaddr =
  sin_port :: u16
  sin_addr :: u32

definition sockaddr_zero :: udp_sockaddr where
  "sockaddr_zero = \<lparr>sin_port = 0, sin_addr = 0\<rparr>"

datatype udp_sockopt = UO_RCVTIMEO u32 | UO_SNDTIMEO u32 | UO_MAX_RX_PACKETS u32

text \<open>A zero-copy payload: the identity of the network buffer and the bytes in it.\<close>

type_synonym udp_payload = "nat \<times> char list"

record 'w udp_os =
  u_MutexCreate :: "'w \<Rightarrow> bool \<times> 'w"
  u_MutexDelete :: "'w \<Rightarrow> 'w"
  u_Take :: "'w \<Rightarrow> 'w"
  u_Give :: "'w \<Rightarrow> 'w"
  u_socket :: "'w \<Rightarrow> socket_t \<times> 'w"
  u_closesocket :: "'w \<Rightarrow> socket_t \<Rightarrow> 'w"
  u_setsockopt :: "'w \<Rightarrow> socket_t \<Rightarrow> udp_sockopt \<Rightarrow> int \<times> 'w"
  u_connect :: "'w \<Rightarrow> socket_t \<Rightarrow> udp_sockaddr \<Rightarrow> int \<times> 'w"
  u_bind :: "'w \<Rightarrow> socket_t \<Rightarrow> udp_sockaddr \<Rightarrow> int \<times> 'w"
  u_send :: "'w \<Rightarrow> socket_t \<Rightarrow> char list \<Rightarrow> int \<Rightarrow> int \<times> 'w"
  u_sendto :: "'w \<Rightarrow> socket_t \<Rightarrow> char list \<Rightarrow> int \<Rightarrow> udp_sockaddr \<Rightarrow> int \<times> 'w"
  u_recvfrom :: "'w \<Rightarrow> socket_t \<Rightarrow> int \<Rightarrow> udp_sockaddr \<Rightarrow> nat \<Rightarrow> int \<times> char list \<times> udp_sockaddr \<times> nat \<times> 'w"
  u_recvfrom_zerocopy :: "'w \<Rightarrow> socket_t \<Rightarrow> bool \<Rightarrow> udp_sockaddr \<Rightarrow> int \<times> udp_payload option \<times> udp_sockaddr \<times> 'w"
  u_ReleaseUDPPayloadBuffer :: "'w \<Rightarrow> udp_payload \<Rightarrow> 'w"
  u_IsNetworkUp :: "'w \<Rightarrow> bool \<times> 'w"
  u_xTaskCreate :: "'w \<Rightarrow> u32 \<Rightarrow> nat \<Rightarrow> bool \<times> 'w"
  u_gethostbyname :: "'w \<Rightarrow> string \<Rightarrow> u32 \<times> 'w"
  u_swap16 :: "u16 \<Rightarrow> u16"
  u_MS_TO_TICKS :: "u32 \<Rightarrow> u32"
  u_USE_DNS :: bool
  u_UDP_MAX_RX_PACKETS :: u32
  u_MINIMAL_STACK_SIZE :: u32
  u_sizeof_sockaddr :: nat
  u_EINVAL :: int
  u_ENOTCONN :: int
  u_EWOULDBLOCK :: int
  u_ETIMEDOUT :: int
  u_EALREADY :: int

text \<open>The error numbers are positive.\<close>

definition errno_ok :: "('w, 'z) udp_os_scheme \<Rightarrow> bool" where
  "errno_ok e \<longleftrightarrow> 0 < u_EINVAL e \<and> 0 < u_ENOTCONN e \<and> 0 < u_EWOULDBLOCK e \<and> 0 < u_ETIMEDOUT e \<and> 0 < u_EALREADY e"

section \<open>Endpoints\<close>

definition uni_net_udp_ipv4_from_octets :: "u8 \<Rightarrow> u8 \<Rightarrow> u8 \<Rightarrow> u8 \<Rightarrow> u32" where
  "uni_net_udp_ipv4_from_octets a b c d = FreeRTOS_inet_addr_quick a b c d"

definition uni_net_udp_ipv4_from_string :: "('w, 'z) udp_os_scheme \<Rightarrow> 'w \<Rightarrow> string option \<Rightarrow> u32 \<times> 'w" where
  "uni_net_udp_ipv4_from_string e w host =
     (case host of
        None \<Rightarrow> (0, w)
      | Some s \<Rightarrow> (let ip = FreeRTOS_inet_addr s
                   in if u_USE_DNS e \<and> ip = 0 then u_gethostbyname e w s else (ip, w)))"

definition uni_net_udp_endpoint_init :: "udp_endpoint option \<Rightarrow> u32 \<Rightarrow> u16 \<Rightarrow> udp_endpoint option" where
  "uni_net_udp_endpoint_init ep addr port =
     map_option (\<lambda>ep. ep\<lparr>ep_addr := addr, ep_port := FreeRTOS_htons port\<rparr>) ep"

definition uni_net_udp_endpoint_init_quick ::
    "udp_endpoint option \<Rightarrow> u8 \<Rightarrow> u8 \<Rightarrow> u8 \<Rightarrow> u8 \<Rightarrow> u16 \<Rightarrow> udp_endpoint option" where
  "uni_net_udp_endpoint_init_quick ep a b c d port =
     map_option (\<lambda>ep. ep\<lparr>ep_addr := FreeRTOS_inet_addr_quick a b c d, ep_port := FreeRTOS_htons port\<rparr>) ep"

text \<open>
  C31.  The two ways to name a peer agree: an endpoint made from the text of an address and a port
  is the endpoint made from its four octets, the name service is not asked, and the port is
  stored with its high byte first.
\<close>

theorem udp_endpoint_agree:
  assumes "FreeRTOS_inet_addr_quick a b c d \<noteq> 0 \<or> \<not> u_USE_DNS e"
  shows "uni_net_udp_ipv4_from_string e w (Some (dotted a b c d)) = (uni_net_udp_ipv4_from_octets a b c d, w)
    \<and> uni_net_udp_endpoint_init (Some ep) (fst (uni_net_udp_ipv4_from_string e w (Some (dotted a b c d)))) port
      = uni_net_udp_endpoint_init_quick (Some ep) a b c d port
    \<and> map_option (\<lambda>ep. FreeRTOS_htons (ep_port ep)) (uni_net_udp_endpoint_init_quick (Some ep) a b c d port) = Some port"
  using assms
  by (auto simp: uni_net_udp_ipv4_from_string_def uni_net_udp_ipv4_from_octets_def FreeRTOS_inet_addr_def
      inet_pton4_dotted uni_net_udp_endpoint_init_def uni_net_udp_endpoint_init_quick_def Let_def)

section \<open>Return values and timeouts\<close>

definition map_timeout_to_wouldblock :: "('w, 'z) udp_os_scheme \<Rightarrow> int \<Rightarrow> int" where
  "map_timeout_to_wouldblock e rv = (if rv = - u_EWOULDBLOCK e \<or> rv = - u_ETIMEDOUT e then 0 else rv)"

text \<open>The tail of the three send functions: \<^verbatim>\<open>rv > 0 && (size_t)rv != len\<close> is an error.\<close>

definition udp_send_result :: "('w, 'z) udp_os_scheme \<Rightarrow> size_t \<Rightarrow> int \<Rightarrow> int" where
  "udp_send_result e len rv =
     (let rv = map_timeout_to_wouldblock e rv
      in if 0 < rv \<and> (of_int rv :: size_t) \<noteq> len then - u_EINVAL e else rv)"

definition apply_timeouts :: "('w, 'z) udp_os_scheme \<Rightarrow> 'w \<Rightarrow> socket_t \<Rightarrow> u32 \<Rightarrow> u32 \<Rightarrow> int \<times> 'w" where
  "apply_timeouts e w s rx tx =
     (let (r1, w) = u_setsockopt e w s (UO_RCVTIMEO (u_MS_TO_TICKS e rx));
          (r2, w) = u_setsockopt e w s (UO_SNDTIMEO (u_MS_TO_TICKS e tx))
      in (if r1 = 0 \<and> r2 = 0 then 0 else - 1, w))"

definition ctx_lock :: "('w, 'z) udp_os_scheme \<Rightarrow> bool \<Rightarrow> 'w \<Rightarrow> 'w" where
  "ctx_lock e lock w = (if lock then u_Take e w else w)"

definition ctx_unlock :: "('w, 'z) udp_os_scheme \<Rightarrow> bool \<Rightarrow> 'w \<Rightarrow> 'w" where
  "ctx_unlock e lock w = (if lock then u_Give e w else w)"

text \<open>The results of a send call: an error, a time-out, or the length of the whole datagram.\<close>

definition whole_or_none :: "size_t \<Rightarrow> int \<Rightarrow> bool" where
  "whole_or_none len r \<longleftrightarrow> r < 0 \<or> r = 0 \<or> r = int (unat len)"

text \<open>\<^verbatim>\<open>FreeRTOS_sendto\<close> and \<^verbatim>\<open>FreeRTOS_send\<close> return an \<^verbatim>\<open>int32_t\<close>.\<close>

lemma udp_send_result_cases:
  assumes "errno_ok e" and "rv < 2147483648"
  shows "whole_or_none len (udp_send_result e len rv)"
proof -
  have "0 < rv \<Longrightarrow> (of_int rv :: size_t) = len \<Longrightarrow> rv = int (unat len)"
    using assms(2) unat_of_int_small [of rv] by auto
  then show ?thesis
    using assms(1) by (cases "0 < rv") (auto simp: whole_or_none_def udp_send_result_def map_timeout_to_wouldblock_def errno_ok_def Let_def)
qed

section \<open>The contract of the timeout functions\<close>

text \<open>A history of calls of a function that sets the timeouts, with the result of each.\<close>

primrec set_all :: "('c \<Rightarrow> 'w \<Rightarrow> u32 \<Rightarrow> u32 \<Rightarrow> bool \<times> 'c \<times> 'w) \<Rightarrow> 'c \<Rightarrow> 'w \<Rightarrow> (u32 \<times> u32) list \<Rightarrow> bool list \<times> 'c \<times> 'w" where
  "set_all f c w [] = ([], c, w)"
| "set_all f c w (x # xs) =
     (let (ok, c, w) = f c w (fst x) (snd x); (oks, c, w) = set_all f c w xs in (ok # oks, c, w))"

text \<open>
  \<open>set c w rx tx\<close> is whether the call succeeds, the new context and the new world; \<open>get\<close> is
  what the query stores through its two pointers.
\<close>

locale timeout_api =
  fixes set :: "'c \<Rightarrow> 'w \<Rightarrow> u32 \<Rightarrow> u32 \<Rightarrow> bool \<times> 'c \<times> 'w"
    and get :: "'c \<Rightarrow> u32 \<times> u32"
  assumes set_get: "set c w rx tx = (True, c', w') \<Longrightarrow> get c' = (rx, tx)"
    and set_fails: "set c w rx tx = (False, c', w') \<Longrightarrow> get c' = get c"
begin

lemma set_all_last:
  "set_all set c w xs = (oks, c', w') \<Longrightarrow>
     get c' = last (get c # map fst (filter snd (zip xs oks)))"
proof (induction xs arbitrary: c w oks)
  case (Cons x xs)
  obtain ok c1 w1 where s: "set c w (fst x) (snd x) = (ok, c1, w1)" by (cases "set c w (fst x) (snd x)")
  obtain oks' where t: "set_all set c1 w1 xs = (oks', c', w')" and oks: "oks = ok # oks'"
    using Cons.prems s by (auto simp: Let_def split: prod.splits)
  have "get c1 = (if ok then x else get c)"
    using s set_get [of c w "fst x" "snd x" c1 w1] set_fails [of c w "fst x" "snd x" c1 w1] by (cases ok) auto
  then show ?case using Cons.IH [OF t] oks by auto
qed simp

end

end
