(* ===== verification/Udp_Client.thy ===== *)
theory Udp_Client
  imports Udp_Common Fr_Socket
begin

text \<open>
  \<^verbatim>\<open>uni_net_udp_client.[ch]\<close>.  Every public function is one definition that takes the context
  (\<open>None\<close> for \<^verbatim>\<open>NULL\<close>) and the world; \<open>None\<close> as the result of \<open>uni_net_udp_client_recvfrom\<close> is
  a write behind the caller's buffer.
\<close>

section \<open>Context\<close>

record udp_client =
  uc_rx_timeout_ms :: u32
  uc_tx_timeout_ms :: u32
  uc_initialized :: bool
  uc_socket :: socket_t
  uc_connected :: bool
  uc_stack_connected :: bool
  uc_default_remote :: udp_sockaddr
  uc_lock :: bool

definition udp_client_zero :: udp_client where
  "udp_client_zero = \<lparr>uc_rx_timeout_ms = 0, uc_tx_timeout_ms = 0, uc_initialized = False, uc_socket = NULL_SOCKET,
     uc_connected = False, uc_stack_connected = False, uc_default_remote = sockaddr_zero, uc_lock = False\<rparr>"

definition endpoint_sockaddr :: "udp_endpoint \<Rightarrow> udp_sockaddr" where
  "endpoint_sockaddr ep = \<lparr>sin_port = ep_port ep, sin_addr = ep_addr ep\<rparr>"

section \<open>Public functions\<close>

definition uni_net_udp_client_init ::
    "('w, 'z) udp_os_scheme \<Rightarrow> udp_client option \<Rightarrow> 'w \<Rightarrow> (u32 \<times> u32) option \<Rightarrow> bool \<times> udp_client option \<times> 'w" where
  "uni_net_udp_client_init e octx w cfg =
     (case octx of
        None \<Rightarrow> (False, None, w)
      | Some _ \<Rightarrow>
          (let (rx, tx) = (case cfg of None \<Rightarrow> (1000, 1000) | Some c \<Rightarrow> c);
               ctx = udp_client_zero\<lparr>uc_rx_timeout_ms := rx, uc_tx_timeout_ms := tx\<rparr>;
               (lock, w) = u_MutexCreate e w;
               ctx = ctx\<lparr>uc_lock := lock\<rparr>
           in if lock
              then let (s, w) = u_socket e w;
                       ctx = ctx\<lparr>uc_socket := s\<rparr>
                   in if socket_valid s
                      then let (rc, w) = apply_timeouts e w s rx tx
                           in if rc = 0 then (True, Some (ctx\<lparr>uc_initialized := True\<rparr>), w)
                              else (False, Some udp_client_zero, u_MutexDelete e (u_closesocket e w s))
                      else (False, Some udp_client_zero, u_MutexDelete e w)
              else (False, Some ctx, w)))"

definition uni_net_udp_client_is_inited :: "udp_client option \<Rightarrow> bool" where
  "uni_net_udp_client_is_inited octx = (case octx of None \<Rightarrow> False | Some ctx \<Rightarrow> uc_initialized ctx)"

definition uni_net_udp_client_deinit ::
    "('w, 'z) udp_os_scheme \<Rightarrow> udp_client option \<Rightarrow> 'w \<Rightarrow> bool \<times> udp_client option \<times> 'w" where
  "uni_net_udp_client_deinit e octx w =
     (case octx of
        None \<Rightarrow> (False, None, w)
      | Some ctx \<Rightarrow>
          (let w = ctx_lock e (uc_lock ctx) w;
               w = (if socket_valid (uc_socket ctx) then u_closesocket e w (uc_socket ctx) else w);
               w = ctx_unlock e (uc_lock ctx) w;
               w = (if uc_lock ctx then u_MutexDelete e w else w)
           in (True, Some udp_client_zero, w)))"

definition uni_net_udp_client_connect ::
    "('w, 'z) udp_os_scheme \<Rightarrow> udp_client option \<Rightarrow> 'w \<Rightarrow> udp_endpoint option \<Rightarrow> bool \<times> udp_client option \<times> 'w" where
  "uni_net_udp_client_connect e octx w remote =
     (case (octx, remote) of
        (Some ctx, Some ep) \<Rightarrow>
          (if \<not> uc_initialized ctx then (False, octx, w)
           else let addr = endpoint_sockaddr ep;
                    w = ctx_lock e (uc_lock ctx) w;
                    (rc, w) = u_connect e w (uc_socket ctx) addr;
                    ctx = (if rc = 0 then ctx\<lparr>uc_connected := True, uc_default_remote := addr\<rparr> else ctx)
                in (rc = 0, Some ctx, ctx_unlock e (uc_lock ctx) w))
      | _ \<Rightarrow> (False, octx, w))"

definition uni_net_udp_client_is_connected :: "udp_client option \<Rightarrow> bool" where
  "uni_net_udp_client_is_connected octx = (case octx of None \<Rightarrow> False | Some ctx \<Rightarrow> uc_connected ctx)"

text \<open>The lengths are passed to the stack as \<^verbatim>\<open>(int32_t)len\<close>.\<close>

definition uni_net_udp_client_send ::
    "('w, 'z) udp_os_scheme \<Rightarrow> udp_client option \<Rightarrow> 'w \<Rightarrow> char list option \<Rightarrow> size_t \<Rightarrow> int \<times> 'w" where
  "uni_net_udp_client_send e octx w buf len =
     (case (octx, buf) of
        (Some ctx, Some b) \<Rightarrow>
          (if len = 0 \<or> \<not> uc_initialized ctx then (- u_EINVAL e, w)
           else if \<not> uc_connected ctx then (- u_ENOTCONN e, w)
           else let w = ctx_lock e (uc_lock ctx) w;
                    (rv, w) = u_send e w (uc_socket ctx) b (sint len);
                    w = ctx_unlock e (uc_lock ctx) w
                in (udp_send_result e len rv, w))
      | _ \<Rightarrow> (- u_EINVAL e, w))"

definition uni_net_udp_client_sendto ::
    "('w, 'z) udp_os_scheme \<Rightarrow> udp_client option \<Rightarrow> 'w \<Rightarrow> char list option \<Rightarrow> size_t \<Rightarrow> udp_endpoint option \<Rightarrow> int \<times> 'w" where
  "uni_net_udp_client_sendto e octx w buf len remote =
     (case (octx, buf, remote) of
        (Some ctx, Some b, Some ep) \<Rightarrow>
          (if len = 0 \<or> \<not> uc_initialized ctx then (- u_EINVAL e, w)
           else let w = ctx_lock e (uc_lock ctx) w;
                    (rv, w) = u_sendto e w (uc_socket ctx) b (sint len) (endpoint_sockaddr ep);
                    w = ctx_unlock e (uc_lock ctx) w
                in (udp_send_result e len rv, w))
      | _ \<Rightarrow> (- u_EINVAL e, w))"

text \<open>The source endpoint is written when \<^verbatim>\<open>rv >= 0 && out_src != NULL && from_len >= sizeof(from)\<close>.\<close>

definition udp_store_source ::
    "('w, 'z) udp_os_scheme \<Rightarrow> int \<Rightarrow> udp_sockaddr \<Rightarrow> nat \<Rightarrow> udp_endpoint option \<Rightarrow> udp_endpoint option" where
  "udp_store_source e rv from from_len out =
     (if 0 \<le> rv \<and> u_sizeof_sockaddr e \<le> from_len
      then map_option (\<lambda>ep. ep\<lparr>ep_addr := sin_addr from, ep_port := sin_port from\<rparr>) out else out)"

definition uni_net_udp_client_recvfrom ::
    "('w, 'z) udp_os_scheme \<Rightarrow> udp_client option \<Rightarrow> 'w \<Rightarrow> char list option \<Rightarrow> size_t \<Rightarrow> udp_endpoint option
      \<Rightarrow> (int \<times> char list option \<times> udp_endpoint option \<times> 'w) option" where
  "uni_net_udp_client_recvfrom e octx w buf buf_size out_src =
     (case (octx, buf) of
        (Some ctx, Some b) \<Rightarrow>
          (if buf_size = 0 \<or> \<not> uc_initialized ctx then Some (- u_EINVAL e, buf, out_src, w)
           else let w = ctx_lock e (uc_lock ctx) w;
                    (rv, data, from, from_len, w) =
                      u_recvfrom e w (uc_socket ctx) (sint buf_size) sockaddr_zero (u_sizeof_sockaddr e);
                    w = ctx_unlock e (uc_lock ctx) w;
                    rv = map_timeout_to_wouldblock e rv
                in do { b \<leftarrow> mem_write b 0 data; Some (rv, Some b, udp_store_source e rv from from_len out_src, w) })
      | _ \<Rightarrow> Some (- u_EINVAL e, buf, out_src, w))"

definition uni_net_udp_client_set_timeouts ::
    "('w, 'z) udp_os_scheme \<Rightarrow> udp_client option \<Rightarrow> 'w \<Rightarrow> u32 \<Rightarrow> u32 \<Rightarrow> bool \<times> udp_client option \<times> 'w" where
  "uni_net_udp_client_set_timeouts e octx w rx tx =
     (case octx of
        None \<Rightarrow> (False, None, w)
      | Some ctx \<Rightarrow>
          (if \<not> uc_initialized ctx then (False, octx, w)
           else let w = ctx_lock e (uc_lock ctx) w;
                    (rc, w) = apply_timeouts e w (uc_socket ctx) rx tx;
                    ctx = (if rc = 0 then ctx\<lparr>uc_rx_timeout_ms := rx, uc_tx_timeout_ms := tx\<rparr> else ctx)
                in (rc = 0, Some ctx, ctx_unlock e (uc_lock ctx) w)))"

text \<open>A query through two pointers, either of which may be \<^verbatim>\<open>NULL\<close>.\<close>

definition uni_net_udp_client_get_timeouts ::
    "udp_client option \<Rightarrow> u32 option \<Rightarrow> u32 option \<Rightarrow> bool \<times> u32 option \<times> u32 option" where
  "uni_net_udp_client_get_timeouts octx rx tx =
     (case octx of
        None \<Rightarrow> (False, rx, tx)
      | Some ctx \<Rightarrow> (True, map_option (\<lambda>_. uc_rx_timeout_ms ctx) rx, map_option (\<lambda>_. uc_tx_timeout_ms ctx) tx))"

section \<open>The timeouts\<close>

text \<open>The functions of an existing context, as the contract has them.\<close>

definition client_set :: "('w, 'z) udp_os_scheme \<Rightarrow> udp_client \<Rightarrow> 'w \<Rightarrow> u32 \<Rightarrow> u32 \<Rightarrow> bool \<times> udp_client \<times> 'w" where
  "client_set e ctx w rx tx =
     (let (ok, octx, w) = uni_net_udp_client_set_timeouts e (Some ctx) w rx tx in (ok, the octx, w))"

definition client_get :: "udp_client \<Rightarrow> u32 \<times> u32" where
  "client_get ctx = (let (ok, rx, tx) = uni_net_udp_client_get_timeouts (Some ctx) (Some 0) (Some 0) in (the rx, the tx))"

interpretation uct: timeout_api "client_set e" client_get for e
  by unfold_locales
     (auto simp: client_set_def client_get_def uni_net_udp_client_set_timeouts_def
       uni_net_udp_client_get_timeouts_def Let_def split: prod.splits if_splits)

text \<open>
  After any sequence of calls of \<^verbatim>\<open>uni_net_udp_client_set_timeouts\<close> the query returns the values of
  the last call that succeeded, and the values from before if none did.
\<close>

theorem udp_client_timeouts_last:
  assumes "set_all (client_set e) ctx w xs = (oks, ctx', w')"
  shows "uni_net_udp_client_get_timeouts (Some ctx') (Some a) (Some b) =
    (let (rx, tx) = last ((uc_rx_timeout_ms ctx, uc_tx_timeout_ms ctx) # map fst (filter snd (zip xs oks)))
     in (True, Some rx, Some tx))"
  using uct.set_all_last [OF assms]
  by (auto simp: client_get_def uni_net_udp_client_get_timeouts_def Let_def split: prod.splits)

section \<open>Resources\<close>

text \<open>
  \<open>opened\<close> are the open sockets, \<open>locks\<close> the number of mutexes: creating one adds it, unless the
  creation fails, closing removes it, and the other calls keep both.
\<close>

definition udp_resources :: "('w, 'z) udp_os_scheme \<Rightarrow> ('w \<Rightarrow> socket_t set) \<Rightarrow> ('w \<Rightarrow> nat) \<Rightarrow> bool" where
  "udp_resources e opened locks \<longleftrightarrow>
     (\<forall>w. opened (snd (u_MutexCreate e w)) = opened w
        \<and> locks (snd (u_MutexCreate e w)) = (if fst (u_MutexCreate e w) then Suc (locks w) else locks w))
   \<and> (\<forall>w. opened (u_MutexDelete e w) = opened w \<and> locks (u_MutexDelete e w) = locks w - 1)
   \<and> (\<forall>w. locks (snd (u_socket e w)) = locks w \<and> fst (u_socket e w) \<notin> opened w
        \<and> opened (snd (u_socket e w)) =
           (if socket_valid (fst (u_socket e w)) then insert (fst (u_socket e w)) (opened w) else opened w))
   \<and> (\<forall>w s. opened (u_closesocket e w s) = opened w - {s} \<and> locks (u_closesocket e w s) = locks w)
   \<and> (\<forall>w s opt. opened (snd (u_setsockopt e w s opt)) = opened w \<and> locks (snd (u_setsockopt e w s opt)) = locks w)
   \<and> (\<forall>w. opened (u_Take e w) = opened w \<and> locks (u_Take e w) = locks w)
   \<and> (\<forall>w. opened (u_Give e w) = opened w \<and> locks (u_Give e w) = locks w)"

lemma udp_resources_timeouts:
  assumes "udp_resources e opened locks"
  shows "opened (snd (apply_timeouts e w s rx tx)) = opened w" and "locks (snd (apply_timeouts e w s rx tx)) = locks w"
  using assms by (simp_all add: apply_timeouts_def udp_resources_def Let_def split_beta)

lemma udp_resources_socket:
  assumes "udp_resources e opened locks"
  shows "fst (u_socket e (snd (u_MutexCreate e w))) \<notin> opened w"
  using assms unfolding udp_resources_def by metis

lemma udp_client_init_inited:
  assumes "uni_net_udp_client_init e (Some c) w cfg = (ok, Some ctx, w1)"
  shows "uc_initialized ctx = ok"
proof -
  obtain rx tx where cfg: "(case cfg of None \<Rightarrow> (1000, 1000) | Some c \<Rightarrow> c) = (rx, tx)" by fastforce
  show ?thesis
    using assms by (auto simp: uni_net_udp_client_init_def udp_client_zero_def cfg Let_def split_beta split: if_splits)
qed

lemma udp_client_init_resources:
  assumes res: "udp_resources e opened locks"
    and init: "uni_net_udp_client_init e (Some c) w cfg = (ok, Some ctx, w1)"
  shows "if ok then opened w1 = insert (uc_socket ctx) (opened w) \<and> uc_socket ctx \<notin> opened w \<and> locks w1 = Suc (locks w)
      \<and> socket_valid (uc_socket ctx) \<and> uc_lock ctx
     else opened w1 = opened w \<and> locks w1 = locks w"
proof -
  obtain rx tx where cfg: "(case cfg of None \<Rightarrow> (1000, 1000) | Some c \<Rightarrow> c) = (rx, tx)" by fastforce
  show ?thesis
    using init udp_resources_timeouts [OF res] udp_resources_socket [OF res, of w] res
    by (auto simp: uni_net_udp_client_init_def cfg udp_resources_def Let_def split_beta split: if_splits)
qed

lemma udp_client_deinit_resources:
  assumes "udp_resources e opened locks" and "socket_valid (uc_socket ctx)" and "uc_lock ctx"
    and "uni_net_udp_client_deinit e (Some ctx) w = (ok, ctx', w')"
  shows "opened w' = opened w - {uc_socket ctx} \<and> locks w' = locks w - 1"
  using assms
  by (auto simp: uni_net_udp_client_deinit_def udp_resources_def ctx_lock_def ctx_unlock_def Let_def)

text \<open>
  C24.  The UDP client leaks nothing: an initialisation that fails, at whatever step, leaves no socket
  and no mutex behind; one that succeeds acquires exactly one of each, and
  \<^verbatim>\<open>uni_net_udp_client_deinit\<close> releases both; a second call of it does nothing.
\<close>

theorem udp_client_no_leak:
  assumes "udp_resources e opened locks"
    and "uni_net_udp_client_init e (Some c) w cfg = (ok, Some ctx, w1)"
    and "uni_net_udp_client_deinit e (Some ctx) w1 = (ok2, Some ctx2, w2)"
  shows "ok = uni_net_udp_client_is_inited (Some ctx)
    \<and> (if ok then opened w1 = insert (uc_socket ctx) (opened w) \<and> uc_socket ctx \<notin> opened w \<and> locks w1 = Suc (locks w)
              \<and> opened w2 = opened w \<and> locks w2 = locks w
       else opened w1 = opened w \<and> locks w1 = locks w)
    \<and> ok2 \<and> uni_net_udp_client_deinit e (Some ctx2) w2 = (True, Some ctx2, w2)"
proof -
  have "ok = uni_net_udp_client_is_inited (Some ctx)"
    using udp_client_init_inited [OF assms(2)] by (simp add: uni_net_udp_client_is_inited_def)
  moreover have "ok2 \<and> uni_net_udp_client_deinit e (Some ctx2) w2 = (True, Some ctx2, w2)"
    using assms(3) by (auto simp: uni_net_udp_client_deinit_def udp_client_zero_def socket_valid_def ctx_lock_def
        ctx_unlock_def Let_def)
  ultimately show ?thesis
    using udp_client_init_resources [OF assms(1,2)] udp_client_deinit_resources [OF assms(1) _ _ assms(3)]
    by (cases ok) auto
qed

section \<open>The default remote\<close>

text \<open>
  \<^verbatim>\<open>prvTCPConnectStart\<close> refuses a socket that is not a TCP socket, and the sockets the client
  creates are UDP sockets.
\<close>

definition connect_checks :: "('w, 'z) udp_os_scheme \<Rightarrow> ('w \<Rightarrow> socket_t \<Rightarrow> fr_socket option) \<Rightarrow> bool" where
  "connect_checks e sock \<longleftrightarrow>
     (\<forall>w s a. \<not> prvValidSocket (sock w s) IPPROTO_TCP False \<longrightarrow> fst (u_connect e w s a) \<noteq> 0)"

definition udp_sockets :: "('w, 'z) udp_os_scheme \<Rightarrow> ('w \<Rightarrow> socket_t \<Rightarrow> fr_socket option) \<Rightarrow> bool" where
  "udp_sockets e sock \<longleftrightarrow>
     (\<forall>w w' k. sock w' (fst (u_socket e w)) = Some k \<longrightarrow> fr_protocol k = IPPROTO_UDP)"

text \<open>Any calls between the initialisation and the end.\<close>

datatype udp_client_call =
    Call_connect "udp_endpoint option"
  | Call_send "char list option" size_t
  | Call_sendto "char list option" size_t "udp_endpoint option"
  | Call_set_timeouts u32 u32

fun udp_client_do :: "('w, 'z) udp_os_scheme \<Rightarrow> udp_client_call \<Rightarrow> udp_client option \<times> 'w \<Rightarrow> udp_client option \<times> 'w" where
  "udp_client_do e (Call_connect ep) (octx, w) = snd (uni_net_udp_client_connect e octx w ep)"
| "udp_client_do e (Call_send b n) (octx, w) = (octx, snd (uni_net_udp_client_send e octx w b n))"
| "udp_client_do e (Call_sendto b n ep) (octx, w) = (octx, snd (uni_net_udp_client_sendto e octx w b n ep))"
| "udp_client_do e (Call_set_timeouts rx tx) (octx, w) = snd (uni_net_udp_client_set_timeouts e octx w rx tx)"

definition not_connected :: "socket_t \<Rightarrow> udp_client option \<Rightarrow> bool" where
  "not_connected s octx \<longleftrightarrow> (\<exists>ctx. octx = Some ctx \<and> uc_socket ctx = s \<and> \<not> uc_connected ctx \<and> uc_initialized ctx)"

lemma udp_connect_refused:
  assumes "\<And>w a. fst (u_connect e w (uc_socket ctx) a) \<noteq> 0"
  shows "fst (uni_net_udp_client_connect e (Some ctx) w ep) = False"
    and "fst (snd (uni_net_udp_client_connect e (Some ctx) w ep)) = Some ctx"
  using assms by (auto simp: uni_net_udp_client_connect_def Let_def split_beta split: option.splits)

lemma udp_client_do_keeps:
  assumes "\<And>w a. fst (u_connect e w s a) \<noteq> 0" and "not_connected s octx"
  shows "not_connected s (fst (udp_client_do e call (octx, w)))"
proof (cases call)
  case (Call_connect ep)
  then show ?thesis using assms udp_connect_refused(2) [of e] by (auto simp: not_connected_def)
next
  case (Call_set_timeouts rx tx)
  then show ?thesis
    using assms(2) by (auto simp: not_connected_def uni_net_udp_client_set_timeouts_def Let_def split_beta)
qed (use assms(2) in simp_all)

text \<open>
  C37.  A UDP client never gets a default remote: \<^verbatim>\<open>FreeRTOS_connect\<close> is for TCP sockets only, so after
  any sequence of calls \<^verbatim>\<open>uni_net_udp_client_connect\<close> returns false, and every
  \<^verbatim>\<open>uni_net_udp_client_send\<close> of a client returns the error \<^verbatim>\<open>ENOTCONN\<close> without sending.
\<close>

theorem udp_client_never_connects:
  assumes "connect_checks e sock" and "udp_sockets e sock"
    and "uni_net_udp_client_init e (Some c) w cfg = (True, Some ctx, w1)"
    and "fold (udp_client_do e) calls (Some ctx, w1) = (octx2, w2)" and "n \<noteq> 0"
  shows "fst (uni_net_udp_client_connect e octx2 w2 ep) = False
    \<and> \<not> uni_net_udp_client_is_connected octx2
    \<and> uni_net_udp_client_send e octx2 w2 (Some b) n = (- u_ENOTCONN e, w2)"
proof -
  obtain w0 where s: "uc_socket ctx = fst (u_socket e w0)" and c0: "\<not> uc_connected ctx" "uc_initialized ctx"
    using assms(3) by (auto simp: uni_net_udp_client_init_def udp_client_zero_def Let_def split_beta split: if_splits)
  have ref: "fst (u_connect e w (uc_socket ctx) a) \<noteq> 0" for w a
  proof -
    have "\<not> prvValidSocket (sock w (uc_socket ctx)) IPPROTO_TCP False"
      using assms(2) unfolding s udp_sockets_def prvValidSocket_def by (auto split: option.split)
    then show ?thesis using assms(1) by (simp add: connect_checks_def)
  qed
  have "not_connected (uc_socket ctx) (fst (fold (udp_client_do e) calls (octx, w)))"
    if "not_connected (uc_socket ctx) octx" for octx w
    using that
  proof (induction calls arbitrary: octx w)
    case (Cons x xs)
    then show ?case
      using udp_client_do_keeps [OF ref Cons.prems, of x w] Cons.IH by (metis fold_simps(2) prod.collapse)
  qed simp
  from this [of "Some ctx" w1] obtain ctx2 where "octx2 = Some ctx2" "uc_socket ctx2 = uc_socket ctx"
      "\<not> uc_connected ctx2" "uc_initialized ctx2"
    using assms(4) c0 by (auto simp: not_connected_def)
  then show ?thesis
    using udp_connect_refused(1) [of e ctx2 w2 ep] ref assms(5)
    by (simp add: uni_net_udp_client_is_connected_def uni_net_udp_client_send_def)
qed

section \<open>Sending and receiving\<close>

text \<open>
  A datagram is sent whole or not at all: a positive result of \<^verbatim>\<open>uni_net_udp_client_sendto\<close> is the
  length of the datagram, a time-out is 0 and everything else is negative; wrong arguments
  reach no socket.
\<close>

theorem udp_client_sendto_whole:
  assumes "errno_ok e" and "\<And>w s b n a. fst (u_sendto e w s b n a) < 2147483648"
    and "uni_net_udp_client_sendto e octx w buf len remote = (r, w')"
  shows "whole_or_none len r
    \<and> (octx = None \<or> buf = None \<or> remote = None \<or> len = 0 \<or> \<not> uni_net_udp_client_is_inited octx
        \<longrightarrow> r = - u_EINVAL e \<and> w' = w)"
proof -
  have "whole_or_none len (udp_send_result e len (fst (u_sendto e w s b n a)))" for w s b n a
    by (rule udp_send_result_cases [OF assms(1)]) (rule assms(2))
  moreover have "whole_or_none len (- u_EINVAL e)" using assms(1) by (simp add: whole_or_none_def errno_ok_def)
  ultimately show ?thesis
    using assms(3)
    by (auto simp: uni_net_udp_client_sendto_def uni_net_udp_client_is_inited_def Let_def split_beta
        split: option.splits if_splits)
qed

text \<open>A receive call stores at most as many bytes as it was asked for, and none without a positive result.\<close>

definition recvfrom_bounded :: "('w, 'z) udp_os_scheme \<Rightarrow> bool" where
  "recvfrom_bounded e \<longleftrightarrow> (\<forall>w s n a l. let (r, d, a', l', w') = u_recvfrom e w s n a l in length d = nat r \<and> (0 \<le> n \<longrightarrow> r \<le> n))"

lemma recvfrom_boundedD:
  "recvfrom_bounded e \<Longrightarrow> u_recvfrom e w s n a l = (r, d, a', l', w') \<Longrightarrow> length d = nat r \<and> (0 \<le> n \<longrightarrow> r \<le> n)"
  unfolding recvfrom_bounded_def by (metis (mono_tags, lifting) case_prod_conv)

text \<open>
  C29.  \<^verbatim>\<open>uni_net_udp_client_recvfrom\<close> writes inside the caller's buffer only: for a size below 2 GB that
  the buffer has, it returns, leaves all bytes behind the result as they were, and stores no
  source when it fails.
\<close>

theorem udp_client_recvfrom_safe:
  assumes "recvfrom_bounded e" and "errno_ok e" and "unat n \<le> length b" and "n < 0x80000000"
  shows "\<exists>r b' src' w'. uni_net_udp_client_recvfrom e octx w (Some b) n src = Some (r, Some b', src', w')
    \<and> length b' = length b \<and> drop (nat r) b' = drop (nat r) b \<and> (r < 0 \<longrightarrow> b' = b \<and> src' = src)"
proof (cases "\<exists>ctx. octx = Some ctx \<and> n \<noteq> 0 \<and> uc_initialized ctx")
  case True
  then obtain ctx where ctx: "octx = Some ctx" "n \<noteq> 0" "uc_initialized ctx" by blast
  obtain r d a l w1 where rv: "u_recvfrom e (ctx_lock e (uc_lock ctx) w) (uc_socket ctx) (sint n) sockaddr_zero (u_sizeof_sockaddr e)
      = (r, d, a, l, w1)" by (metis prod_cases5)
  have d: "length d = nat r" "r \<le> int (unat n)"
    using recvfrom_boundedD [OF assms(1) rv] sint_size [OF assms(4)] by simp_all
  then have "length d \<le> length b" using assms(3) by linarith
  then have "mem_write b 0 d = Some (d @ drop (length d) b)" by (simp add: mem_write_def)
  then show ?thesis
    using ctx rv d assms(2) \<open>length d \<le> length b\<close>
    by (auto simp: uni_net_udp_client_recvfrom_def map_timeout_to_wouldblock_def udp_store_source_def errno_ok_def Let_def)
next
  case False
  then have "uni_net_udp_client_recvfrom e octx w (Some b) n src = Some (- u_EINVAL e, Some b, src, w)"
    by (auto simp: uni_net_udp_client_recvfrom_def split: option.splits)
  then show ?thesis using assms(2) by (simp add: errno_ok_def)
qed

text \<open>
  C39.  A reception that times out overwrites the caller's source endpoint with zeros, although no
  datagram was received.
\<close>

theorem udp_client_timeout_clobbers:
  assumes "uc_initialized ctx" and "n \<noteq> 0" and "errno_ok e"
    and "\<And>w s k a l. u_recvfrom e w s k a l = (- u_EWOULDBLOCK e, [], a, l, w)"
  shows "\<exists>w'. uni_net_udp_client_recvfrom e (Some ctx) w (Some b) n (Some ep)
    = Some (0, Some b, Some (ep\<lparr>ep_addr := 0, ep_port := 0\<rparr>), w')"
  using assms
  by (simp add: uni_net_udp_client_recvfrom_def map_timeout_to_wouldblock_def udp_store_source_def sockaddr_zero_def
      mem_write_def Let_def)

end
