(* ===== verification/Udp_Server.thy ===== *)
theory Udp_Server
  imports Udp_Client "HOL-Library.Multiset"
begin

text \<open>
  \<^verbatim>\<open>uni_net_udp_server.[ch]\<close>: the statistics, the batched zero-copy reception, the dispatch to the
  callback and the public functions.  The task and \<^verbatim>\<open>uni_net_udp_server_stop\<close>, which run
  concurrently, are in \<open>Udp_Server_Task\<close>.  A result \<open>None\<close> is an access outside the batch array or
  the caller's buffer.
\<close>

section \<open>Context\<close>

type_synonym 'w udp_recv_cb = "'w \<Rightarrow> char list \<Rightarrow> nat \<Rightarrow> udp_endpoint \<Rightarrow> 'w"

record 'w udp_server_config =
  sc_bind_addr :: u32
  sc_bind_port :: u16
  sc_rx_timeout_ms :: u32
  sc_tx_timeout_ms :: u32
  sc_on_receive :: "'w udp_recv_cb option"
  sc_task_priority :: nat
  sc_task_stack_words :: u32

record 'w udp_server =
  sv_config :: "'w udp_server_config"
  sv_initialized :: bool
  sv_socket :: socket_t
  sv_lock :: bool
  sv_task :: bool
  sv_stop_requested :: bool
  sv_rx_packets_total :: u64
  sv_rx_drop_total :: u64
  sv_rx_queue_packets :: u32

definition udp_config_zero :: "'w udp_server_config" where
  "udp_config_zero = \<lparr>sc_bind_addr = 0, sc_bind_port = 0, sc_rx_timeout_ms = 0, sc_tx_timeout_ms = 0,
     sc_on_receive = None, sc_task_priority = 0, sc_task_stack_words = 0\<rparr>"

definition udp_server_zero :: "'w udp_server" where
  "udp_server_zero = \<lparr>sv_config = udp_config_zero, sv_initialized = False, sv_socket = NULL_SOCKET, sv_lock = False,
     sv_task = False, sv_stop_requested = False, sv_rx_packets_total = 0, sv_rx_drop_total = 0, sv_rx_queue_packets = 0\<rparr>"

record udp_rx_item =
  it_payload :: "udp_payload option"
  it_length :: nat
  it_from :: udp_endpoint
  it_release_with_stack :: bool

definition udp_item_zero :: udp_rx_item where
  "udp_item_zero = \<lparr>it_payload = None, it_length = 0, it_from = \<lparr>ep_addr = 0, ep_port = 0\<rparr>, it_release_with_stack = False\<rparr>"

abbreviation RX_BATCH_DEPTH :: nat where "RX_BATCH_DEPTH \<equiv> 8"
abbreviation RX_BURST_BUDGET :: nat where "RX_BURST_BUDGET \<equiv> 32"
abbreviation RX_QUEUE_PACKETS :: u32 where "RX_QUEUE_PACKETS \<equiv> 64"

section \<open>Helpers\<close>

text \<open>The lock of a server context; the same discipline as in the client.\<close>

definition udp_server_lock :: "('w, 'z) udp_os_scheme \<Rightarrow> 'w udp_server option \<Rightarrow> 'w \<Rightarrow> 'w" where
  "udp_server_lock e octx w = (case octx of None \<Rightarrow> w | Some ctx \<Rightarrow> if sv_lock ctx then u_Take e w else w)"

definition udp_server_unlock :: "('w, 'z) udp_os_scheme \<Rightarrow> 'w udp_server option \<Rightarrow> 'w \<Rightarrow> 'w" where
  "udp_server_unlock e octx w = (case octx of None \<Rightarrow> w | Some ctx \<Rightarrow> if sv_lock ctx then u_Give e w else w)"

lemma udp_server_lock_eq [simp]:
  "udp_server_lock e (Some ctx) w = ctx_lock e (sv_lock ctx) w"
  "udp_server_unlock e (Some ctx) w = ctx_unlock e (sv_lock ctx) w"
  by (simp_all add: udp_server_lock_def udp_server_unlock_def ctx_lock_def ctx_unlock_def)

definition stats_get_drop_count :: "'w udp_server option \<Rightarrow> u64" where
  "stats_get_drop_count octx = (case octx of None \<Rightarrow> 0 | Some ctx \<Rightarrow> sv_rx_drop_total ctx)"

definition stats_reset_for_ctx :: "'w udp_server \<Rightarrow> 'w udp_server" where
  "stats_reset_for_ctx ctx = ctx\<lparr>sv_rx_packets_total := 0, sv_rx_drop_total := 0\<rparr>"

definition stats_add_packets :: "'w udp_server \<Rightarrow> u64 \<Rightarrow> 'w udp_server" where
  "stats_add_packets ctx n = ctx\<lparr>sv_rx_packets_total := sv_rx_packets_total ctx + n\<rparr>"

definition stats_add_drops :: "'w udp_server \<Rightarrow> u64 \<Rightarrow> 'w udp_server" where
  "stats_add_drops ctx n = ctx\<lparr>sv_rx_drop_total := sv_rx_drop_total ctx + n\<rparr>"

definition endpoint_from_sockaddr :: "udp_sockaddr \<Rightarrow> udp_endpoint" where
  "endpoint_from_sockaddr from = \<lparr>ep_addr = sin_addr from, ep_port = sin_port from\<rparr>"

definition udp_rx_queue_packets_value :: "('w, 'z) udp_os_scheme \<Rightarrow> u32" where
  "udp_rx_queue_packets_value e =
     (if 0 < u_UDP_MAX_RX_PACKETS e
      then if u_UDP_MAX_RX_PACKETS e < RX_QUEUE_PACKETS then u_UDP_MAX_RX_PACKETS e else RX_QUEUE_PACKETS
      else 0)"

definition apply_udp_rx_queue_tuning :: "('w, 'z) udp_os_scheme \<Rightarrow> 'w \<Rightarrow> socket_t \<Rightarrow> 'w" where
  "apply_udp_rx_queue_tuning e w s =
     (if 0 < u_UDP_MAX_RX_PACKETS e
      then snd (u_setsockopt e w s (UO_MAX_RX_PACKETS
             (if u_UDP_MAX_RX_PACKETS e < RX_QUEUE_PACKETS then u_UDP_MAX_RX_PACKETS e else RX_QUEUE_PACKETS)))
      else w)"

text \<open>
  The loop of \<^verbatim>\<open>_recv_batch\<close>, with \<open>capacity - iterations\<close> turns left; \<^verbatim>\<open>count\<close> and \<^verbatim>\<open>iterations\<close>
  are always equal.
\<close>

fun recv_loop :: "('w, 'z) udp_os_scheme \<Rightarrow> socket_t \<Rightarrow> bool \<Rightarrow> nat \<Rightarrow> nat \<Rightarrow> udp_rx_item list \<Rightarrow> 'w udp_server \<Rightarrow> 'w
    \<Rightarrow> (nat \<times> udp_rx_item list \<times> 'w udp_server \<times> 'w) option" where
  "recv_loop e s wait 0 cnt items ctx w = Some (cnt, items, ctx, w)"
| "recv_loop e s wait (Suc k) cnt items ctx w =
     (let (rv, payload, from, w) = u_recvfrom_zerocopy e w s (\<not> (cnt = 0 \<and> wait)) sockaddr_zero;
          rv = map_timeout_to_wouldblock e rv
      in if rv \<le> 0
         then let w = (case payload of None \<Rightarrow> w | Some p \<Rightarrow> u_ReleaseUDPPayloadBuffer e w p);
                  ctx = (if rv < 0 then stats_add_drops ctx 1 else ctx)
              in Some (cnt, items, ctx, w)
         else do { items \<leftarrow> mem_write items cnt
                     [\<lparr>it_payload = payload, it_length = nat rv, it_from = endpoint_from_sockaddr from,
                       it_release_with_stack = True\<rparr>];
                   recv_loop e s wait k (Suc cnt) items ctx w })"

definition recv_batch :: "('w, 'z) udp_os_scheme \<Rightarrow> 'w udp_server \<Rightarrow> 'w \<Rightarrow> socket_t \<Rightarrow> udp_rx_item list \<Rightarrow> nat \<Rightarrow> bool
    \<Rightarrow> (nat \<times> udp_rx_item list \<times> 'w udp_server \<times> 'w) option" where
  "recv_batch e ctx w s items capacity wait =
     (if \<not> socket_valid s \<or> capacity = 0 then Some (0, items, ctx, w)
      else recv_loop e s wait capacity 0 items ctx w)"

definition dispatch_item :: "('w, 'z) udp_os_scheme \<Rightarrow> udp_rx_item \<Rightarrow> 'w udp_server \<times> 'w \<Rightarrow> 'w udp_server \<times> 'w" where
  "dispatch_item e it s =
     (let (ctx, w) = s;
          (ctx, w) = (case (sc_on_receive (sv_config ctx), it_payload it) of
                        (Some cb, Some p) \<Rightarrow>
                          (if 0 < it_length it then (ctx, cb w (snd p) (it_length it) (it_from it))
                           else (stats_add_drops ctx 1, w))
                      | _ \<Rightarrow> (stats_add_drops ctx 1, w))
      in (ctx, if it_release_with_stack it
               then case it_payload it of Some p \<Rightarrow> u_ReleaseUDPPayloadBuffer e w p | None \<Rightarrow> w
               else w))"

definition dispatch_batch :: "('w, 'z) udp_os_scheme \<Rightarrow> 'w udp_server \<Rightarrow> 'w \<Rightarrow> udp_rx_item list \<Rightarrow> nat
    \<Rightarrow> ('w udp_server \<times> 'w) option" where
  "dispatch_batch e ctx w items cnt =
     (if cnt = 0 then Some (ctx, w)
      else do { batch \<leftarrow> mem_read items 0 cnt;
                let (ctx, w) = fold (dispatch_item e) batch (ctx, w) in
                Some (stats_add_packets ctx (of_nat cnt), w) })"

text \<open>One turn of the inner loop of the task: the new budget and flag, or \<open>None\<close> for its \<^verbatim>\<open>break\<close>.\<close>

definition udp_burst_step :: "('w, 'z) udp_os_scheme \<Rightarrow> socket_t \<Rightarrow> nat \<Rightarrow> bool \<Rightarrow> udp_rx_item list \<Rightarrow> 'w udp_server \<Rightarrow> 'w
    \<Rightarrow> (nat option \<times> udp_rx_item list \<times> 'w udp_server \<times> 'w) option" where
  "udp_burst_step e s budget wait batch ctx w =
     (let cap = (if RX_BATCH_DEPTH < budget then RX_BATCH_DEPTH else budget)
      in do { (received, batch, ctx, w) \<leftarrow> recv_batch e ctx w s batch cap wait;
              if received = 0 then Some (None, batch, ctx, w)
              else do { (ctx, w) \<leftarrow> dispatch_batch e ctx w batch received;
                        Some (Some (budget - received), batch, ctx, w) } })"

text \<open>
  The whole inner loop, when no stop is requested meanwhile; every turn that does not break
  receives a datagram, so \<^verbatim>\<open>burst_budget\<close> turns are enough.
\<close>

fun udp_burst :: "nat \<Rightarrow> ('w, 'z) udp_os_scheme \<Rightarrow> socket_t \<Rightarrow> nat \<Rightarrow> bool \<Rightarrow> udp_rx_item list \<Rightarrow> 'w udp_server \<Rightarrow> 'w
    \<Rightarrow> ('w udp_server \<times> 'w) option" where
  "udp_burst 0 e s budget wait batch ctx w = (if budget = 0 then Some (ctx, w) else None)"
| "udp_burst (Suc n) e s budget wait batch ctx w =
     (if sv_stop_requested ctx \<or> budget = 0 then Some (ctx, w)
      else do { (r, batch, ctx, w) \<leftarrow> udp_burst_step e s budget wait batch ctx w;
                case r of None \<Rightarrow> Some (ctx, w)
                        | Some budget \<Rightarrow> udp_burst n e s budget False batch ctx w })"

section \<open>Public functions\<close>

definition uni_net_udp_server_start ::
    "('w, 'z) udp_os_scheme \<Rightarrow> 'w udp_server option \<Rightarrow> 'w \<Rightarrow> 'w udp_server_config option \<Rightarrow> bool \<times> 'w udp_server option \<times> 'w" where
  "uni_net_udp_server_start e octx w cfg =
     (case octx of
        None \<Rightarrow> (False, None, w)
      | Some _ \<Rightarrow>
          (let ctx = stats_reset_for_ctx udp_server_zero;
               ctx = ctx\<lparr>sv_config := \<lparr>sc_bind_addr = 0, sc_bind_port = 0, sc_rx_timeout_ms = 1000,
                       sc_tx_timeout_ms = 1000, sc_on_receive = None, sc_task_priority = 2,
                       sc_task_stack_words = u_MINIMAL_STACK_SIZE e * 2\<rparr>\<rparr>;
               ctx = (case cfg of None \<Rightarrow> ctx | Some c \<Rightarrow> ctx\<lparr>sv_config := c\<rparr>);
               ctx = ctx\<lparr>sv_initialized := False, sv_stop_requested := False\<rparr>;
               (created, w) = u_xTaskCreate e w (sc_task_stack_words (sv_config ctx)) (sc_task_priority (sv_config ctx))
           in if created then (True, Some (ctx\<lparr>sv_task := True\<rparr>), w) else (False, Some udp_server_zero, w)))"

definition uni_net_udp_server_is_inited :: "'w udp_server option \<Rightarrow> bool" where
  "uni_net_udp_server_is_inited octx = (case octx of None \<Rightarrow> False | Some ctx \<Rightarrow> sv_initialized ctx)"

definition uni_net_udp_server_recvfrom ::
    "('w, 'z) udp_os_scheme \<Rightarrow> 'w udp_server option \<Rightarrow> 'w \<Rightarrow> char list option \<Rightarrow> size_t \<Rightarrow> udp_endpoint option \<Rightarrow> u32
      \<Rightarrow> (int \<times> char list option \<times> udp_endpoint option \<times> 'w udp_server option \<times> 'w) option" where
  "uni_net_udp_server_recvfrom e octx w buf buf_size out_from timeout_ms =
     (case (octx, buf) of
        (Some ctx, Some b) \<Rightarrow>
          (if buf_size = 0 \<or> \<not> sv_initialized ctx then Some (- u_EINVAL e, buf, out_from, octx, w)
           else if sc_on_receive (sv_config ctx) \<noteq> None \<and> sv_task ctx then Some (- u_EALREADY e, buf, out_from, octx, w)
           else let w = udp_server_lock e (Some ctx) w;
                    s = sv_socket ctx;
                    orig = u_MS_TO_TICKS e (sc_rx_timeout_ms (sv_config ctx));
                    w = snd (u_setsockopt e w s (UO_RCVTIMEO (u_MS_TO_TICKS e timeout_ms)));
                    w = udp_server_unlock e (Some ctx) w;
                    (rv, data, from, from_len, w) = u_recvfrom e w s (sint buf_size) sockaddr_zero (u_sizeof_sockaddr e);
                    rv = map_timeout_to_wouldblock e rv;
                    ctx = (if 0 < rv then stats_add_packets ctx 1 else if rv < 0 then stats_add_drops ctx 1 else ctx);
                    w = udp_server_lock e (Some ctx) w;
                    w = snd (u_setsockopt e w s (UO_RCVTIMEO orig));
                    w = udp_server_unlock e (Some ctx) w
                in do { b \<leftarrow> mem_write b 0 data;
                        Some (rv, Some b, udp_store_source e rv from from_len out_from, Some ctx, w) })
      | _ \<Rightarrow> Some (- u_EINVAL e, buf, out_from, octx, w))"

text \<open>\<open>self\<close> says that the caller is the server's own task, which does not take the lock.\<close>

definition uni_net_udp_server_sendto ::
    "('w, 'z) udp_os_scheme \<Rightarrow> bool \<Rightarrow> 'w udp_server option \<Rightarrow> 'w \<Rightarrow> char list option \<Rightarrow> size_t \<Rightarrow> udp_endpoint option \<Rightarrow> int \<times> 'w" where
  "uni_net_udp_server_sendto e self octx w buf len dest =
     (case (octx, buf, dest) of
        (Some ctx, Some b, Some ep) \<Rightarrow>
          (if len = 0 \<or> \<not> sv_initialized ctx then (- u_EINVAL e, w)
           else let take_lock = (\<not> sv_task ctx \<or> \<not> self);
                    w = (if take_lock then udp_server_lock e (Some ctx) w else w);
                    (rv, w) = u_sendto e w (sv_socket ctx) b (sint len) (endpoint_sockaddr ep);
                    w = (if take_lock then udp_server_unlock e (Some ctx) w else w)
                in (udp_send_result e len rv, w))
      | _ \<Rightarrow> (- u_EINVAL e, w))"

definition uni_net_udp_server_set_timeouts ::
    "('w, 'z) udp_os_scheme \<Rightarrow> 'w udp_server option \<Rightarrow> 'w \<Rightarrow> u32 \<Rightarrow> u32 \<Rightarrow> bool \<times> 'w udp_server option \<times> 'w" where
  "uni_net_udp_server_set_timeouts e octx w rx tx =
     (case octx of
        None \<Rightarrow> (False, None, w)
      | Some ctx \<Rightarrow>
          (if \<not> sv_initialized ctx then (False, octx, w)
           else let w = udp_server_lock e (Some ctx) w;
                    (rc, w) = apply_timeouts e w (sv_socket ctx) rx tx;
                    ctx = (if rc = 0
                           then ctx\<lparr>sv_config := (sv_config ctx)\<lparr>sc_rx_timeout_ms := rx, sc_tx_timeout_ms := tx\<rparr>\<rparr>
                           else ctx)
                in (rc = 0, Some ctx, udp_server_unlock e (Some ctx) w)))"

definition uni_net_udp_server_get_timeouts ::
    "'w udp_server option \<Rightarrow> u32 option \<Rightarrow> u32 option \<Rightarrow> bool \<times> u32 option \<times> u32 option" where
  "uni_net_udp_server_get_timeouts octx rx tx =
     (case octx of
        None \<Rightarrow> (False, rx, tx)
      | Some ctx \<Rightarrow> (True, map_option (\<lambda>_. sc_rx_timeout_ms (sv_config ctx)) rx,
                       map_option (\<lambda>_. sc_tx_timeout_ms (sv_config ctx)) tx))"

definition uni_net_udp_server_get_rx_drop_count :: "'w udp_server option \<Rightarrow> u64" where
  "uni_net_udp_server_get_rx_drop_count octx = stats_get_drop_count octx"

definition uni_net_udp_server_get_rx_queue_packets :: "'w udp_server option \<Rightarrow> u32" where
  "uni_net_udp_server_get_rx_queue_packets octx = (case octx of None \<Rightarrow> 0 | Some ctx \<Rightarrow> sv_rx_queue_packets ctx)"

end
