(* ===== verification/Udp_Delivery.thy ===== *)
theory Udp_Delivery
  imports Udp_Server
begin

text \<open>
  What the reception of the UDP server does with the datagrams of its socket: they reach the
  callback once and in order, within the budget of a burst, every network buffer goes back to
  the stack, and no access leaves the batch array.
\<close>

section \<open>A rule for the receive loop\<close>

text \<open>Only the drop counter changes.\<close>

definition keeps_ctx :: "'w udp_server \<Rightarrow> 'w udp_server \<Rightarrow> bool" where
  "keeps_ctx ctx ctx' \<longleftrightarrow> ctx' = ctx\<lparr>sv_rx_drop_total := sv_rx_drop_total ctx'\<rparr>"

lemma keeps_ctx_refl [simp]: "keeps_ctx ctx ctx"
  by (simp add: keeps_ctx_def)

lemma keeps_ctx_drops [simp]: "keeps_ctx ctx (stats_add_drops ctx n)"
  by (simp add: keeps_ctx_def stats_add_drops_def)

lemma keeps_ctx_trans: "keeps_ctx a b \<Longrightarrow> keeps_ctx b c \<Longrightarrow> keeps_ctx a c"
  by (cases a; cases b; cases c) (simp add: keeps_ctx_def)

lemma keeps_ctxD:
  assumes "keeps_ctx ctx ctx'"
  shows "sv_config ctx' = sv_config ctx" "sv_stop_requested ctx' = sv_stop_requested ctx"
    "sv_rx_packets_total ctx' = sv_rx_packets_total ctx" "sv_socket ctx' = sv_socket ctx"
    "sv_initialized ctx' = sv_initialized ctx" "sv_lock ctx' = sv_lock ctx" "sv_task ctx' = sv_task ctx"
  using assms unfolding keeps_ctx_def by (metis udp_server.select_convs udp_server.surjective udp_server.update_convs(8))+

definition rx_item :: "udp_payload option \<Rightarrow> int \<Rightarrow> udp_sockaddr \<Rightarrow> udp_rx_item" where
  "rx_item p r a = \<lparr>it_payload = p, it_length = nat r, it_from = endpoint_from_sockaddr a, it_release_with_stack = True\<rparr>"

text \<open>
  An invariant \<open>R\<close> of the items stored so far and the world, which every reception keeps, and a
  conclusion \<open>Q\<close> that holds when the loop ends.
\<close>

definition recv_invariant :: "('w, 'z) udp_os_scheme \<Rightarrow> socket_t \<Rightarrow> (udp_rx_item list \<Rightarrow> 'w \<Rightarrow> bool) \<Rightarrow> (udp_rx_item list \<Rightarrow> 'w \<Rightarrow> bool) \<Rightarrow> bool" where
  "recv_invariant e s R Q \<longleftrightarrow>
     (\<forall>its w. R its w \<longrightarrow> Q its w)
   \<and> (\<forall>its w dw r p a w'. R its w \<and> u_recvfrom_zerocopy e w s dw sockaddr_zero = (r, p, a, w') \<longrightarrow>
        (if 0 < map_timeout_to_wouldblock e r then R (its @ [rx_item p (map_timeout_to_wouldblock e r) a]) w'
         else Q its (case p of None \<Rightarrow> w' | Some p \<Rightarrow> u_ReleaseUDPPayloadBuffer e w' p)))"

lemma recv_invariantD:
  assumes "recv_invariant e s R Q" and "R its w"
  shows "Q its w"
    and "u_recvfrom_zerocopy e w s dw sockaddr_zero = (r, p, a, w') \<Longrightarrow> 0 < map_timeout_to_wouldblock e r \<Longrightarrow>
      R (its @ [rx_item p (map_timeout_to_wouldblock e r) a]) w'"
    and "u_recvfrom_zerocopy e w s dw sockaddr_zero = (r, p, a, w') \<Longrightarrow> map_timeout_to_wouldblock e r \<le> 0 \<Longrightarrow>
      Q its (case p of None \<Rightarrow> w' | Some p \<Rightarrow> u_ReleaseUDPPayloadBuffer e w' p)"
  using assms unfolding recv_invariant_def by (meson not_le)+

lemma recv_loop_rule:
  assumes inv: "recv_invariant e s R Q"
  shows "length its + k \<le> length items \<Longrightarrow> take (length its) items = its \<Longrightarrow> R its w \<Longrightarrow>
    \<exists>its' items' ctx' w'. recv_loop e s wait k (length its) items ctx w = Some (length its', items', ctx', w')
      \<and> take (length its') items' = its' \<and> length items' = length items
      \<and> length its' \<le> length its + k \<and> Q its' w' \<and> keeps_ctx ctx ctx'"
proof (induction k arbitrary: its items w)
  case 0
  then show ?case using recv_invariantD(1) [OF inv 0(3)] by auto
next
  case (Suc k)
  obtain r p a w1 where rv: "u_recvfrom_zerocopy e w s (\<not> (length its = 0 \<and> wait)) sockaddr_zero = (r, p, a, w1)"
    by (metis prod_cases4)
  let ?r = "map_timeout_to_wouldblock e r"
  show ?case
  proof (cases "?r \<le> 0")
    case True
    let ?w = "case p of None \<Rightarrow> w1 | Some p \<Rightarrow> u_ReleaseUDPPayloadBuffer e w1 p"
    let ?ctx = "if ?r < 0 then stats_add_drops ctx 1 else ctx"
    have "recv_loop e s wait (Suc k) (length its) items ctx w = Some (length its, items, ?ctx, ?w)"
      using True rv by (simp add: Let_def)
    moreover have "Q its ?w" by (rule recv_invariantD(3) [OF inv Suc.prems(3) rv True])
    moreover have "keeps_ctx ctx ?ctx" by simp
    ultimately show ?thesis using Suc.prems by (metis le_add1)
  next
    case False
    let ?it = "rx_item p ?r a"
    let ?items = "take (length its) items @ [?it] @ drop (Suc (length its)) items"
    have wr: "mem_write items (length its) [?it] = Some ?items" using Suc.prems(1) by (simp add: mem_write_def)
    have t: "take (length (its @ [?it])) ?items = its @ [?it]" using Suc.prems(1,2) by simp
    have len: "length (its @ [?it]) + k \<le> length ?items" using Suc.prems(1) by simp
    have "R (its @ [?it]) w1" using recv_invariantD(2) [OF inv Suc.prems(3) rv] False by simp
    from Suc.IH [OF len t this] obtain its' items' ctx' w' where
      ih: "recv_loop e s wait k (length (its @ [?it])) ?items ctx w1 = Some (length its', items', ctx', w')"
        "take (length its') items' = its'" "length items' = length ?items"
        "length its' \<le> length (its @ [?it]) + k" "Q its' w'" "keeps_ctx ctx ctx'"
      by blast
    have "recv_loop e s wait (Suc k) (length its) items ctx w = Some (length its', items', ctx', w')"
      using False wr ih(1) rv by (simp add: Let_def rx_item_def)
    then show ?thesis using ih(2-6) Suc.prems(1) by auto
  qed
qed

lemma recv_batch_rule:
  assumes inv: "recv_invariant e s R Q" and "cap \<le> length items" and "R [] w"
  obtains its items' ctx' w' where "recv_batch e ctx w s items cap wait = Some (length its, items', ctx', w')"
    and "mem_read items' 0 (length its) = Some its" and "length items' = length items"
    and "length its \<le> cap" and "Q its w'" and "keeps_ctx ctx ctx'"
proof (cases "\<not> socket_valid s \<or> cap = 0")
  case True
  then show thesis
    using that [of "[]" items ctx w] recv_invariantD(1) [OF inv assms(3)] by (simp add: recv_batch_def mem_read_def)
next
  case False
  obtain its items' ctx' w' where "recv_loop e s wait cap 0 items ctx w = Some (length its, items', ctx', w')"
      "take (length its) items' = its" "length items' = length items" "length its \<le> cap" "Q its w'" "keeps_ctx ctx ctx'"
    using recv_loop_rule [OF inv, of "[]" cap items w wait ctx] assms(2,3) by auto
  then show thesis using that False assms(2) by (simp add: recv_batch_def mem_read_def)
qed

section \<open>Delivery\<close>

text \<open>
  \<open>q w\<close> are the datagrams that wait in the socket and \<open>log w\<close> those the callback has been given.
  A reception takes the first one, after any number of new arrivals, and reports its length
  (0 for an empty datagram); without one it returns 0 or an error and no buffer.
\<close>

type_synonym udp_msg = "char list \<times> udp_endpoint"

definition udp_queue :: "('w, 'z) udp_os_scheme \<Rightarrow> socket_t \<Rightarrow> ('w \<Rightarrow> udp_msg list) \<Rightarrow> ('w \<Rightarrow> udp_msg list) \<Rightarrow> bool" where
  "udp_queue e s q log \<longleftrightarrow>
     (\<forall>w dw r p a w'. u_recvfrom_zerocopy e w s dw sockaddr_zero = (r, p, a, w') \<longrightarrow>
        log w' = log w
      \<and> (\<exists>new. case q w @ new of
                 [] \<Rightarrow> r \<le> 0 \<and> p = None \<and> q w' = []
               | (d, ep) # rest \<Rightarrow>
                   q w' = rest \<and> r = int (length d) \<and> (\<exists>b. p = Some (b, d)) \<and> endpoint_from_sockaddr a = ep))
   \<and> (\<forall>w p. q (u_ReleaseUDPPayloadBuffer e w p) = q w \<and> log (u_ReleaseUDPPayloadBuffer e w p) = log w)"

definition udp_callback_logs :: "'w udp_recv_cb \<Rightarrow> ('w \<Rightarrow> udp_msg list) \<Rightarrow> ('w \<Rightarrow> udp_msg list) \<Rightarrow> bool" where
  "udp_callback_logs cb q log \<longleftrightarrow>
     (\<forall>w d n ep. log (cb w d n ep) = log w @ [(take n d, ep)] \<and> q (cb w d n ep) = q w)"

abbreviation msg_nonempty :: "udp_msg \<Rightarrow> bool" where
  "msg_nonempty m \<equiv> fst m \<noteq> []"

definition item_msg :: "udp_rx_item \<Rightarrow> udp_msg" where
  "item_msg it = (case it_payload it of Some p \<Rightarrow> (take (it_length it) (snd p), it_from it) | None \<Rightarrow> ([], it_from it))"

definition good_item :: "udp_rx_item \<Rightarrow> bool" where
  "good_item it \<longleftrightarrow> (\<exists>b d. it_payload it = Some (b, d) \<and> it_length it = length d \<and> d \<noteq> [])"

text \<open>The items stored so far and the queue are the queue of the beginning and new arrivals.\<close>

definition taken :: "('w \<Rightarrow> udp_msg list) \<Rightarrow> ('w \<Rightarrow> udp_msg list) \<Rightarrow> 'w \<Rightarrow> udp_rx_item list \<Rightarrow> 'w \<Rightarrow> bool" where
  "taken q log w0 its w \<longleftrightarrow> log w = log w0 \<and> list_all good_item its
     \<and> (\<exists>new. filter msg_nonempty (map item_msg its @ q w) = filter msg_nonempty (q w0 @ new))"

lemma taken_invariant:
  assumes "udp_queue e s q log" and "errno_ok e"
  shows "recv_invariant e s (taken q log w0) (taken q log w0)"
  unfolding recv_invariant_def
proof (intro conjI allI impI, assumption, elim conjE)
  fix its w dw r p a w'
  assume t: "taken q log w0 its w" and rv: "u_recvfrom_zerocopy e w s dw sockaddr_zero = (r, p, a, w')"
  let ?r = "map_timeout_to_wouldblock e r"
  obtain new where log: "log w' = log w" and nw: "case q w @ new of [] \<Rightarrow> r \<le> 0 \<and> p = None \<and> q w' = []
      | (d, ep) # rest \<Rightarrow> q w' = rest \<and> r = int (length d) \<and> (\<exists>b. p = Some (b, d)) \<and> endpoint_from_sockaddr a = ep"
    using assms(1) rv unfolding udp_queue_def by meson
  obtain old where old: "log w = log w0" "list_all good_item its"
      "filter msg_nonempty (map item_msg its @ q w) = filter msg_nonempty (q w0 @ old)"
    using t by (auto simp: taken_def)
  have pos: "0 \<le> r \<Longrightarrow> ?r = r" using assms(2) by (simp add: map_timeout_to_wouldblock_def errno_ok_def)
  have neg: "r \<le> 0 \<Longrightarrow> ?r \<le> 0" by (simp add: map_timeout_to_wouldblock_def)
  have rel: "q (u_ReleaseUDPPayloadBuffer e w p) = q w" "log (u_ReleaseUDPPayloadBuffer e w p) = log w" for w p
    using assms(1) unfolding udp_queue_def by blast+
  show "if 0 < ?r then taken q log w0 (its @ [rx_item p ?r a]) w'
    else taken q log w0 its (case p of None \<Rightarrow> w' | Some p \<Rightarrow> u_ReleaseUDPPayloadBuffer e w' p)"
  proof (cases "q w @ new")
    case Nil
    then have "p = None" "\<not> 0 < ?r" "q w' = q w" using nw neg by auto
    then show ?thesis using log old by (auto simp: taken_def)
  next
    case (Cons m rest)
    obtain d ep b where m: "m = (d, ep)" "q w' = rest" "r = int (length d)" "p = Some (b, d)" "endpoint_from_sockaddr a = ep"
      using nw Cons by (cases m) auto
    have eq: "filter msg_nonempty (map item_msg its @ m # rest) = filter msg_nonempty (q w0 @ (old @ new))"
      using old(3) Cons by (metis append.assoc filter_append)
    have "item_msg (rx_item p r a) = m" if "d \<noteq> []" using m that by (simp add: item_msg_def rx_item_def)
    moreover have "good_item (rx_item p r a)" if "d \<noteq> []" using m that by (simp add: good_item_def rx_item_def)
    ultimately show ?thesis
      using m(1-4) pos log old(1,2) rel eq by (cases "d = []") (auto simp: taken_def intro!: exI [of _ "old @ new"])
  qed
qed

lemma dispatch_good:
  assumes "udp_queue e s q log" and "udp_callback_logs cb q log"
  shows "sc_on_receive (sv_config ctx) = Some cb \<Longrightarrow> list_all good_item its \<Longrightarrow>
    fold (dispatch_item e) its (ctx, w) = (ctx', w') \<Longrightarrow>
    ctx' = ctx \<and> log w' = log w @ map item_msg its \<and> q w' = q w"
proof (induction its arbitrary: w)
  case (Cons it its)
  obtain b d where it: "it_payload it = Some (b, d)" "it_length it = length d" "d \<noteq> []"
    using Cons.prems(2) by (auto simp: good_item_def)
  obtain w1 where d: "dispatch_item e it (ctx, w) = (ctx, w1)" "log w1 = log w @ [item_msg it]" "q w1 = q w"
    using it Cons.prems(1) assms
    by (auto simp: dispatch_item_def item_msg_def udp_callback_logs_def udp_queue_def Let_def)
  show ?case using Cons.IH [of w1] Cons.prems d by simp
qed simp

text \<open>\<open>n\<close> datagrams have been moved from the queue to the callback.\<close>

definition udp_moved :: "('w \<Rightarrow> udp_msg list) \<Rightarrow> ('w \<Rightarrow> udp_msg list) \<Rightarrow> nat \<Rightarrow> 'w udp_server \<times> 'w \<Rightarrow> 'w udp_server \<times> 'w \<Rightarrow> bool" where
  "udp_moved q log n s s' \<longleftrightarrow> (case (s, s') of ((ctx, w), (ctx', w')) \<Rightarrow>
     sv_config ctx' = sv_config ctx \<and> sv_stop_requested ctx' = sv_stop_requested ctx
   \<and> sv_rx_packets_total ctx' = sv_rx_packets_total ctx + of_nat n
   \<and> (\<exists>msgs new. length msgs = n \<and> log w' = log w @ msgs \<and> list_all msg_nonempty msgs
        \<and> filter msg_nonempty (msgs @ q w') = filter msg_nonempty (q w @ new)))"

lemma udp_moved_trans:
  assumes "udp_moved q log m s s1" and "udp_moved q log n s1 s2"
  shows "udp_moved q log (m + n) s s2"
proof -
  obtain ctx w ctx1 w1 ctx2 w2 where s: "s = (ctx, w)" "s1 = (ctx1, w1)" "s2 = (ctx2, w2)" by (metis prod.collapse)
  obtain ms new where 1: "length ms = m" "log w1 = log w @ ms" "list_all msg_nonempty ms"
      "filter msg_nonempty (ms @ q w1) = filter msg_nonempty (q w @ new)"
    using assms(1) by (auto simp: udp_moved_def s)
  obtain ns new' where 2: "length ns = n" "log w2 = log w1 @ ns" "list_all msg_nonempty ns"
      "filter msg_nonempty (ns @ q w2) = filter msg_nonempty (q w1 @ new')"
    using assms(2) by (auto simp: udp_moved_def s)
  have "filter msg_nonempty ((ms @ ns) @ q w2) = filter msg_nonempty (q w @ (new @ new'))"
    using 1(4) 2(4) by (metis append.assoc filter_append)
  then have "\<exists>msgs new. length msgs = m + n \<and> log w2 = log w @ msgs \<and> list_all msg_nonempty msgs
      \<and> filter msg_nonempty (msgs @ q w2) = filter msg_nonempty (q w @ new)"
    using 1 2 by (intro exI [of _ "ms @ ns"] exI [of _ "new @ new'"]) simp
  then show ?thesis using assms by (simp add: udp_moved_def s)
qed

lemma good_item_msg: "list_all good_item its \<Longrightarrow> list_all msg_nonempty (map item_msg its)"
  by (induction its) (auto simp: good_item_def item_msg_def)

lemma taken_moved:
  assumes "taken q log w its w1" and "log w2 = log w1 @ map item_msg its" and "q w2 = q w1" and "keeps_ctx ctx ctx1"
  shows "udp_moved q log (length its) (ctx, w) (stats_add_packets ctx1 (of_nat (length its)), w2)"
proof -
  obtain new where "filter msg_nonempty (map item_msg its @ q w1) = filter msg_nonempty (q w @ new)"
      "log w1 = log w" "list_all msg_nonempty (map item_msg its)"
    using assms(1) good_item_msg by (auto simp: taken_def)
  then show ?thesis
    using assms(2,3) keeps_ctxD(1-3) [OF assms(4)]
    by (auto simp: udp_moved_def stats_add_packets_def intro!: exI [of _ "map item_msg its"] exI [of _ new])
qed

lemma udp_burst_step_moves:
  assumes "udp_queue e s q log" and "errno_ok e" and "udp_callback_logs cb q log"
    and "sc_on_receive (sv_config ctx) = Some cb" and "length batch = RX_BATCH_DEPTH"
  obtains n batch' ctx' w' where "udp_burst_step e s budget wait batch ctx w
      = Some (if n = 0 then None else Some (budget - n), batch', ctx', w')"
    and "length batch' = RX_BATCH_DEPTH" and "n \<le> budget" and "udp_moved q log n (ctx, w) (ctx', w')"
proof -
  let ?cap = "if RX_BATCH_DEPTH < budget then RX_BATCH_DEPTH else budget"
  have "?cap \<le> length batch" "taken q log w [] w" using assms(5) by (auto simp: taken_def intro: exI [of _ "[]"])
  from recv_batch_rule [OF taken_invariant [OF assms(1,2)] this, of ctx wait]
  obtain its batch' ctx1 w1 where r: "recv_batch e ctx w s batch ?cap wait = Some (length its, batch', ctx1, w1)"
      "mem_read batch' 0 (length its) = Some its" "length batch' = length batch" "length its \<le> ?cap"
      "taken q log w its w1" "keeps_ctx ctx ctx1" .
  obtain ctx2 w2 where f: "fold (dispatch_item e) its (ctx1, w1) = (ctx2, w2)" by fastforce
  have d: "ctx2 = ctx1" "log w2 = log w1 @ map item_msg its" "q w2 = q w1"
    using dispatch_good [OF assms(1,3) _ _ f] r(5) assms(4) keeps_ctxD(1) [OF r(6)] by (auto simp: taken_def)
  have mv: "udp_moved q log (length its) (ctx, w) (stats_add_packets ctx1 (of_nat (length its)), w2)"
    by (rule taken_moved [OF r(5) d(2,3) r(6)])
  show thesis
  proof (cases "its = []")
    case True
    have "udp_burst_step e s budget wait batch ctx w = Some (None, batch', ctx1, w1)"
      using r(1) True by (simp add: udp_burst_step_def)
    moreover have "udp_moved q log 0 (ctx, w) (ctx1, w1)"
      using mv True f by (simp add: stats_add_packets_def)
    ultimately show thesis using that [of 0 batch' ctx1 w1] r(3) assms(5) by simp
  next
    case False
    have "udp_burst_step e s budget wait batch ctx w
        = Some (Some (budget - length its), batch', stats_add_packets ctx1 (of_nat (length its)), w2)"
      using r(1,2) f d(1) False by (simp add: udp_burst_step_def dispatch_batch_def)
    then show thesis using that [OF _ _ _ mv] r(3,4) assms(5) False by (auto split: if_splits)
  qed
qed

lemma udp_burst_moves:
  assumes "udp_queue e s q log" and "errno_ok e" and "udp_callback_logs cb q log"
  shows "sc_on_receive (sv_config ctx) = Some cb \<Longrightarrow> length batch = RX_BATCH_DEPTH \<Longrightarrow> budget \<le> fuel \<Longrightarrow>
    \<exists>n ctx' w'. udp_burst fuel e s budget wait batch ctx w = Some (ctx', w') \<and> n \<le> budget
      \<and> udp_moved q log n (ctx, w) (ctx', w')"
proof (induction fuel arbitrary: budget wait batch ctx w)
  case 0
  then show ?case by (auto simp: udp_moved_def intro!: exI [of _ "0 :: nat"] exI [of _ "[]"])
next
  case (Suc fuel)
  show ?case
  proof (cases "sv_stop_requested ctx \<or> budget = 0")
    case True
    then show ?thesis by (auto simp: udp_moved_def intro!: exI [of _ "0 :: nat"] exI [of _ "[]"])
  next
    case False
    obtain n batch' ctx1 w1 where st: "udp_burst_step e s budget wait batch ctx w
        = Some (if n = 0 then None else Some (budget - n), batch', ctx1, w1)" "length batch' = RX_BATCH_DEPTH"
        "n \<le> budget" and mv: "udp_moved q log n (ctx, w) (ctx1, w1)"
      using udp_burst_step_moves [OF assms Suc.prems(1,2)] by blast
    show ?thesis
    proof (cases "n = 0")
      case True
      then show ?thesis using st mv False by auto
    next
      case False': False
      have "sc_on_receive (sv_config ctx1) = Some cb" using mv Suc.prems(1) by (simp add: udp_moved_def)
      have "budget - n \<le> fuel" using Suc.prems(3) False' by linarith
      from Suc.IH [OF \<open>sc_on_receive (sv_config ctx1) = Some cb\<close> st(2) this, of False w1] obtain m ctx' w' where
        ih: "udp_burst fuel e s (budget - n) False batch' ctx1 w1 = Some (ctx', w')" "m \<le> budget - n"
          "udp_moved q log m (ctx1, w1) (ctx', w')"
        by blast
      then have "udp_moved q log (n + m) (ctx, w) (ctx', w')" using udp_moved_trans [OF mv] by blast
      moreover have "udp_burst (Suc fuel) e s budget wait batch ctx w = Some (ctx', w')"
        using st(1) ih(1) False False' by simp
      ultimately show ?thesis using ih(2) st(3) by (intro exI [of _ "n + m"] exI [of _ ctx'] exI [of _ w']) simp
    qed
  qed
qed

text \<open>
  C13.  A burst of the UDP server ends after at most 32 datagrams without leaving its batch of 8 items;
  the callback is given each received datagram once, whole and in order of arrival (empty ones
  excepted), and the packet counter grows by their number.
\<close>

theorem udp_burst_delivers:
  assumes "udp_queue e s q log" and "errno_ok e" and "udp_callback_logs cb q log"
    and "sc_on_receive (sv_config ctx) = Some cb"
  shows "\<exists>ctx' w' msgs new.
    udp_burst RX_BURST_BUDGET e s RX_BURST_BUDGET True (replicate RX_BATCH_DEPTH udp_item_zero) ctx w = Some (ctx', w')
    \<and> length msgs \<le> RX_BURST_BUDGET \<and> log w' = log w @ msgs
    \<and> filter msg_nonempty (msgs @ q w') = filter msg_nonempty (q w @ new)
    \<and> sv_rx_packets_total ctx' = sv_rx_packets_total ctx + of_nat (length msgs)"
proof -
  obtain n ctx' w' where "udp_burst RX_BURST_BUDGET e s RX_BURST_BUDGET True (replicate RX_BATCH_DEPTH udp_item_zero) ctx w
      = Some (ctx', w')" "n \<le> RX_BURST_BUDGET" "udp_moved q log n (ctx, w) (ctx', w')"
    using udp_burst_moves [OF assms, of "replicate RX_BATCH_DEPTH udp_item_zero" RX_BURST_BUDGET RX_BURST_BUDGET True w]
    by auto
  then show ?thesis by (auto simp: udp_moved_def)
qed

section \<open>Network buffers\<close>

text \<open>
  \<open>held\<close> are the network buffers the application owns: a zero-copy reception that returns a
  buffer adds it, releasing one that is held removes it, and the callback keeps them.
\<close>

definition udp_buffers :: "('w, 'z) udp_os_scheme \<Rightarrow> ('w \<Rightarrow> nat multiset) \<Rightarrow> bool" where
  "udp_buffers e held \<longleftrightarrow>
     (\<forall>w s dw r p a w'. u_recvfrom_zerocopy e w s dw sockaddr_zero = (r, p, a, w') \<longrightarrow>
        held w' = (case p of None \<Rightarrow> held w | Some b \<Rightarrow> add_mset (fst b) (held w)))
   \<and> (\<forall>w p. fst p \<in># held w \<longrightarrow> held (u_ReleaseUDPPayloadBuffer e w p) = held w - {# fst p #})"

definition udp_callback_keeps :: "'w udp_recv_cb option \<Rightarrow> ('w \<Rightarrow> nat multiset) \<Rightarrow> bool" where
  "udp_callback_keeps ocb held \<longleftrightarrow>
     (case ocb of None \<Rightarrow> True | Some cb \<Rightarrow> (\<forall>w d n ep. held (cb w d n ep) = held w))"

definition item_bufs :: "udp_rx_item \<Rightarrow> nat multiset" where
  "item_bufs it = (case it_payload it of None \<Rightarrow> {#} | Some p \<Rightarrow> {# fst p #})"

abbreviation items_bufs :: "udp_rx_item list \<Rightarrow> nat multiset" where
  "items_bufs its \<equiv> sum_list (map item_bufs its)"

definition stored_bufs :: "('w \<Rightarrow> nat multiset) \<Rightarrow> 'w \<Rightarrow> udp_rx_item list \<Rightarrow> 'w \<Rightarrow> bool" where
  "stored_bufs held w0 its w \<longleftrightarrow> held w = held w0 + items_bufs its \<and> list_all it_release_with_stack its"

lemma udp_buffersD:
  assumes "udp_buffers e held"
  shows "u_recvfrom_zerocopy e w s dw sockaddr_zero = (r, p, a, w') \<Longrightarrow>
      held w' = (case p of None \<Rightarrow> held w | Some b \<Rightarrow> add_mset (fst b) (held w))"
    and "fst b \<in># held w \<Longrightarrow> held (u_ReleaseUDPPayloadBuffer e w b) = held w - {# fst b #}"
  using assms unfolding udp_buffers_def by blast+

lemma stored_invariant:
  assumes "udp_buffers e held"
  shows "recv_invariant e s (stored_bufs held w0) (stored_bufs held w0)"
proof -
  have "if 0 < map_timeout_to_wouldblock e r
      then stored_bufs held w0 (its @ [rx_item p (map_timeout_to_wouldblock e r) a]) w'
      else stored_bufs held w0 its (case p of None \<Rightarrow> w' | Some p \<Rightarrow> u_ReleaseUDPPayloadBuffer e w' p)"
    if "stored_bufs held w0 its w" "u_recvfrom_zerocopy e w s dw sockaddr_zero = (r, p, a, w')" for its w dw r p a w'
  proof (cases p)
    case None
    then show ?thesis
      using that(1) udp_buffersD(1) [OF assms that(2)] by (simp add: stored_bufs_def item_bufs_def rx_item_def)
  next
    case (Some b)
    then have h: "held w' = add_mset (fst b) (held w)" using udp_buffersD(1) [OF assms that(2)] by simp
    then have "held (u_ReleaseUDPPayloadBuffer e w' b) = held w" using udp_buffersD(2) [OF assms, of b w'] by simp
    then show ?thesis using that(1) h Some by (simp add: stored_bufs_def item_bufs_def rx_item_def)
  qed
  then show ?thesis unfolding recv_invariant_def by blast
qed

lemma dispatch_item_bufs:
  assumes "udp_buffers e held" and "udp_callback_keeps (sc_on_receive (sv_config ctx)) held"
    and "it_release_with_stack it" and "item_bufs it \<subseteq># held w"
    and "dispatch_item e it (ctx, w) = (ctx', w')"
  shows "held w' = held w - item_bufs it \<and> keeps_ctx ctx ctx'"
proof (cases "it_payload it")
  case None
  then show ?thesis
    using assms(5) by (cases "sc_on_receive (sv_config ctx)") (auto simp: dispatch_item_def item_bufs_def)
next
  case (Some b)
  let ?cb = "sc_on_receive (sv_config ctx)"
  define w1 where "w1 = (case ?cb of Some cb \<Rightarrow> if 0 < it_length it then cb w (snd b) (it_length it) (it_from it) else w
      | None \<Rightarrow> w)"
  have h: "held w1 = held w" using assms(2) by (auto simp: w1_def udp_callback_keeps_def split: option.splits)
  then have "fst b \<in># held w1" using assms(4) Some by (simp add: item_bufs_def)
  then have "held (u_ReleaseUDPPayloadBuffer e w1 b) = held w - {# fst b #}" using udp_buffersD(2) [OF assms(1)] h by simp
  moreover have "w' = u_ReleaseUDPPayloadBuffer e w1 b" "keeps_ctx ctx ctx'"
    using assms(3,5) Some by (auto simp: dispatch_item_def w1_def split: option.splits if_splits)
  ultimately show ?thesis using Some by (simp add: item_bufs_def)
qed

lemma dispatch_bufs:
  assumes "udp_buffers e held"
  shows "udp_callback_keeps (sc_on_receive (sv_config ctx)) held \<Longrightarrow> list_all it_release_with_stack its \<Longrightarrow>
    held w = h + items_bufs its \<Longrightarrow> fold (dispatch_item e) its (ctx, w) = (ctx', w') \<Longrightarrow> held w' = h \<and> keeps_ctx ctx ctx'"
proof (induction its arbitrary: ctx w)
  case (Cons it its)
  obtain ctx1 w1 where d: "dispatch_item e it (ctx, w) = (ctx1, w1)" by fastforce
  have k: "held w1 = held w - item_bufs it \<and> keeps_ctx ctx ctx1"
    using dispatch_item_bufs [OF assms Cons.prems(1) _ _ d] Cons.prems(2,3) by simp
  then have "held w' = h \<and> keeps_ctx ctx1 ctx'"
    using Cons.IH [of ctx1 w1] Cons.prems d keeps_ctxD(1) [of ctx ctx1] by simp
  then show ?case using k keeps_ctx_trans [of ctx ctx1 ctx'] by simp
qed simp

text \<open>
  C17.  No network buffer is leaked and none is released twice: after any turn of the receive loop of
  the server, with whatever the stack and the peer deliver, the application holds the same
  buffers as before.
\<close>

theorem udp_buffers_balanced:
  assumes "udp_buffers e held" and "udp_callback_keeps (sc_on_receive (sv_config ctx)) held"
    and "length batch = RX_BATCH_DEPTH"
  shows "\<exists>r batch' ctx' w'. udp_burst_step e s budget wait batch ctx w = Some (r, batch', ctx', w')
    \<and> held w' = held w \<and> length batch' = RX_BATCH_DEPTH"
proof -
  let ?cap = "if RX_BATCH_DEPTH < budget then RX_BATCH_DEPTH else budget"
  have "?cap \<le> length batch" "stored_bufs held w [] w" using assms(3) by (auto simp: stored_bufs_def)
  from recv_batch_rule [OF stored_invariant [OF assms(1), of s w] this, of ctx wait]
  obtain its batch' ctx1 w1 where r: "recv_batch e ctx w s batch ?cap wait = Some (length its, batch', ctx1, w1)"
      "mem_read batch' 0 (length its) = Some its" "length batch' = length batch" "length its \<le> ?cap"
      "stored_bufs held w its w1" "keeps_ctx ctx ctx1" .
  obtain ctx2 w2 where f: "fold (dispatch_item e) its (ctx1, w1) = (ctx2, w2)" by fastforce
  have "held w2 = held w"
    using dispatch_bufs [OF assms(1) _ _ _ f, of "held w"] r(5) assms(2) keeps_ctxD(1) [OF r(6)]
    by (simp add: stored_bufs_def)
  then show ?thesis
    using r(1-3,5) f assms(3) by (cases "its = []") (auto simp: udp_burst_step_def dispatch_batch_def stored_bufs_def)
qed

section \<open>The public functions\<close>

definition server_set :: "('w, 'z) udp_os_scheme \<Rightarrow> 'w udp_server \<Rightarrow> 'w \<Rightarrow> u32 \<Rightarrow> u32 \<Rightarrow> bool \<times> 'w udp_server \<times> 'w" where
  "server_set e ctx w rx tx =
     (let (ok, octx, w) = uni_net_udp_server_set_timeouts e (Some ctx) w rx tx in (ok, the octx, w))"

definition server_get :: "'w udp_server \<Rightarrow> u32 \<times> u32" where
  "server_get ctx = (let (ok, rx, tx) = uni_net_udp_server_get_timeouts (Some ctx) (Some 0) (Some 0) in (the rx, the tx))"

interpretation ust: timeout_api "server_set e" server_get for e
  by unfold_locales
     (auto simp: server_set_def server_get_def uni_net_udp_server_set_timeouts_def
       uni_net_udp_server_get_timeouts_def Let_def split: prod.splits if_splits)

text \<open>
  After any sequence of calls of \<^verbatim>\<open>uni_net_udp_server_set_timeouts\<close> the query returns the values of
  the last call that succeeded, and the values from before if none did.
\<close>

theorem udp_server_timeouts_last:
  assumes "set_all (server_set e) ctx w xs = (oks, ctx', w')"
  shows "uni_net_udp_server_get_timeouts (Some ctx') (Some a) (Some b) =
    (let (rx, tx) = last (server_get ctx # map fst (filter snd (zip xs oks))) in (True, Some rx, Some tx))"
  using ust.set_all_last [OF assms]
  by (auto simp: server_get_def uni_net_udp_server_get_timeouts_def Let_def split: prod.splits)

text \<open>
  \<^verbatim>\<open>uni_net_udp_server_sendto\<close> sends a datagram whole or not at all, from the server's task and from
  any other: a positive result is the length of the datagram.
\<close>

theorem udp_server_sendto_whole:
  assumes "errno_ok e" and "\<And>w s b n a. fst (u_sendto e w s b n a) < 2147483648"
    and "uni_net_udp_server_sendto e self octx w buf len dest = (r, w')"
  shows "whole_or_none len r
    \<and> (\<not> uni_net_udp_server_is_inited octx \<longrightarrow> r = - u_EINVAL e \<and> w' = w)"
proof -
  have "whole_or_none len (udp_send_result e len (fst (u_sendto e w s b n a)))" for w s b n a
    by (rule udp_send_result_cases [OF assms(1)]) (rule assms(2))
  moreover have "whole_or_none len (- u_EINVAL e)" using assms(1) by (simp add: whole_or_none_def errno_ok_def)
  ultimately show ?thesis
    using assms(3)
    by (auto simp: uni_net_udp_server_sendto_def uni_net_udp_server_is_inited_def Let_def split_beta
        split: option.splits if_splits)
qed

text \<open>
  \<^verbatim>\<open>uni_net_udp_server_recvfrom\<close> writes inside the caller's buffer only, is refused while the task
  delivers to a callback, and counts a datagram exactly when it returns one.
\<close>

theorem udp_server_recvfrom_safe:
  assumes "recvfrom_bounded e" and "errno_ok e" and "unat n \<le> length b" and "n < 0x80000000"
  shows "\<exists>r b' src' ctx' w'. uni_net_udp_server_recvfrom e (Some ctx) w (Some b) n src t = Some (r, Some b', src', Some ctx', w')
    \<and> length b' = length b \<and> drop (nat r) b' = drop (nat r) b
    \<and> sv_rx_packets_total ctx' = sv_rx_packets_total ctx + (if 0 < r then 1 else 0)
    \<and> (sv_task ctx \<and> sc_on_receive (sv_config ctx) \<noteq> None \<longrightarrow> r < 0 \<and> w' = w)"
proof (cases "n \<noteq> 0 \<and> sv_initialized ctx \<and> \<not> (sc_on_receive (sv_config ctx) \<noteq> None \<and> sv_task ctx)")
  case True
  let ?w = "ctx_unlock e (sv_lock ctx) (snd (u_setsockopt e (ctx_lock e (sv_lock ctx) w) (sv_socket ctx)
      (UO_RCVTIMEO (u_MS_TO_TICKS e t))))"
  obtain r d a l w1 where rv: "u_recvfrom e ?w (sv_socket ctx) (sint n) sockaddr_zero (u_sizeof_sockaddr e)
      = (r, d, a, l, w1)" by (metis prod_cases5)
  have d: "length d = nat r" "r \<le> int (unat n)"
    using recvfrom_boundedD [OF assms(1) rv] sint_size [OF assms(4)] by simp_all
  then have le: "length d \<le> length b" using assms(3) by linarith
  then have "mem_write b 0 d = Some (d @ drop (length d) b)" by (simp add: mem_write_def)
  then show ?thesis
    using True rv d assms(2) le
    by (auto simp: uni_net_udp_server_recvfrom_def map_timeout_to_wouldblock_def errno_ok_def stats_add_packets_def
        stats_add_drops_def Let_def)
next
  case False
  define r where "r = (if n = 0 \<or> \<not> sv_initialized ctx then - u_EINVAL e else - u_EALREADY e)"
  have "uni_net_udp_server_recvfrom e (Some ctx) w (Some b) n src t = Some (r, Some b, src, Some ctx, w)"
    using False by (auto simp: uni_net_udp_server_recvfrom_def r_def)
  moreover have "r < 0" using assms(2) by (simp add: r_def errno_ok_def)
  ultimately show ?thesis by (intro exI [of _ r]) simp
qed

end
