(* ===== verification/Udp_Server_Task.thy ===== *)
theory Udp_Server_Task
  imports Udp_Delivery
begin

text \<open>
  The task of the UDP server and \<^verbatim>\<open>uni_net_udp_server_stop\<close> as two threads that interleave: each has a
  program counter, whose values are the points between two of its accesses to shared state, and
  the mutex of the context has at most one holder.
\<close>

section \<open>The two threads\<close>

datatype udp_task_pc =
    T_WAIT | T_CHECK | T_CREATE | T_SOCKET | T_OPTIONS | T_BIND | T_INIT_END | T_POLL | T_LOOP | T_LOCK | T_READ
  | T_BURST socket_t nat bool "udp_rx_item list" | T_EXIT | T_GONE

datatype udp_stop_pc =
    S_IDLE | S_LOCK1 | S_TAKE1 | S_SETOPT | S_UNLOCK1 | S_JOIN | S_LOCK2 | S_CLOSE | S_UNLOCK2 | S_DELETE | S_DONE

datatype udp_thread = TASK | STOPPER

text \<open>
  The steps of \<^verbatim>\<open>_uni_net_udp_server_task\<close> outside the short critical section \<^verbatim>\<open>T_LOCK\<close>,
  \<^verbatim>\<open>T_READ\<close>; a \<^verbatim>\<open>vTaskDelay\<close> leaves the program counter where it is.
\<close>

definition udp_task_step :: "('w, 'z) udp_os_scheme \<Rightarrow> udp_task_pc \<Rightarrow> 'w udp_server \<Rightarrow> 'w
    \<Rightarrow> (udp_task_pc \<times> 'w udp_server \<times> 'w) option" where
  "udp_task_step e pc ctx w =
     (case pc of
        T_WAIT \<Rightarrow> (let (up, w) = u_IsNetworkUp e w
                   in Some (if \<not> up \<and> \<not> sv_stop_requested ctx then T_WAIT else T_CHECK, ctx, w))
      | T_CHECK \<Rightarrow> Some (if sv_stop_requested ctx then T_POLL else T_CREATE, ctx, w)
      | T_CREATE \<Rightarrow> (let (lock, w) = u_MutexCreate e w
                     in Some (if lock then T_SOCKET else T_POLL, ctx\<lparr>sv_lock := lock\<rparr>, w))
      | T_SOCKET \<Rightarrow> (let (s, w) = u_socket e w
                     in Some (if socket_valid s then T_OPTIONS else T_INIT_END, ctx\<lparr>sv_socket := s\<rparr>, w))
      | T_OPTIONS \<Rightarrow>
          (let (rc, w) = apply_timeouts e w (sv_socket ctx) (sc_rx_timeout_ms (sv_config ctx)) (sc_tx_timeout_ms (sv_config ctx))
           in if rc = 0
              then Some (T_BIND, ctx\<lparr>sv_rx_queue_packets := udp_rx_queue_packets_value e\<rparr>,
                         apply_udp_rx_queue_tuning e w (sv_socket ctx))
              else Some (T_INIT_END, ctx\<lparr>sv_socket := INVALID_SOCKET\<rparr>, u_closesocket e w (sv_socket ctx)))
      | T_BIND \<Rightarrow>
          (let (rc, w) = u_bind e w (sv_socket ctx)
                 \<lparr>sin_port = u_swap16 e (sc_bind_port (sv_config ctx)), sin_addr = sc_bind_addr (sv_config ctx)\<rparr>
           in if rc = 0 then Some (T_INIT_END, ctx\<lparr>sv_initialized := True\<rparr>, w)
              else Some (T_INIT_END, ctx\<lparr>sv_socket := INVALID_SOCKET\<rparr>, u_closesocket e w (sv_socket ctx)))
      | T_INIT_END \<Rightarrow> (if sv_initialized ctx then Some (T_POLL, ctx, w)
                       else Some (T_POLL, ctx\<lparr>sv_lock := False\<rparr>, u_MutexDelete e w))
      | T_POLL \<Rightarrow> Some (if \<not> sv_stop_requested ctx \<and> sc_on_receive (sv_config ctx) = None then T_POLL else T_LOOP, ctx, w)
      | T_LOOP \<Rightarrow> Some (if \<not> sv_stop_requested ctx \<and> sc_on_receive (sv_config ctx) \<noteq> None then T_LOCK else T_EXIT, ctx, w)
      | T_BURST s budget wait batch \<Rightarrow>
          (if sv_stop_requested ctx \<or> budget = 0 then Some (T_LOOP, ctx, w)
           else do { (r, batch, ctx, w) \<leftarrow> udp_burst_step e s budget wait batch ctx w;
                     Some (case r of None \<Rightarrow> T_LOOP | Some n \<Rightarrow> T_BURST s n False batch, ctx, w) })
      | T_EXIT \<Rightarrow> Some (T_GONE, ctx\<lparr>sv_task := False\<rparr>, w)
      | _ \<Rightarrow> None)"

text \<open>The points before the end of the initialisation.\<close>

definition initialising :: "udp_task_pc \<Rightarrow> bool" where
  "initialising pc \<longleftrightarrow> pc \<in> {T_WAIT, T_CHECK, T_CREATE, T_SOCKET, T_OPTIONS, T_BIND, T_INIT_END}"

type_synonym 'w udp_sys = "'w udp_server \<times> udp_task_pc \<times> udp_stop_pc \<times> udp_thread option \<times> 'w"

text \<open>
  \<open>early\<close> says whether \<^verbatim>\<open>uni_net_udp_server_stop\<close> may be called during the initialisation.  \<^verbatim>\<open>_lock\<close>
  first tests the handle (\<open>S_LOCK1\<close>) and then takes the mutex (\<open>S_TAKE1\<close>).
\<close>

inductive udp_step :: "('w, 'z) udp_os_scheme \<Rightarrow> bool \<Rightarrow> 'w udp_sys \<Rightarrow> 'w udp_sys \<Rightarrow> bool" for e early where
  task: "udp_task_step e pc ctx w = Some (pc', ctx', w') \<Longrightarrow>
    udp_step e early (ctx, pc, sp, h, w) (ctx', pc', sp, if sv_lock ctx' then h else None, w')"
| task_lock: "sv_lock ctx \<longrightarrow> h = None \<Longrightarrow>
    udp_step e early (ctx, T_LOCK, sp, h, w) (ctx, T_READ, sp, if sv_lock ctx then Some TASK else h, ctx_lock e (sv_lock ctx) w)"
| task_read: "s = sv_socket ctx \<Longrightarrow>
    udp_step e early (ctx, T_READ, sp, h, w)
      (ctx, if socket_valid s then T_BURST s RX_BURST_BUDGET True (replicate RX_BATCH_DEPTH udp_item_zero) else T_LOOP,
       sp, if sv_lock ctx then None else h, ctx_unlock e (sv_lock ctx) w)"
| request: "early \<or> \<not> initialising pc \<Longrightarrow>
    udp_step e early (ctx, pc, S_IDLE, h, w) (ctx\<lparr>sv_stop_requested := True\<rparr>, pc, S_LOCK1, h, w)"
| lock1: "udp_step e early (ctx, pc, S_LOCK1, h, w) (ctx, pc, if sv_lock ctx then S_TAKE1 else S_SETOPT, h, w)"
| take1: "sv_lock ctx \<Longrightarrow> h = None \<Longrightarrow>
    udp_step e early (ctx, pc, S_TAKE1, h, w) (ctx, pc, S_SETOPT, Some STOPPER, u_Take e w)"
| setopt: "udp_step e early (ctx, pc, S_SETOPT, h, w)
    (ctx, pc, S_UNLOCK1, h,
     if socket_valid (sv_socket ctx) then snd (u_setsockopt e w (sv_socket ctx) (UO_RCVTIMEO (u_MS_TO_TICKS e 50))) else w)"
| unlock1: "udp_step e early (ctx, pc, S_UNLOCK1, h, w)
    (ctx, pc, S_JOIN, if sv_lock ctx \<and> h = Some STOPPER then None else h, ctx_unlock e (sv_lock ctx) w)"
| join: "\<not> sv_task ctx \<Longrightarrow> udp_step e early (ctx, pc, S_JOIN, h, w) (ctx, pc, S_LOCK2, h, w)"
| lock2: "sv_lock ctx \<longrightarrow> h = None \<Longrightarrow>
    udp_step e early (ctx, pc, S_LOCK2, h, w) (ctx, pc, S_CLOSE, if sv_lock ctx then Some STOPPER else h, ctx_lock e (sv_lock ctx) w)"
| close: "udp_step e early (ctx, pc, S_CLOSE, h, w)
    (if socket_valid (sv_socket ctx) then ctx\<lparr>sv_socket := INVALID_SOCKET\<rparr> else ctx, pc, S_UNLOCK2, h,
     if socket_valid (sv_socket ctx) then u_closesocket e w (sv_socket ctx) else w)"
| unlock2: "udp_step e early (ctx, pc, S_UNLOCK2, h, w)
    (ctx, pc, S_DELETE, if sv_lock ctx then None else h, ctx_unlock e (sv_lock ctx) w)"
| delete: "udp_step e early (ctx, pc, S_DELETE, h, w)
    (udp_server_zero, pc, S_DONE, None, if sv_lock ctx then u_MutexDelete e w else w)"

inductive udp_reachable :: "('w, 'z) udp_os_scheme \<Rightarrow> bool \<Rightarrow> 'w udp_sys \<Rightarrow> 'w udp_sys \<Rightarrow> bool" for e early s0 where
  init: "udp_reachable e early s0 s0"
| step: "udp_reachable e early s0 s \<Longrightarrow> udp_step e early s s' \<Longrightarrow> udp_reachable e early s0 s'"

text \<open>What \<^verbatim>\<open>uni_net_udp_server_start\<close> leaves: a running task and no call of \<^verbatim>\<open>stop\<close>.\<close>

definition udp_started :: "('w, 'z) udp_os_scheme \<Rightarrow> 'w udp_server_config option \<Rightarrow> 'w udp_sys \<Rightarrow> bool" where
  "udp_started e cfg s \<longleftrightarrow> (\<exists>ctx w0 w. uni_net_udp_server_start e (Some udp_server_zero) w0 cfg = (True, Some ctx, w)
     \<and> s = (ctx, T_WAIT, S_IDLE, None, w))"

section \<open>Resources\<close>

text \<open>The outside calls of the server keep the open sockets and the mutexes, apart from the obvious ones.\<close>

definition udp_server_resources :: "('w, 'z) udp_os_scheme \<Rightarrow> 'w udp_recv_cb option \<Rightarrow> ('w \<Rightarrow> socket_t set) \<Rightarrow> ('w \<Rightarrow> nat) \<Rightarrow> bool" where
  "udp_server_resources e ocb opened locks \<longleftrightarrow> udp_resources e opened locks
   \<and> (\<forall>w. opened (snd (u_IsNetworkUp e w)) = opened w \<and> locks (snd (u_IsNetworkUp e w)) = locks w)
   \<and> (\<forall>w s a. opened (snd (u_bind e w s a)) = opened w \<and> locks (snd (u_bind e w s a)) = locks w)
   \<and> (\<forall>w s dw r p a w'. u_recvfrom_zerocopy e w s dw sockaddr_zero = (r, p, a, w') \<longrightarrow> opened w' = opened w \<and> locks w' = locks w)
   \<and> (\<forall>w p. opened (u_ReleaseUDPPayloadBuffer e w p) = opened w \<and> locks (u_ReleaseUDPPayloadBuffer e w p) = locks w)
   \<and> (case ocb of None \<Rightarrow> True | Some cb \<Rightarrow> (\<forall>w d n ep. opened (cb w d n ep) = opened w \<and> locks (cb w d n ep) = locks w))"

definition same_resources :: "('w \<Rightarrow> socket_t set) \<Rightarrow> ('w \<Rightarrow> nat) \<Rightarrow> 'w \<Rightarrow> 'w \<Rightarrow> bool" where
  "same_resources opened locks w w' \<longleftrightarrow> opened w' = opened w \<and> locks w' = locks w"

lemma same_resources_recv:
  assumes "udp_server_resources e ocb opened locks"
  shows "recv_invariant e s (\<lambda>its. same_resources opened locks w0) (\<lambda>its. same_resources opened locks w0)"
  unfolding recv_invariant_def same_resources_def
proof (intro conjI allI impI)
  fix its :: "udp_rx_item list" and w dw r p a w'
  assume a: "(opened w = opened w0 \<and> locks w = locks w0) \<and> u_recvfrom_zerocopy e w s dw sockaddr_zero = (r, p, a, w')"
  then have "opened w' = opened w \<and> locks w' = locks w" using assms unfolding udp_server_resources_def by blast
  then show "if 0 < map_timeout_to_wouldblock e r then opened w' = opened w0 \<and> locks w' = locks w0
      else opened (case p of None \<Rightarrow> w' | Some p \<Rightarrow> u_ReleaseUDPPayloadBuffer e w' p) = opened w0
        \<and> locks (case p of None \<Rightarrow> w' | Some p \<Rightarrow> u_ReleaseUDPPayloadBuffer e w' p) = locks w0"
    using a assms by (cases p) (auto simp: udp_server_resources_def)
qed auto

lemma same_resources_dispatch:
  assumes "udp_server_resources e ocb opened locks"
  shows "sc_on_receive (sv_config ctx) = ocb \<Longrightarrow> fold (dispatch_item e) its (ctx, w) = (ctx', w') \<Longrightarrow>
    same_resources opened locks w w' \<and> keeps_ctx ctx ctx'"
proof (induction its arbitrary: ctx w)
  case (Cons it its)
  obtain ctx1 w1 where d: "dispatch_item e it (ctx, w) = (ctx1, w1)" by fastforce
  have k: "same_resources opened locks w w1 \<and> keeps_ctx ctx ctx1"
    using d Cons.prems(1) assms
    by (auto simp: dispatch_item_def udp_server_resources_def same_resources_def split: option.splits if_splits)
  then have "same_resources opened locks w1 w' \<and> keeps_ctx ctx1 ctx'"
    using Cons.IH [of ctx1 w1] Cons.prems d keeps_ctxD(1) [of ctx ctx1] by simp
  then show ?case using k keeps_ctx_trans [of ctx ctx1 ctx'] by (simp add: same_resources_def)
qed (simp add: same_resources_def)

lemma udp_burst_step_resources:
  assumes res: "udp_server_resources e (sc_on_receive (sv_config ctx)) opened locks" and "length batch = RX_BATCH_DEPTH"
  obtains r batch' ctx' w' where "udp_burst_step e s budget wait batch ctx w = Some (r, batch', ctx', w')"
    and "length batch' = RX_BATCH_DEPTH" and "same_resources opened locks w w'"
    and "\<exists>n d. ctx' = ctx\<lparr>sv_rx_packets_total := n, sv_rx_drop_total := d\<rparr>"
proof -
  let ?cap = "if RX_BATCH_DEPTH < budget then RX_BATCH_DEPTH else budget"
  have "?cap \<le> length batch" "same_resources opened locks w w" using assms(2) by (auto simp: same_resources_def)
  from recv_batch_rule [OF same_resources_recv [OF res, of s w] this, of ctx wait]
  obtain its batch' ctx1 w1 where r: "recv_batch e ctx w s batch ?cap wait = Some (length its, batch', ctx1, w1)"
      "mem_read batch' 0 (length its) = Some its" "length batch' = length batch" "length its \<le> ?cap"
      "same_resources opened locks w w1" "keeps_ctx ctx ctx1" .
  obtain ctx2 w2 where f: "fold (dispatch_item e) its (ctx1, w1) = (ctx2, w2)" by fastforce
  have k: "same_resources opened locks w1 w2" "keeps_ctx ctx ctx2"
    using same_resources_dispatch [OF res _ f] keeps_ctxD(1) [OF r(6)] keeps_ctx_trans [OF r(6)] by auto
  have c: "\<exists>n d. c = ctx\<lparr>sv_rx_packets_total := n, sv_rx_drop_total := d\<rparr>" if "keeps_ctx ctx c" for c
    using that unfolding keeps_ctx_def by (intro exI [of _ "sv_rx_packets_total ctx"] exI [of _ "sv_rx_drop_total c"]) simp
  show thesis
  proof (cases "its = []")
    case True
    then show thesis using that [of None batch' ctx1 w1] r assms(2) c [OF r(6)] by (simp add: udp_burst_step_def)
  next
    case False
    obtain d where "ctx2 = ctx\<lparr>sv_rx_drop_total := d\<rparr>" using k(2) unfolding keeps_ctx_def by metis
    then have "\<exists>n d. stats_add_packets ctx2 (of_nat (length its)) = ctx\<lparr>sv_rx_packets_total := n, sv_rx_drop_total := d\<rparr>"
      by (intro exI [of _ "sv_rx_packets_total ctx + of_nat (length its)"] exI [of _ d], cases ctx) (simp add: stats_add_packets_def)
    then show thesis
      using that [of "Some (budget - length its)" batch' "stats_add_packets ctx2 (of_nat (length its))" w2] False r f assms(2) k(1)
      by (simp add: udp_burst_step_def dispatch_batch_def same_resources_def)
  qed
qed

section \<open>The invariant\<close>

text \<open>What the context holds at each point of the task, until \<^verbatim>\<open>stop\<close> closes the socket.\<close>

definition task_phase_ok :: "udp_task_pc \<Rightarrow> 'w udp_server \<Rightarrow> bool" where
  "task_phase_ok pc ctx \<longleftrightarrow>
     (case pc of
        T_WAIT \<Rightarrow> \<not> sv_initialized ctx \<and> \<not> socket_valid (sv_socket ctx) \<and> \<not> sv_lock ctx
      | T_CHECK \<Rightarrow> \<not> sv_initialized ctx \<and> \<not> socket_valid (sv_socket ctx) \<and> \<not> sv_lock ctx
      | T_CREATE \<Rightarrow> \<not> sv_initialized ctx \<and> \<not> socket_valid (sv_socket ctx) \<and> \<not> sv_lock ctx
      | T_SOCKET \<Rightarrow> \<not> sv_initialized ctx \<and> \<not> socket_valid (sv_socket ctx) \<and> sv_lock ctx
      | T_OPTIONS \<Rightarrow> \<not> sv_initialized ctx \<and> socket_valid (sv_socket ctx) \<and> sv_lock ctx
      | T_BIND \<Rightarrow> \<not> sv_initialized ctx \<and> socket_valid (sv_socket ctx) \<and> sv_lock ctx
      | T_INIT_END \<Rightarrow> (socket_valid (sv_socket ctx) = sv_initialized ctx) \<and> sv_lock ctx
      | T_BURST s n wt batch \<Rightarrow> sv_initialized ctx \<and> sv_lock ctx \<and> socket_valid s \<and> sv_socket ctx = s
          \<and> length batch = RX_BATCH_DEPTH
      | _ \<Rightarrow> (sv_lock ctx = sv_initialized ctx) \<and> (socket_valid (sv_socket ctx) = sv_initialized ctx))"

text \<open>The world holds what the context names, on top of what it held before (\<open>O\<^sub>0\<close> and \<open>L\<^sub>0\<close>).\<close>

definition ctx_resources :: "('w \<Rightarrow> socket_t set) \<Rightarrow> ('w \<Rightarrow> nat) \<Rightarrow> socket_t set \<Rightarrow> nat \<Rightarrow> 'w udp_server \<Rightarrow> 'w \<Rightarrow> bool" where
  "ctx_resources opened locks O\<^sub>0 L\<^sub>0 ctx w \<longleftrightarrow>
     opened w = O\<^sub>0 \<union> (if socket_valid (sv_socket ctx) then {sv_socket ctx} else {})
   \<and> (socket_valid (sv_socket ctx) \<longrightarrow> sv_socket ctx \<notin> O\<^sub>0)
   \<and> locks w = L\<^sub>0 + (if sv_lock ctx then 1 else 0)"

definition udp_sys_inv :: "'w udp_recv_cb option \<Rightarrow> ('w \<Rightarrow> socket_t set) \<Rightarrow> ('w \<Rightarrow> nat) \<Rightarrow> socket_t set \<Rightarrow> nat \<Rightarrow> 'w udp_sys \<Rightarrow> bool" where
  "udp_sys_inv ocb opened locks O\<^sub>0 L\<^sub>0 s \<longleftrightarrow> (case s of (ctx, pc, sp, h, w) \<Rightarrow>
     ctx_resources opened locks O\<^sub>0 L\<^sub>0 ctx w
   \<and> (sp \<in> {S_LOCK2, S_CLOSE, S_UNLOCK2, S_DELETE, S_DONE} \<longrightarrow> pc = T_GONE)
   \<and> (sp \<notin> {S_UNLOCK2, S_DELETE, S_DONE} \<longrightarrow> task_phase_ok pc ctx)
   \<and> (sp \<in> {S_UNLOCK2, S_DELETE} \<longrightarrow> \<not> socket_valid (sv_socket ctx))
   \<and> (if sp = S_DONE then ctx = udp_server_zero
      else sv_task ctx = (pc \<noteq> T_GONE) \<and> sv_stop_requested ctx = (sp \<noteq> S_IDLE) \<and> sc_on_receive (sv_config ctx) = ocb))"

text \<open>What one step of the task keeps.\<close>

definition task_keeps :: "udp_task_pc \<Rightarrow> 'w udp_server \<Rightarrow> udp_task_pc \<Rightarrow> 'w udp_server \<Rightarrow> bool" where
  "task_keeps pc ctx pc' ctx' \<longleftrightarrow> sv_stop_requested ctx' = sv_stop_requested ctx \<and> sv_config ctx' = sv_config ctx
     \<and> sv_task ctx' = (sv_task ctx \<and> pc' \<noteq> T_GONE) \<and> pc \<noteq> T_GONE \<and> task_phase_ok pc' ctx'
     \<and> (\<not> initialising pc \<longrightarrow> \<not> initialising pc' \<and> sv_lock ctx' = sv_lock ctx) \<and> pc \<noteq> T_READ \<and> pc' \<noteq> T_READ"

lemma udp_resourcesD:
  assumes "udp_server_resources e ocb opened locks"
  shows "udp_resources e opened locks"
    and "opened (snd (u_MutexCreate e w)) = opened w"
    and "locks (snd (u_MutexCreate e w)) = (if fst (u_MutexCreate e w) then Suc (locks w) else locks w)"
    and "opened (u_MutexDelete e w) = opened w" and "locks (u_MutexDelete e w) = locks w - 1"
    and "locks (snd (u_socket e w)) = locks w" and "fst (u_socket e w) \<notin> opened w"
    and "opened (snd (u_socket e w)) =
        (if socket_valid (fst (u_socket e w)) then insert (fst (u_socket e w)) (opened w) else opened w)"
    and "opened (u_closesocket e w s) = opened w - {s}" and "locks (u_closesocket e w s) = locks w"
    and "opened (snd (u_setsockopt e w s opt)) = opened w" and "locks (snd (u_setsockopt e w s opt)) = locks w"
    and "opened (u_Take e w) = opened w" and "locks (u_Take e w) = locks w"
    and "opened (u_Give e w) = opened w" and "locks (u_Give e w) = locks w"
    and "opened (snd (u_IsNetworkUp e w)) = opened w" and "locks (snd (u_IsNetworkUp e w)) = locks w"
    and "opened (snd (u_bind e w s a)) = opened w" and "locks (snd (u_bind e w s a)) = locks w"
  using assms by (simp_all add: udp_server_resources_def udp_resources_def)

lemma ctx_lock_resources:
  assumes "udp_server_resources e ocb opened locks"
  shows "opened (ctx_lock e b w) = opened w" "locks (ctx_lock e b w) = locks w"
    "opened (ctx_unlock e b w) = opened w" "locks (ctx_unlock e b w) = locks w"
  using udp_resourcesD [OF assms] by (simp_all add: ctx_lock_def ctx_unlock_def)

lemma tuning_resources:
  assumes "udp_server_resources e ocb opened locks"
  shows "opened (apply_udp_rx_queue_tuning e w s) = opened w" "locks (apply_udp_rx_queue_tuning e w s) = locks w"
  using udp_resourcesD [OF assms] by (simp_all add: apply_udp_rx_queue_tuning_def)

lemmas task_step_simps = udp_task_step_def task_keeps_def initialising_def task_phase_ok_def ctx_resources_def Let_def split_beta

lemma task_step_burst_ok:
  assumes res: "udp_server_resources e (sc_on_receive (sv_config ctx)) opened locks"
    and ph: "task_phase_ok pc ctx" and cr: "ctx_resources opened locks O\<^sub>0 L\<^sub>0 ctx w"
    and st: "udp_task_step e pc ctx w = Some (pc', ctx', w')"
    and T_BURST: "pc = T_BURST s n wt batch"
  shows "task_keeps pc ctx pc' ctx' \<and> ctx_resources opened locks O\<^sub>0 L\<^sub>0 ctx' w'"
proof -
  show ?thesis
  proof (cases "sv_stop_requested ctx \<or> n = 0")
    case True
    then show ?thesis using st ph cr T_BURST by (auto simp: task_step_simps)
  next
    case False
    have "length batch = RX_BATCH_DEPTH" using ph T_BURST by (simp add: task_phase_ok_def)
    from udp_burst_step_resources [OF res this, of s n wt w]
    obtain r batch' ctx1 w1 where b0: "udp_burst_step e s n wt batch ctx w = Some (r, batch', ctx1, w1)"
        "length batch' = RX_BATCH_DEPTH" "same_resources opened locks w w1"
        "\<exists>n d. ctx1 = ctx\<lparr>sv_rx_packets_total := n, sv_rx_drop_total := d\<rparr>" .
    then obtain m d where c: "ctx1 = ctx\<lparr>sv_rx_packets_total := m, sv_rx_drop_total := d\<rparr>" by blast
    have "pc' = (case r of None \<Rightarrow> T_LOOP | Some k \<Rightarrow> T_BURST s k False batch')" "ctx' = ctx1" "w' = w1"
      using st T_BURST False b0(1) by (simp_all add: udp_task_step_def)
    then show ?thesis
      using b0(2,3) c ph cr T_BURST by (cases r) (simp_all add: task_keeps_def initialising_def task_phase_ok_def ctx_resources_def same_resources_def)
  qed
qed

lemma task_step_setup_ok:
  assumes res: "udp_server_resources e (sc_on_receive (sv_config ctx)) opened locks"
    and ph: "task_phase_ok pc ctx" and cr: "ctx_resources opened locks O\<^sub>0 L\<^sub>0 ctx w"
    and st: "udp_task_step e pc ctx w = Some (pc', ctx', w')"
    and pc: "pc \<in> {T_CREATE, T_SOCKET, T_OPTIONS, T_BIND}"
  shows "task_keeps pc ctx pc' ctx' \<and> ctx_resources opened locks O\<^sub>0 L\<^sub>0 ctx' w'"
proof -
  consider (T_CREATE) "pc = T_CREATE" | (T_SOCKET) "pc = T_SOCKET" | (T_OPTIONS) "pc = T_OPTIONS" | (T_BIND) "pc = T_BIND"
    using pc by blast
  then show ?thesis
  proof cases
    case T_CREATE
    obtain b w1 where t: "u_MutexCreate e w = (b, w1)" by fastforce
    then have "opened w1 = opened w" "locks w1 = (if b then Suc (locks w) else locks w)"
      using udp_resourcesD(2,3) [OF res, of w] by simp_all
    moreover have "pc' = (if b then T_SOCKET else T_POLL)" "ctx' = ctx\<lparr>sv_lock := b\<rparr>" "w' = w1"
      using T_CREATE t st by (simp_all add: udp_task_step_def)
    ultimately show ?thesis using T_CREATE ph cr
      by (cases b) (simp_all add: task_keeps_def initialising_def task_phase_ok_def ctx_resources_def)
  next
    case T_SOCKET
    obtain s w1 where t: "u_socket e w = (s, w1)" by fastforce
    then have "locks w1 = locks w" "s \<notin> opened w" "opened w1 = (if socket_valid s then insert s (opened w) else opened w)"
      using udp_resourcesD(6-8) [OF res, of w] by simp_all
    moreover have "pc' = (if socket_valid s then T_OPTIONS else T_INIT_END)" "ctx' = ctx\<lparr>sv_socket := s\<rparr>" "w' = w1"
      using T_SOCKET t st by (simp_all add: udp_task_step_def)
    ultimately show ?thesis using T_SOCKET ph cr
      by (cases "socket_valid s") (simp_all add: task_keeps_def initialising_def task_phase_ok_def ctx_resources_def)
  next
    case T_OPTIONS
    obtain rc w1 where t: "apply_timeouts e w (sv_socket ctx) (sc_rx_timeout_ms (sv_config ctx)) (sc_tx_timeout_ms (sv_config ctx)) = (rc, w1)"
      by fastforce
    have "opened w1 = opened w" "locks w1 = locks w"
      using udp_resources_timeouts [OF udp_resourcesD(1) [OF res], of w "sv_socket ctx"] t by (metis snd_conv)+
    then show ?thesis using T_OPTIONS t st ph cr udp_resourcesD(9,10) [OF res, of w1] tuning_resources [OF res, of w1]
      by (cases "rc = 0") (auto simp: task_step_simps socket_valid_def)
  next
    case T_BIND
    let ?a = "\<lparr>sin_port = u_swap16 e (sc_bind_port (sv_config ctx)), sin_addr = sc_bind_addr (sv_config ctx)\<rparr>"
    obtain rc w1 where t: "u_bind e w (sv_socket ctx) ?a = (rc, w1)" by fastforce
    then have "opened w1 = opened w" "locks w1 = locks w"
      using udp_resourcesD(19,20) [OF res, of w "sv_socket ctx" ?a] by simp_all
    then show ?thesis using T_BIND t st ph cr udp_resourcesD(9,10) [OF res, of w1]
      by (cases "rc = 0") (auto simp: task_step_simps socket_valid_def)
  qed
qed

lemma udp_task_step_ok:
  assumes res: "udp_server_resources e (sc_on_receive (sv_config ctx)) opened locks"
    and ph: "task_phase_ok pc ctx" and cr: "ctx_resources opened locks O\<^sub>0 L\<^sub>0 ctx w"
    and st: "udp_task_step e pc ctx w = Some (pc', ctx', w')"
  shows "task_keeps pc ctx pc' ctx' \<and> ctx_resources opened locks O\<^sub>0 L\<^sub>0 ctx' w'"
proof (cases "(\<exists>s n wt batch. pc = T_BURST s n wt batch) \<or> pc \<in> {T_CREATE, T_SOCKET, T_OPTIONS, T_BIND}")
  case True
  then show ?thesis using task_step_burst_ok [OF assms] task_step_setup_ok [OF assms] by blast
next
  case False
  then show ?thesis
  proof (cases pc)
    case T_WAIT
    obtain b w1 where t: "u_IsNetworkUp e w = (b, w1)" by fastforce
    then have "opened w1 = opened w" "locks w1 = locks w" using udp_resourcesD(17,18) [OF res, of w] by simp_all
    moreover have "pc' \<in> {T_WAIT, T_CHECK}" "ctx' = ctx" "w' = w1"
      using T_WAIT t st by (auto simp: udp_task_step_def split: if_splits)
    ultimately show ?thesis using T_WAIT ph cr by (elim insertE) (simp_all add: task_keeps_def initialising_def task_phase_ok_def ctx_resources_def)
  next
    case T_INIT_END
    then have "pc' = T_POLL" "ctx' = (if sv_initialized ctx then ctx else ctx\<lparr>sv_lock := False\<rparr>)"
        "w' = (if sv_initialized ctx then w else u_MutexDelete e w)"
      using st by (simp_all add: udp_task_step_def split: if_splits)
    then show ?thesis using T_INIT_END ph cr udp_resourcesD(4,5) [OF res, of w]
      by (cases "sv_initialized ctx") (simp_all add: task_keeps_def initialising_def task_phase_ok_def ctx_resources_def)
  next
    case T_CHECK
    then have "pc' \<in> {T_POLL, T_CREATE}" "ctx' = ctx" "w' = w"
      using st by (auto simp: udp_task_step_def split: if_splits)
    then show ?thesis using T_CHECK ph cr by (elim insertE) (simp_all add: task_keeps_def initialising_def task_phase_ok_def)
  next
    case T_POLL
    then have "pc' \<in> {T_POLL, T_LOOP}" "ctx' = ctx" "w' = w"
      using st by (auto simp: udp_task_step_def split: if_splits)
    then show ?thesis using T_POLL ph cr by (elim insertE) (simp_all add: task_keeps_def initialising_def task_phase_ok_def)
  next
    case T_LOOP
    then have "pc' \<in> {T_LOCK, T_EXIT}" "ctx' = ctx" "w' = w"
      using st by (auto simp: udp_task_step_def split: if_splits)
    then show ?thesis using T_LOOP ph cr by (elim insertE) (simp_all add: task_keeps_def initialising_def task_phase_ok_def)
  next
    case T_EXIT
    then have "pc' = T_GONE" "ctx' = ctx\<lparr>sv_task := False\<rparr>" "w' = w" using st by (simp_all add: udp_task_step_def)
    then show ?thesis using T_EXIT ph cr by (simp add: task_keeps_def initialising_def task_phase_ok_def ctx_resources_def)
  qed (use st False in \<open>simp_all add: udp_task_step_def\<close>)
qed

section \<open>Reachable states\<close>

lemma udp_step_inv:
  assumes res: "udp_server_resources e ocb opened locks"
  shows "udp_step e early s s' \<Longrightarrow> udp_sys_inv ocb opened locks O\<^sub>0 L\<^sub>0 s \<Longrightarrow> udp_sys_inv ocb opened locks O\<^sub>0 L\<^sub>0 s'"
proof (induction rule: udp_step.induct)
  case (task pc ctx w pc' ctx' w' sp h)
  have gone: "pc \<noteq> T_GONE" using task(1) by (auto simp: udp_task_step_def)
  then have sp: "sp \<notin> {S_LOCK2, S_CLOSE, S_UNLOCK2, S_DELETE, S_DONE}" using task(2) by (auto simp: udp_sys_inv_def)
  then have ph: "task_phase_ok pc ctx" "sc_on_receive (sv_config ctx) = ocb" "ctx_resources opened locks O\<^sub>0 L\<^sub>0 ctx w"
    using task(2) by (auto simp: udp_sys_inv_def)
  then have "task_keeps pc ctx pc' ctx' \<and> ctx_resources opened locks O\<^sub>0 L\<^sub>0 ctx' w'"
    using udp_task_step_ok [OF _ ph(1) ph(3) task(1)] res by simp
  then show ?case using task(2) sp gone by (simp add: udp_sys_inv_def task_keeps_def)
next
  case (task_lock ctx h sp w)
  then show ?case
    by (auto simp: udp_sys_inv_def task_phase_ok_def ctx_resources_def ctx_lock_resources [OF res])
next
  case (task_read s ctx sp h w)
  then show ?case
    by (auto simp: udp_sys_inv_def task_phase_ok_def ctx_resources_def ctx_lock_resources [OF res] split: if_splits)
next
  case (request pc ctx h w)
  then show ?case
    by (simp add: udp_sys_inv_def task_phase_ok_def ctx_resources_def split: udp_task_pc.splits)
next
  case (setopt ctx pc h w)
  then show ?case
    by (simp add: udp_sys_inv_def ctx_resources_def udp_resourcesD(11,12) [OF res])
next
  case (close ctx pc h w)
  then show ?case
    using udp_resourcesD(9,10) [OF res] by (auto simp: udp_sys_inv_def ctx_resources_def socket_valid_def)
next
  case (delete ctx pc h w)
  then show ?case
    using udp_resourcesD(4,5) [OF res] by (auto simp: udp_sys_inv_def ctx_resources_def udp_server_zero_def socket_valid_def)
qed (simp_all add: udp_sys_inv_def ctx_resources_def ctx_lock_resources [OF res] udp_resourcesD(13,14) [OF res] task_phase_ok_def)

abbreviation config_callback :: "'w udp_server_config option \<Rightarrow> 'w udp_recv_cb option" where
  "config_callback cfg \<equiv> (case cfg of None \<Rightarrow> None | Some c \<Rightarrow> sc_on_receive c)"

lemma udp_started_inv:
  assumes "udp_started e cfg (ctx, pc, sp, h, w)"
  shows "udp_sys_inv (config_callback cfg) opened locks (opened w) (locks w) (ctx, pc, sp, h, w)"
    and "sp = S_IDLE" and "h = None" and "pc = T_WAIT"
  using assms
  by (auto simp: udp_started_def uni_net_udp_server_start_def udp_sys_inv_def ctx_resources_def task_phase_ok_def
      udp_server_zero_def stats_reset_for_ctx_def socket_valid_def Let_def split_beta split: if_splits option.splits)

lemma udp_reachable_inv:
  assumes "udp_server_resources e (config_callback cfg) opened locks" and "udp_started e cfg s0"
  shows "udp_reachable e early s0 s \<Longrightarrow>
    udp_sys_inv (config_callback cfg) opened locks (opened (snd (snd (snd (snd s0))))) (locks (snd (snd (snd (snd s0))))) s"
proof (induction rule: udp_reachable.induct)
  case init
  then show ?case using udp_started_inv(1) assms(2) by (metis prod.collapse)
next
  case (step s s')
  then show ?case using udp_step_inv [OF assms(1)] by blast
qed

text \<open>
  C21.  The socket of the UDP server is open whenever its task receives from it, at whatever time
  another task calls \<^verbatim>\<open>stop\<close>: in every reachable state in which the task is in its receive loop,
  its copy of the socket is the socket of the context, is open, and \<^verbatim>\<open>stop\<close> has not gone on to
  close it.
\<close>

theorem udp_server_socket_open:
  assumes "udp_server_resources e (config_callback cfg) opened locks" and "udp_started e cfg s0"
    and "udp_reachable e early s0 (ctx, T_BURST s n wt batch, sp, h, w)"
  shows "s \<in> opened w \<and> sv_socket ctx = s \<and> sp \<notin> {S_LOCK2, S_CLOSE, S_UNLOCK2, S_DELETE, S_DONE}"
  using udp_reachable_inv [OF assms] by (auto simp: udp_sys_inv_def task_phase_ok_def ctx_resources_def)

text \<open>
  C15.  When \<^verbatim>\<open>uni_net_udp_server_stop\<close> returns, the server is gone without a trace: its task has ended,
  its context is zero, and the open sockets and the mutexes are those from before the start,
  however its steps interleaved with those of the task and whichever step of the
  initialisation failed.
\<close>

theorem udp_stop_releases:
  assumes "udp_server_resources e (config_callback cfg) opened locks" and "udp_started e cfg (ctx0, pc0, sp0, h0, w0)"
    and "udp_reachable e early (ctx0, pc0, sp0, h0, w0) (ctx, pc, S_DONE, h, w)"
  shows "ctx = udp_server_zero \<and> pc = T_GONE \<and> opened w = opened w0 \<and> locks w = locks w0"
  using udp_reachable_inv [OF assms]
  by (auto simp: udp_sys_inv_def ctx_resources_def udp_server_zero_def socket_valid_def)

section \<open>The mutex, and that stop returns\<close>

text \<open>
  What \<^verbatim>\<open>stop\<close> must not do: take a mutex that has been deleted, give a mutex it did not take; and the
  task must not delete a mutex that is held.
\<close>

definition udp_fault :: "'w udp_sys \<Rightarrow> bool" where
  "udp_fault s \<longleftrightarrow> (case s of (ctx, pc, sp, h, w) \<Rightarrow>
     (sp = S_TAKE1 \<and> \<not> sv_lock ctx) \<or> (sp = S_UNLOCK1 \<and> sv_lock ctx \<and> h \<noteq> Some STOPPER)
   \<or> (pc = T_INIT_END \<and> \<not> sv_initialized ctx \<and> h = Some STOPPER))"

definition udp_lock_inv :: "'w udp_sys \<Rightarrow> bool" where
  "udp_lock_inv s \<longleftrightarrow> (case s of (ctx, pc, sp, h, w) \<Rightarrow>
     (sp \<noteq> S_IDLE \<longrightarrow> \<not> initialising pc)
   \<and> (h = Some TASK \<longleftrightarrow> pc = T_READ \<and> sv_lock ctx)
   \<and> (h = Some STOPPER \<longleftrightarrow> sp \<in> {S_SETOPT, S_UNLOCK1, S_CLOSE, S_UNLOCK2} \<and> sv_lock ctx)
   \<and> (sp = S_TAKE1 \<longrightarrow> sv_lock ctx))"

lemma udp_step_lock_inv:
  assumes res: "udp_server_resources e ocb opened locks"
  shows "udp_step e False s s' \<Longrightarrow> udp_sys_inv ocb opened locks O\<^sub>0 L\<^sub>0 s \<Longrightarrow> udp_lock_inv s \<Longrightarrow> udp_lock_inv s'"
proof (induction rule: udp_step.induct)
  case (task pc ctx w pc' ctx' w' sp h)
  have gone: "pc \<noteq> T_GONE" "pc \<noteq> T_READ" using task(1) by (auto simp: udp_task_step_def)
  then have sp: "sp \<notin> {S_LOCK2, S_CLOSE, S_UNLOCK2, S_DELETE, S_DONE}" using task(2) by (auto simp: udp_sys_inv_def)
  then have ph: "task_phase_ok pc ctx" "sc_on_receive (sv_config ctx) = ocb" "ctx_resources opened locks O\<^sub>0 L\<^sub>0 ctx w"
    using task(2) by (auto simp: udp_sys_inv_def)
  then have "task_keeps pc ctx pc' ctx'" using udp_task_step_ok [OF _ ph(1) ph(3) task(1)] res by simp
  then show ?case using task(3) gone by (cases "initialising pc"; cases h) (auto simp: udp_lock_inv_def task_keeps_def)
qed (auto simp: udp_lock_inv_def initialising_def udp_server_zero_def)

lemma udp_reachable_lock_inv:
  assumes "udp_server_resources e (config_callback cfg) opened locks" and "udp_started e cfg s0"
  shows "udp_reachable e False s0 s \<Longrightarrow> udp_lock_inv s"
proof (induction rule: udp_reachable.induct)
  case init
  obtain ctx pc sp h w where "s0 = (ctx, pc, sp, h, w)" by (metis prod.collapse)
  then show ?case using udp_started_inv(2-4) [of e cfg ctx pc sp h w] assms(2) by (simp add: udp_lock_inv_def)
next
  case (step s s')
  then show ?case using udp_step_lock_inv [OF assms(1)] udp_reachable_inv [OF assms step(1)] by blast
qed

fun task_rank :: "udp_task_pc \<Rightarrow> nat" where
  "task_rank T_WAIT = 14" | "task_rank T_CHECK = 13" | "task_rank T_CREATE = 12" | "task_rank T_SOCKET = 11"
| "task_rank T_OPTIONS = 10" | "task_rank T_BIND = 9" | "task_rank T_INIT_END = 8" | "task_rank T_POLL = 7"
| "task_rank T_LOCK = 6" | "task_rank T_READ = 5" | "task_rank (T_BURST s n wt b) = 4" | "task_rank T_LOOP = 3"
| "task_rank T_EXIT = 2" | "task_rank T_GONE = 0"

fun stop_rank :: "udp_stop_pc \<Rightarrow> nat" where
  "stop_rank S_IDLE = 10" | "stop_rank S_LOCK1 = 9" | "stop_rank S_TAKE1 = 8" | "stop_rank S_SETOPT = 7"
| "stop_rank S_UNLOCK1 = 6" | "stop_rank S_JOIN = 5" | "stop_rank S_LOCK2 = 4" | "stop_rank S_CLOSE = 3"
| "stop_rank S_UNLOCK2 = 2" | "stop_rank S_DELETE = 1" | "stop_rank S_DONE = 0"

definition udp_rank :: "'w udp_sys \<Rightarrow> nat" where
  "udp_rank s = (case s of (ctx, pc, sp, h, w) \<Rightarrow> task_rank pc + stop_rank sp)"

lemma task_step_rank:
  assumes "udp_task_step e pc ctx w = Some (pc', ctx', w')" and "sv_stop_requested ctx"
  shows "task_rank pc' < task_rank pc"
  using assms by (cases pc) (auto simp: udp_task_step_def Let_def split_beta split: if_splits)

lemma task_step_total:
  assumes "sv_stop_requested ctx" and "pc \<notin> {T_LOCK, T_READ, T_GONE}"
  shows "\<exists>pc' ctx' w'. udp_task_step e pc ctx w = Some (pc', ctx', w')"
  using assms by (cases pc) (auto simp: udp_task_step_def Let_def split_beta)

lemma udp_step_rank:
  "udp_step e early s s' \<Longrightarrow> udp_sys_inv ocb opened locks O\<^sub>0 L\<^sub>0 s \<Longrightarrow> fst (snd (snd s)) \<noteq> S_IDLE \<Longrightarrow> udp_rank s' < udp_rank s"
proof (induction rule: udp_step.induct)
  case (task pc ctx w pc' ctx' w' sp h)
  have "pc \<noteq> T_GONE" using task(1) by (auto simp: udp_task_step_def)
  then have "sv_stop_requested ctx" using task(2,3) by (auto simp: udp_sys_inv_def split: if_splits)
  then show ?case using task_step_rank [OF task(1)] by (simp add: udp_rank_def)
qed (auto simp: udp_rank_def)

lemma udp_step_enabled:
  assumes inv: "udp_sys_inv ocb opened locks O\<^sub>0 L\<^sub>0 (ctx, pc, sp, h, w)" and lck: "udp_lock_inv (ctx, pc, sp, h, w)"
    and sp: "sp \<noteq> S_IDLE" "sp \<noteq> S_DONE"
  shows "\<exists>s'. udp_step e False (ctx, pc, sp, h, w) s'"
proof -
  have task: "\<exists>s'. udp_step e False (ctx, pc, sp, h, w) s'" if t: "pc \<noteq> T_GONE" "pc = T_LOCK \<longrightarrow> h \<noteq> Some STOPPER"
  proof -
    have "sv_stop_requested ctx" using inv sp by (simp add: udp_sys_inv_def)
    then consider (lock) "pc = T_LOCK" | (read) "pc = T_READ" | (step) pc' ctx' w' where "udp_task_step e pc ctx w = Some (pc', ctx', w')"
      using task_step_total [of ctx pc e w] t(1) by blast
    then show ?thesis
    proof cases
      case lock
      then have "h = None" using lck t(2) by (cases h; cases "the h") (auto simp: udp_lock_inv_def)
      then have "sv_lock ctx \<longrightarrow> h = None" by simp
      then show ?thesis unfolding lock by (intro exI) (rule udp_step.task_lock)
    next
      case read
      then show ?thesis using udp_step.task_read [OF refl, of e False ctx sp h w] by blast
    next
      case step
      then show ?thesis using udp_step.task [OF step] by blast
    qed
  qed
  show ?thesis
  proof (cases sp)
    case S_TAKE1
    show ?thesis
    proof (cases h)
      case None
      moreover have "sv_lock ctx" using S_TAKE1 lck by (simp add: udp_lock_inv_def)
      ultimately show ?thesis unfolding S_TAKE1 by (intro exI) (rule udp_step.take1)
    next
      case (Some t)
      then have "pc = T_READ" using lck S_TAKE1 by (cases t) (auto simp: udp_lock_inv_def)
      then show ?thesis using task by simp
    qed
  next
    case S_JOIN
    show ?thesis
    proof (cases "sv_task ctx")
      case True
      then have "pc \<noteq> T_GONE" using inv S_JOIN by (simp add: udp_sys_inv_def)
      moreover have "h \<noteq> Some STOPPER" using lck S_JOIN by (simp add: udp_lock_inv_def)
      ultimately show ?thesis using task by simp
    next
      case False
      then show ?thesis unfolding S_JOIN by (intro exI) (rule udp_step.join)
    qed
  next
    case S_LOCK2
    have "pc = T_GONE" using inv S_LOCK2 by (simp add: udp_sys_inv_def)
    then have "h = None" using lck S_LOCK2 by (cases h; cases "the h") (auto simp: udp_lock_inv_def)
    then have "sv_lock ctx \<longrightarrow> h = None" by simp
    then show ?thesis unfolding S_LOCK2 by (intro exI) (rule udp_step.lock2)
  qed (metis sp udp_step.lock1 udp_step.setopt udp_step.unlock1 udp_step.close udp_step.unlock2 udp_step.delete)+
qed

text \<open>
  C7.  \<^verbatim>\<open>uni_net_udp_server_stop\<close> returns: once it has been called on a server whose initialisation has
  ended, every step of either thread brings its end nearer, fewer than 24 steps are left, and as
  long as it has not returned one of the two threads can go on; the mutex is neither taken nor
  given in error on the way.
\<close>

theorem udp_stop_returns:
  assumes "udp_server_resources e (config_callback cfg) opened locks" and "udp_started e cfg s0"
    and "udp_reachable e False s0 (ctx, pc, sp, h, w)" and "sp \<noteq> S_IDLE"
  shows "udp_rank (ctx, pc, sp, h, w) < 24 \<and> \<not> udp_fault (ctx, pc, sp, h, w)
    \<and> (\<forall>s'. udp_step e False (ctx, pc, sp, h, w) s' \<longrightarrow> udp_rank s' < udp_rank (ctx, pc, sp, h, w))
    \<and> (sp = S_DONE \<or> (\<exists>s'. udp_step e False (ctx, pc, sp, h, w) s'))"
proof -
  have inv: "udp_sys_inv (config_callback cfg) opened locks (opened (snd (snd (snd (snd s0)))))
      (locks (snd (snd (snd (snd s0))))) (ctx, pc, sp, h, w)"
    by (rule udp_reachable_inv [OF assms(1-3)])
  have lck: "udp_lock_inv (ctx, pc, sp, h, w)" by (rule udp_reachable_lock_inv [OF assms(1-3)])
  have "task_rank pc \<le> 14" by (cases pc) simp_all
  moreover have "stop_rank sp \<le> 9" using assms(4) by (cases sp) simp_all
  ultimately have "udp_rank (ctx, pc, sp, h, w) < 24" by (simp add: udp_rank_def)
  moreover have "\<not> udp_fault (ctx, pc, sp, h, w)"
    using lck assms(4) by (auto simp: udp_fault_def udp_lock_inv_def initialising_def)
  moreover have "\<forall>s'. udp_step e False (ctx, pc, sp, h, w) s' \<longrightarrow> udp_rank s' < udp_rank (ctx, pc, sp, h, w)"
    by (intro allI impI, rule udp_step_rank [OF _ inv]) (simp_all add: assms(4))
  moreover have "sp = S_DONE \<or> (\<exists>s'. udp_step e False (ctx, pc, sp, h, w) s')"
    using udp_step_enabled [OF inv lck assms(4)] by blast
  ultimately show ?thesis by blast
qed

text \<open>
  C38.  A stop during the initialisation can fault: when \<^verbatim>\<open>stop\<close> finds no mutex and the task then creates
  it, \<^verbatim>\<open>stop\<close> gives a mutex it has not taken.
\<close>

theorem udp_early_stop_faults:
  assumes "\<And>w. fst (u_IsNetworkUp e w)" and "\<And>w. fst (u_MutexCreate e w)" and "udp_started e cfg s0"
  shows "\<exists>s. udp_reachable e True s0 s \<and> udp_fault s"
proof -
  obtain ctx w where s0: "s0 = (ctx, T_WAIT, S_IDLE, None, w)" using assms(3) by (auto simp: udp_started_def)
  have c: "\<not> sv_lock ctx" "\<not> sv_stop_requested ctx" "\<not> socket_valid (sv_socket ctx)"
    using udp_started_inv(1) [of e cfg ctx T_WAIT S_IDLE None w "\<lambda>_. {}" "\<lambda>_. 0"] assms(3)
    by (simp_all add: s0 udp_sys_inv_def task_phase_ok_def)
  obtain w1 where up: "u_IsNetworkUp e w = (True, w1)" using assms(1) [of w] by (metis prod.collapse)
  obtain w2 where mx: "u_MutexCreate e w1 = (True, w2)" using assms(2) [of w1] by (metis prod.collapse)
  let ?ctx = "ctx\<lparr>sv_stop_requested := True\<rparr>"
  have "udp_step e True s0 (ctx, T_CHECK, S_IDLE, None, w1)"
    using udp_step.task [of e T_WAIT ctx w T_CHECK ctx w1 True S_IDLE None] up by (simp add: s0 udp_task_step_def)
  moreover have "udp_step e True (ctx, T_CHECK, S_IDLE, None, w1) (ctx, T_CREATE, S_IDLE, None, w1)"
    using udp_step.task [of e T_CHECK ctx w1 T_CREATE ctx w1 True S_IDLE None] c by (simp add: udp_task_step_def)
  moreover have "udp_step e True (ctx, T_CREATE, S_IDLE, None, w1) (?ctx, T_CREATE, S_LOCK1, None, w1)"
    by (rule udp_step.request) simp
  moreover have "udp_step e True (?ctx, T_CREATE, S_LOCK1, None, w1) (?ctx, T_CREATE, S_SETOPT, None, w1)"
    using udp_step.lock1 [of e True ?ctx T_CREATE None w1] c by simp
  moreover have "udp_step e True (?ctx, T_CREATE, S_SETOPT, None, w1) (?ctx, T_CREATE, S_UNLOCK1, None, w1)"
    using udp_step.setopt [of e True ?ctx T_CREATE None w1] c by simp
  moreover have "udp_step e True (?ctx, T_CREATE, S_UNLOCK1, None, w1) (?ctx\<lparr>sv_lock := True\<rparr>, T_SOCKET, S_UNLOCK1, None, w2)"
    using udp_step.task [of e T_CREATE ?ctx w1 T_SOCKET "?ctx\<lparr>sv_lock := True\<rparr>" w2 True S_UNLOCK1 None] mx
    by (simp add: udp_task_step_def)
  ultimately have "udp_reachable e True s0 (?ctx\<lparr>sv_lock := True\<rparr>, T_SOCKET, S_UNLOCK1, None, w2)"
    by (meson udp_reachable.intros)
  then show ?thesis by (intro exI conjI) (assumption, simp add: udp_fault_def)
qed

end
