(* ===== verification/Udp_Loopback.thy ===== *)
theory Udp_Loopback
  imports Udp_Server_Task
begin

text \<open>
  One concrete environment for the examples of the UDP modules: sockets are numbered, datagrams
  wait in a queue and the callback writes a log.
\<close>

record udp_wire =
  uw_socks :: "nat set"
  uw_next :: nat
  uw_locks :: nat
  uw_queue :: "udp_msg list"
  uw_log :: "udp_msg list"
  uw_buf :: nat
  uw_held :: "nat multiset"

definition uw_opened :: "udp_wire \<Rightarrow> socket_t set" where
  "uw_opened w = Sock ` {n \<in> uw_socks w. n < uw_next w}"

definition uw_zerocopy :: "udp_wire \<Rightarrow> socket_t \<Rightarrow> bool \<Rightarrow> udp_sockaddr \<Rightarrow> int \<times> udp_payload option \<times> udp_sockaddr \<times> udp_wire" where
  "uw_zerocopy w s dw a =
     (case uw_queue w of
        [] \<Rightarrow> (- 11, None, a, w)
      | m # rest \<Rightarrow> (int (length (fst m)), Some (uw_buf w, fst m),
                     \<lparr>sin_port = ep_port (snd m), sin_addr = ep_addr (snd m)\<rparr>,
                     w\<lparr>uw_queue := rest, uw_buf := uw_buf w + 1, uw_held := add_mset (uw_buf w) (uw_held w)\<rparr>))"

definition uw_env :: "udp_wire udp_os" where
  "uw_env = \<lparr>
     u_MutexCreate = (\<lambda>w. (True, w\<lparr>uw_locks := Suc (uw_locks w)\<rparr>)), u_MutexDelete = (\<lambda>w. w\<lparr>uw_locks := uw_locks w - 1\<rparr>),
     u_Take = (\<lambda>w. w), u_Give = (\<lambda>w. w),
     u_socket = (\<lambda>w. (Sock (uw_next w), w\<lparr>uw_socks := insert (uw_next w) (uw_socks w), uw_next := Suc (uw_next w)\<rparr>)),
     u_closesocket = (\<lambda>w s. case s of Sock n \<Rightarrow> w\<lparr>uw_socks := uw_socks w - {n}\<rparr> | _ \<Rightarrow> w),
     u_setsockopt = (\<lambda>w s opt. (0, w)), u_connect = (\<lambda>w s a. (- 9, w)), u_bind = (\<lambda>w s a. (0, w)),
     u_send = (\<lambda>w s b n. (- 22, w)), u_sendto = (\<lambda>w s b n a. (min n 1472, w)),
     u_recvfrom = (\<lambda>w s n a l. (- 11, [], a, l, w)), u_recvfrom_zerocopy = uw_zerocopy,
     u_ReleaseUDPPayloadBuffer = (\<lambda>w p. w\<lparr>uw_held := uw_held w - {# fst p #}\<rparr>),
     u_IsNetworkUp = (\<lambda>w. (True, w)), u_xTaskCreate = (\<lambda>w n p. (True, w)), u_gethostbyname = (\<lambda>w s. (0, w)),
     u_swap16 = swap16, u_MS_TO_TICKS = (\<lambda>n. n), u_USE_DNS = True, u_UDP_MAX_RX_PACKETS = 5,
     u_MINIMAL_STACK_SIZE = 128, u_sizeof_sockaddr = 24,
     u_EINVAL = 22, u_ENOTCONN = 128, u_EWOULDBLOCK = 11, u_ETIMEDOUT = 116, u_EALREADY = 120\<rparr>"

definition uw_callback :: "udp_wire udp_recv_cb" where
  "uw_callback w d n ep = w\<lparr>uw_log := uw_log w @ [(take n d, ep)]\<rparr>"

definition uw_peer :: udp_endpoint where
  "uw_peer = \<lparr>ep_addr = 1, ep_port = 2\<rparr>"

definition uw_start :: udp_wire where
  "uw_start = \<lparr>uw_socks = {}, uw_next = 0, uw_locks = 0, uw_queue = [(''ab'', uw_peer), (''c'', uw_peer)], uw_log = [],
     uw_buf = 0, uw_held = {#}\<rparr>"

definition uw_config :: "udp_wire udp_server_config" where
  "uw_config = \<lparr>sc_bind_addr = 0, sc_bind_port = 7, sc_rx_timeout_ms = 1000, sc_tx_timeout_ms = 1000,
     sc_on_receive = Some uw_callback, sc_task_priority = 2, sc_task_stack_words = 256\<rparr>"

definition uw_server :: "udp_wire udp_server" where
  "uw_server = udp_server_zero\<lparr>sv_config := uw_config, sv_task := True\<rparr>"

definition uw_running :: "udp_wire udp_server" where
  "uw_running = uw_server\<lparr>sv_lock := True, sv_socket := Sock 0, sv_initialized := True, sv_rx_queue_packets := 5\<rparr>"

definition uw_client :: udp_client where
  "uw_client = udp_client_zero\<lparr>uc_rx_timeout_ms := 1000, uc_tx_timeout_ms := 1000, uc_lock := True, uc_socket := Sock 0,
     uc_initialized := True\<rparr>"

definition uw_opened_one :: udp_wire where
  "uw_opened_one = uw_start\<lparr>uw_locks := 1, uw_socks := {0}, uw_next := 1\<rparr>"

section \<open>The environment keeps its promises\<close>

lemma uw_errno: "errno_ok uw_env"
  by (simp add: errno_ok_def uw_env_def)

lemma uw_resources: "udp_resources uw_env uw_opened uw_locks"
  by (auto simp: udp_resources_def uw_env_def uw_opened_def socket_valid_def less_Suc_eq split: socket_t.splits)

lemma uw_server_resources: "udp_server_resources uw_env (config_callback (Some uw_config)) uw_opened uw_locks"
  using uw_resources
  by (auto simp: udp_server_resources_def uw_config_def uw_callback_def uw_env_def uw_opened_def uw_zerocopy_def split: list.splits)

lemma uw_queue_ok: "udp_queue uw_env s uw_queue uw_log"
  by (auto simp: udp_queue_def uw_env_def uw_zerocopy_def endpoint_from_sockaddr_def split: list.splits intro!: exI [of _ "[]"])

lemma uw_callback_logs: "udp_callback_logs uw_callback uw_queue uw_log"
  by (simp add: udp_callback_logs_def uw_callback_def)

lemma uw_buffers: "udp_buffers uw_env uw_held"
  by (auto simp: udp_buffers_def uw_env_def uw_zerocopy_def split: list.splits)

lemma uw_recvfrom: "recvfrom_bounded uw_env"
  by (simp add: recvfrom_bounded_def uw_env_def)

lemma uw_started: "udp_started uw_env (Some uw_config) (uw_server, T_WAIT, S_IDLE, None, uw_start)"
  by (simp add: udp_started_def uni_net_udp_server_start_def uw_server_def stats_reset_for_ctx_def uw_env_def
      udp_server_zero_def Let_def)

lemma uw_init: "uni_net_udp_client_init uw_env (Some udp_client_zero) uw_start None = (True, Some uw_client, uw_opened_one)"
  by (simp add: uni_net_udp_client_init_def uw_env_def uw_client_def uw_opened_one_def uw_start_def apply_timeouts_def
      socket_valid_def Let_def)

section \<open>The UDP client at these inputs\<close>

theorem udp_endpoint_agree_witness:
  "uni_net_udp_ipv4_from_string uw_env uw_start (Some (dotted 10 0 0 1)) = (uni_net_udp_ipv4_from_octets 10 0 0 1, uw_start)
    \<and> uni_net_udp_endpoint_init (Some uw_peer) (fst (uni_net_udp_ipv4_from_string uw_env uw_start (Some (dotted 10 0 0 1)))) 80
      = uni_net_udp_endpoint_init_quick (Some uw_peer) 10 0 0 1 80
    \<and> map_option (\<lambda>ep. FreeRTOS_htons (ep_port ep)) (uni_net_udp_endpoint_init_quick (Some uw_peer) 10 0 0 1 80) = Some 80"
  by (rule udp_endpoint_agree, rule disjI1) code_simp

theorem udp_client_timeouts_last_witness:
  "uni_net_udp_client_get_timeouts (Some (uw_client\<lparr>uc_rx_timeout_ms := 7, uc_tx_timeout_ms := 8\<rparr>)) (Some 0) (Some 0)
    = (True, Some 7, Some 8)"
  using udp_client_timeouts_last [of uw_env uw_client uw_start "[(5, 6), (7, 8)]" "[True, True]"
      "uw_client\<lparr>uc_rx_timeout_ms := 7, uc_tx_timeout_ms := 8\<rparr>" uw_start 0 0]
  by (simp add: client_set_def uni_net_udp_client_set_timeouts_def apply_timeouts_def ctx_lock_def ctx_unlock_def
      uw_env_def uw_client_def Let_def)

theorem udp_client_no_leak_witness:
  "uni_net_udp_client_is_inited (Some uw_client) \<and> uw_opened uw_opened_one = {Sock 0} \<and> uw_locks uw_opened_one = 1
    \<and> uni_net_udp_client_deinit uw_env (Some udp_client_zero) (uw_start\<lparr>uw_next := 1\<rparr>)
      = (True, Some udp_client_zero, uw_start\<lparr>uw_next := 1\<rparr>)"
proof -
  have "uni_net_udp_client_deinit uw_env (Some uw_client) uw_opened_one = (True, Some udp_client_zero, uw_start\<lparr>uw_next := 1\<rparr>)"
    by (simp add: uni_net_udp_client_deinit_def uw_client_def uw_opened_one_def uw_start_def uw_env_def ctx_lock_def
        ctx_unlock_def socket_valid_def Let_def)
  from udp_client_no_leak [OF uw_resources uw_init this]
  show ?thesis by (simp add: uw_opened_def uw_start_def uw_client_def)
qed

text \<open>A socket of \<open>uw_env\<close> is a UDP socket.\<close>

definition uw_fr_socket :: "udp_wire \<Rightarrow> socket_t \<Rightarrow> fr_socket option" where
  "uw_fr_socket w s = (if s \<in> uw_opened w then Some \<lparr>fr_bound = True, fr_protocol = 17\<rparr> else None)"

theorem udp_client_never_connects_witness:
  "fst (uni_net_udp_client_connect uw_env (Some uw_client) uw_opened_one (Some uw_peer)) = False
    \<and> \<not> uni_net_udp_client_is_connected (Some uw_client)
    \<and> uni_net_udp_client_send uw_env (Some uw_client) uw_opened_one (Some ''x'') 1 = (- u_ENOTCONN uw_env, uw_opened_one)"
proof (rule udp_client_never_connects [OF _ _ uw_init, where calls = "[]"])
  show "connect_checks uw_env uw_fr_socket" by (simp add: connect_checks_def uw_env_def)
  show "udp_sockets uw_env uw_fr_socket" by (simp add: udp_sockets_def uw_fr_socket_def)
qed simp_all

theorem udp_client_sendto_whole_witness:
  "whole_or_none 2 (fst (uni_net_udp_client_sendto uw_env (Some uw_client) uw_start (Some ''ab'') 2 (Some uw_peer)))"
proof -
  have "fst (u_sendto uw_env w s b n a) < 2147483648" for w s b n a by (simp add: uw_env_def)
  from udp_client_sendto_whole [OF uw_errno this surjective_pairing] show ?thesis by blast
qed

theorem udp_client_recvfrom_safe_witness:
  "\<exists>r b' src' w'. uni_net_udp_client_recvfrom uw_env (Some uw_client) uw_start (Some ''abcd'') 3 None = Some (r, Some b', src', w')
    \<and> length b' = 4 \<and> drop (nat r) b' = drop (nat r) ''abcd''"
  using udp_client_recvfrom_safe [OF uw_recvfrom uw_errno, of 3 "''abcd''" "Some uw_client" uw_start None] by auto

theorem udp_client_timeout_clobbers_witness:
  "\<exists>w'. uni_net_udp_client_recvfrom uw_env (Some uw_client) uw_start (Some ''abcd'') 3 (Some uw_peer)
    = Some (0, Some ''abcd'', Some (uw_peer\<lparr>ep_addr := 0, ep_port := 0\<rparr>), w')"
  by (rule udp_client_timeout_clobbers [OF _ _ uw_errno]) (simp_all add: uw_client_def uw_env_def)

section \<open>The UDP server at these inputs\<close>

theorem udp_burst_delivers_witness:
  "\<exists>ctx' w' msgs new. udp_burst RX_BURST_BUDGET uw_env (Sock 0) RX_BURST_BUDGET True (replicate RX_BATCH_DEPTH udp_item_zero) uw_running uw_start
      = Some (ctx', w')
    \<and> length msgs \<le> RX_BURST_BUDGET \<and> uw_log w' = uw_log uw_start @ msgs
    \<and> filter msg_nonempty (msgs @ uw_queue w') = filter msg_nonempty (uw_queue uw_start @ new)
    \<and> sv_rx_packets_total ctx' = sv_rx_packets_total uw_running + of_nat (length msgs)"
  by (rule udp_burst_delivers [OF uw_queue_ok uw_errno uw_callback_logs]) (simp add: uw_running_def uw_server_def uw_config_def)

theorem udp_buffers_balanced_witness:
  "\<exists>r batch' ctx' w'. udp_burst_step uw_env (Sock 0) RX_BURST_BUDGET True (replicate RX_BATCH_DEPTH udp_item_zero) uw_running uw_start
      = Some (r, batch', ctx', w') \<and> uw_held w' = uw_held uw_start \<and> length batch' = RX_BATCH_DEPTH"
  by (rule udp_buffers_balanced [OF uw_buffers])
     (simp_all add: uw_running_def uw_server_def uw_config_def udp_callback_keeps_def uw_callback_def)

theorem udp_server_timeouts_last_witness:
  "uni_net_udp_server_get_timeouts (Some uw_running)
      (Some 0) (Some 0) = (True, Some 1000, Some 1000)
   \<and> uni_net_udp_server_get_timeouts (Some (fst (snd (set_all (server_set uw_env) uw_running uw_start [(5, 6)])))) (Some 0) (Some 0)
      = (True, Some 5, Some 6)"
proof -
  have "set_all (server_set uw_env) uw_running uw_start [(5, 6)]
      = ([True], uw_running\<lparr>sv_config := uw_config\<lparr>sc_rx_timeout_ms := 5, sc_tx_timeout_ms := 6\<rparr>\<rparr>, uw_start)"
    by (simp add: server_set_def uni_net_udp_server_set_timeouts_def apply_timeouts_def ctx_lock_def ctx_unlock_def
        uw_env_def uw_running_def uw_server_def Let_def)
  from udp_server_timeouts_last [OF this, of 0 0] this
  show ?thesis by (simp add: uni_net_udp_server_get_timeouts_def uw_running_def uw_server_def uw_config_def)
qed

theorem udp_server_sendto_whole_witness:
  "whole_or_none 2 (fst (uni_net_udp_server_sendto uw_env True (Some uw_running) uw_start (Some ''ab'') 2 (Some uw_peer)))"
proof -
  have "fst (u_sendto uw_env w s b n a) < 2147483648" for w s b n a by (simp add: uw_env_def)
  from udp_server_sendto_whole [OF uw_errno this surjective_pairing] show ?thesis by blast
qed

theorem udp_server_recvfrom_safe_witness:
  "\<exists>r b' src' ctx' w'. uni_net_udp_server_recvfrom uw_env (Some uw_running) uw_start (Some ''abcd'') 3 None 10
      = Some (r, Some b', src', Some ctx', w') \<and> length b' = 4 \<and> drop (nat r) b' = drop (nat r) ''abcd'' \<and> r < 0 \<and> w' = uw_start"
  using udp_server_recvfrom_safe [OF uw_recvfrom uw_errno, of 3 "''abcd''" uw_running uw_start None 10]
  by (auto simp: uw_running_def uw_server_def uw_config_def)

section \<open>Runs of the server and of stop\<close>

abbreviation uw_s0 :: "udp_wire udp_sys" where
  "uw_s0 \<equiv> (uw_server, T_WAIT, S_IDLE, None, uw_start)"

lemma reach_task:
  assumes "udp_reachable e early s0 (ctx, pc, sp, None, w)" and "udp_task_step e pc ctx w = Some (pc', ctx', w')"
  shows "udp_reachable e early s0 (ctx', pc', sp, None, w')"
  using udp_reachable.step [OF assms(1) udp_step.task [OF assms(2)]] by (simp only: if_cancel)

lemma uw_reach_poll: "udp_reachable uw_env early uw_s0 (uw_running, T_POLL, S_IDLE, None, uw_opened_one)"
proof -
  let ?w1 = "uw_start\<lparr>uw_locks := 1\<rparr>"
  let ?c1 = "uw_server\<lparr>sv_lock := True\<rparr>"
  let ?c2 = "?c1\<lparr>sv_socket := Sock 0\<rparr>"
  let ?c3 = "?c2\<lparr>sv_rx_queue_packets := 5\<rparr>"
  note sim = udp_task_step_def uw_env_def uw_server_def uw_start_def uw_opened_one_def uw_running_def udp_server_zero_def
    socket_valid_def apply_timeouts_def apply_udp_rx_queue_tuning_def udp_rx_queue_packets_value_def Let_def
  have "udp_reachable uw_env early uw_s0 (uw_server, T_CHECK, S_IDLE, None, uw_start)"
    by (rule reach_task [OF udp_reachable.init]) (simp add: sim)
  then have "udp_reachable uw_env early uw_s0 (uw_server, T_CREATE, S_IDLE, None, uw_start)"
    by (rule reach_task) (simp add: sim)
  then have "udp_reachable uw_env early uw_s0 (?c1, T_SOCKET, S_IDLE, None, ?w1)" by (rule reach_task) (simp add: sim)
  then have "udp_reachable uw_env early uw_s0 (?c2, T_OPTIONS, S_IDLE, None, uw_opened_one)"
    by (rule reach_task) (simp add: sim)
  then have "udp_reachable uw_env early uw_s0 (?c3, T_BIND, S_IDLE, None, uw_opened_one)"
    by (rule reach_task) (simp add: sim)
  then have "udp_reachable uw_env early uw_s0 (uw_running, T_INIT_END, S_IDLE, None, uw_opened_one)"
    by (rule reach_task) (simp add: sim)
  then show ?thesis by (rule reach_task) (simp add: sim)
qed

lemma uw_reach_burst:
  "udp_reachable uw_env early uw_s0
     (uw_running, T_BURST (Sock 0) RX_BURST_BUDGET True (replicate RX_BATCH_DEPTH udp_item_zero), S_IDLE, None, uw_opened_one)"
proof -
  note sim = udp_task_step_def uw_server_def uw_running_def udp_server_zero_def uw_config_def
  have "udp_reachable uw_env early uw_s0 (uw_running, T_LOOP, S_IDLE, None, uw_opened_one)"
    by (rule reach_task [OF uw_reach_poll]) (simp add: sim)
  then have "udp_reachable uw_env early uw_s0 (uw_running, T_LOCK, S_IDLE, None, uw_opened_one)"
    by (rule reach_task) (simp add: sim)
  from udp_reachable.step [OF this udp_step.task_lock]
  have "udp_reachable uw_env early uw_s0 (uw_running, T_READ, S_IDLE, Some TASK, uw_opened_one)"
    by (simp add: uw_running_def ctx_lock_def uw_env_def)
  from udp_reachable.step [OF this udp_step.task_read [OF refl]]
  show ?thesis by (simp add: uw_running_def ctx_unlock_def uw_env_def socket_valid_def)
qed

theorem udp_server_socket_open_witness:
  "Sock 0 \<in> uw_opened uw_opened_one \<and> sv_socket uw_running = Sock 0
    \<and> S_IDLE \<notin> {S_LOCK2, S_CLOSE, S_UNLOCK2, S_DELETE, S_DONE}"
  by (rule udp_server_socket_open [OF uw_server_resources uw_started uw_reach_burst])

text \<open>A complete run: the server starts, is stopped while it idles, and all steps of \<^verbatim>\<open>stop\<close> follow.\<close>

lemma uw_reach_done: "udp_reachable uw_env early uw_s0 (udp_server_zero, T_GONE, S_DONE, None, uw_start\<lparr>uw_next := 1\<rparr>)"
proof -
  let ?c = "uw_running\<lparr>sv_stop_requested := True\<rparr>"
  let ?d = "?c\<lparr>sv_task := False\<rparr>"
  let ?w = uw_opened_one
  note s = udp_reachable.step
  note sim = udp_task_step_def uw_env_def uw_running_def uw_server_def udp_server_zero_def uw_config_def ctx_lock_def
    ctx_unlock_def socket_valid_def uw_opened_one_def uw_start_def
  have "udp_reachable uw_env early uw_s0 (?c, T_POLL, S_LOCK1, None, ?w)"
    by (rule s [OF uw_reach_poll udp_step.request]) (simp add: initialising_def)
  then have "udp_reachable uw_env early uw_s0 (?c, T_LOOP, S_LOCK1, None, ?w)" by (rule reach_task) (simp add: sim)
  from s [OF this udp_step.lock1] have "udp_reachable uw_env early uw_s0 (?c, T_LOOP, S_TAKE1, None, ?w)" by (simp add: sim)
  from s [OF this udp_step.take1] have "udp_reachable uw_env early uw_s0 (?c, T_LOOP, S_SETOPT, Some STOPPER, ?w)" by (simp add: sim)
  from s [OF this udp_step.setopt] have "udp_reachable uw_env early uw_s0 (?c, T_LOOP, S_UNLOCK1, Some STOPPER, ?w)" by (simp add: sim)
  from s [OF this udp_step.unlock1] have "udp_reachable uw_env early uw_s0 (?c, T_LOOP, S_JOIN, None, ?w)" by (simp add: sim)
  then have "udp_reachable uw_env early uw_s0 (?c, T_EXIT, S_JOIN, None, ?w)" by (rule reach_task) (simp add: sim)
  then have "udp_reachable uw_env early uw_s0 (?d, T_GONE, S_JOIN, None, ?w)" by (rule reach_task) (simp add: sim)
  from s [OF this udp_step.join] have "udp_reachable uw_env early uw_s0 (?d, T_GONE, S_LOCK2, None, ?w)" by simp
  from s [OF this udp_step.lock2] have "udp_reachable uw_env early uw_s0 (?d, T_GONE, S_CLOSE, Some STOPPER, ?w)" by (simp add: sim)
  from s [OF this udp_step.close]
  have "udp_reachable uw_env early uw_s0 (?d\<lparr>sv_socket := INVALID_SOCKET\<rparr>, T_GONE, S_UNLOCK2, Some STOPPER, ?w\<lparr>uw_socks := {}\<rparr>)"
    by (simp add: sim)
  from s [OF this udp_step.unlock2]
  have "udp_reachable uw_env early uw_s0 (?d\<lparr>sv_socket := INVALID_SOCKET\<rparr>, T_GONE, S_DELETE, None, ?w\<lparr>uw_socks := {}\<rparr>)"
    by (simp add: sim)
  from s [OF this udp_step.delete] show ?thesis by (simp add: sim)
qed

theorem udp_stop_releases_witness:
  "uw_opened (uw_start\<lparr>uw_next := 1\<rparr>) = uw_opened uw_start \<and> uw_locks (uw_start\<lparr>uw_next := 1\<rparr>) = uw_locks uw_start"
  using udp_stop_releases [OF uw_server_resources uw_started uw_reach_done] by blast

theorem udp_stop_returns_witness:
  "udp_rank (uw_running\<lparr>sv_stop_requested := True\<rparr>, T_POLL, S_LOCK1, None, uw_opened_one) < 24
    \<and> \<not> udp_fault (uw_running\<lparr>sv_stop_requested := True\<rparr>, T_POLL, S_LOCK1, None, uw_opened_one)
    \<and> (\<exists>s'. udp_step uw_env False (uw_running\<lparr>sv_stop_requested := True\<rparr>, T_POLL, S_LOCK1, None, uw_opened_one) s')"
proof -
  have "udp_reachable uw_env False uw_s0 (uw_running\<lparr>sv_stop_requested := True\<rparr>, T_POLL, S_LOCK1, None, uw_opened_one)"
    by (rule udp_reachable.step [OF uw_reach_poll udp_step.request]) (simp add: initialising_def)
  from udp_stop_returns [OF uw_server_resources uw_started this] show ?thesis by simp
qed

theorem udp_early_stop_faults_witness:
  "\<exists>s. udp_reachable uw_env True uw_s0 s \<and> udp_fault s"
  by (rule udp_early_stop_faults [OF _ _ uw_started]) (simp_all add: uw_env_def)

end
