(* ===== verification/Spec2Isabelle.thy ===== *)
theory Spec2Isabelle
  imports Uni_Prelude Stream_Buffer Net_Env Fr_Socket Tcp_Socket Tcp_Stream Tcp_Blocking Tcp_Select Http_Common Http_Request Http_Server Http_Safety Http_Delivery Http_Upload Http_Registry Http_On_Tcp Loopback Tcp_Loopback
    Ftp_Client Ftp_Safety Ftp_Protocol Ftp_Transfer Ftp_On_Tcp Ftp_Loopback
    Inet_Addr Udp_Common Udp_Client Udp_Server Udp_Delivery Udp_Server_Task Udp_Loopback
begin

text \<open>
  \<^bold>\<open>A verification development for Uni.Net\<close>

  Uni.Net (\<^verbatim>\<open>src/src\<close>) is a C library of network modules for FreeRTOS: an HTTP server, an FTP client,
  a UDP client and a UDP server.  Each of them runs on the socket calls of FreeRTOS+TCP, which is
  vendored under \<^verbatim>\<open>src/3rdparty/freertos_tcp\<close>.  This development models every function of
  \<^verbatim>\<open>src/src\<close> that has a body, and of the TCP/IP stack the part that the modules lean on directly: the
  circular stream buffer, the stream calls of a TCP socket, the select functions, the check of a socket handle and the
  conversion of addresses.

  \<^bold>\<open>Conventions.\<close>  \<^verbatim>\<open>uint32_t\<close> and \<^verbatim>\<open>size_t\<close> are 32-bit words (the library targets 32-bit
  microcontrollers), so wrap-around is that of the hardware; \<^verbatim>\<open>BaseType_t\<close> results are integers.
  A result \<open>None\<close> is undefined behaviour or a call that never returns: an access outside an array, a
  \<^verbatim>\<open>NULL\<close> dereference, a failed assertion, an endless loop.  A loop whose end is not obvious is a
  \<^theory_text>\<open>partial_function (option)\<close>, and the theorems prove that it returns.  Code that is not in the
  repository (the kernel, the C library, Uni.Common, Uni.Hal) and the parts of the stack below the
  socket calls are fields of an environment record that every operation takes and that acts on an
  abstract world; what the code relies on is a named predicate on the environment, and every theorem
  that uses one is applied to a concrete environment by its witness.

  \<^bold>\<open>Shared theories.\<close>
  \<^item> \<open>Uni_Prelude\<close>: the machine types, memory blocks with bounds-checked reads and writes, C
    minima and decimal printing.
  \<^item> \<open>Net_Env\<close>: socket handles, the environment record of the socket calls and the laws
    \<open>uni_lib_ok\<close> and \<open>recv_bounded\<close>.  \<open>Fr_Socket\<close>: \<^verbatim>\<open>prvValidSocket\<close>.

  \<^bold>\<open>The TCP socket\<close> (\<^verbatim>\<open>FreeRTOS_Stream_Buffer.c\<close>, \<^verbatim>\<open>FreeRTOS_Sockets.c\<close>, one function of \<^verbatim>\<open>FreeRTOS_IP.c\<close>).
  \<^item> \<open>Stream_Buffer\<close>: every operation of the circular buffer with its four markers.  \<open>sb_wf\<close> is its
    invariant and \<open>sb_contents\<close> its contents; the interface \<open>byte_fifo\<close> is interpreted on it, and
    every history of operations is that of a bounded queue.
  \<^item> \<open>Tcp_Socket\<close>: \<^verbatim>\<open>FreeRTOS_send\<close>, \<^verbatim>\<open>FreeRTOS_recv\<close>, \<^verbatim>\<open>FreeRTOS_tx_space\<close>,
    \<^verbatim>\<open>FreeRTOS_issocketconnected\<close> and the helpers below them, the creation of a stream, the release of
    lent payload, and the IP task's side of the two streams (\<^verbatim>\<open>lTCPAddRxdata\<close>, acknowledged bytes).  The loops wait for the
    kernel and may block; the socket of a world is explicit.
  \<^item> \<open>Tcp_Stream\<close>: on a socket in the non-blocking mode of the HTTP server every call returns and a
    socket is two byte queues, whatever the order of the application's and the IP task's calls.
  \<^item> \<open>Tcp_Blocking\<close>: with time-outs set the calls wait; they return as long as time-outs elapse, whatever
    the IP task does to the socket during the waits, and move exactly the bytes they report.
  \<^item> \<open>Tcp_Select\<close>: \<^verbatim>\<open>FreeRTOS_FD_SET\<close>, \<^verbatim>\<open>FreeRTOS_FD_CLR\<close>, \<^verbatim>\<open>FreeRTOS_FD_ISSET\<close>, \<^verbatim>\<open>FreeRTOS_select\<close> and the scan of the
    bound sockets by the IP task (\<^verbatim>\<open>vSocketSelect\<close>).  Select returns and reports exactly the events that
    the sockets of the set have.

  \<^bold>\<open>The HTTP server\<close> (\<^verbatim>\<open>uni_net_http_common.c\<close>, \<^verbatim>\<open>uni_net_http_server.c\<close>).
  \<^item> \<open>Http_Common\<close>: commands, status codes, the table of content types and its look-up.
  \<^item> \<open>Http_Request\<close>: the parser inside \<^verbatim>\<open>_uni_net_http_server_client_work\<close>, one definition per loop;
    the three scans for a line end interpret the interface \<open>crlf_scan\<close>.  It stays inside the receive buffer, waits exactly while the header is incomplete, and undoes
    the printing of a request.
  \<^item> \<open>Http_Server\<close>: replies, the GET and POST state machine, the command map, the client table, the
    select loop, the thread and the public functions, in the order of the file.
  \<^item> \<open>Http_Safety\<close>: the invariants \<open>client_inv\<close>, \<open>ctx_inv\<close> and \<open>server_inv\<close>, kept by every operation;
    any number of rounds of the thread return without a fault.
  \<^item> \<open>Http_Delivery\<close>, \<open>Http_Upload\<close>, \<open>Http_Registry\<close>: what the peer and the handlers see.  A GET sends
    the header and the file, byte for byte and in a bounded number of rounds; a POST hands exactly the body to the handler; a
    registered path is found and an unknown one is answered with 404.
  \<^item> \<open>Http_On_Tcp\<close>: the server's environment instantiated by the model of the TCP socket and of the
    select functions, with the steps of the IP task in between; what the server delivers is what the peer acknowledges.

  \<^bold>\<open>The FTP client\<close> (\<^verbatim>\<open>uni_net_ftp_client.c\<close>).
  \<^item> \<open>Ftp_Client\<close>: the commands, the handlers of the reply codes and their table, the splitting of
    replies into lines, the data loop, the task state machine, the thread and the public functions.
  \<^item> \<open>Ftp_Safety\<close>, \<open>Ftp_Protocol\<close>: rounds of the thread and calls of the public functions as the step
    relation \<open>ftp_step\<close>, with an invariant of all reachable states; login, passive mode and the
    release of the sockets.
  \<^item> \<open>Ftp_Transfer\<close>: a download delivers the bytes of the data connection once and in order, also
    those that arrive meanwhile, and ends.
  \<^item> \<open>Ftp_On_Tcp\<close>: the data loop on the model of the TCP socket, with zero-copy receptions; the IP task
    stores segments between the calls while bytes are lent to the client.

  \<^bold>\<open>The UDP modules\<close> (\<^verbatim>\<open>uni_net_udp_client.c\<close>, \<^verbatim>\<open>uni_net_udp_server.c\<close>).
  \<^item> \<open>Inet_Addr\<close>, \<open>Udp_Common\<close>: byte order, the parser of dotted addresses, endpoints, and the
    interface \<open>timeout_api\<close>, interpreted by the client and the server.
  \<^item> \<open>Udp_Client\<close>: every function with its error paths; nothing leaks and no buffer overflows.
  \<^item> \<open>Udp_Server\<close>, \<open>Udp_Delivery\<close>: batched zero-copy reception, dispatch and statistics; a burst
    delivers each datagram once and returns every network buffer.
  \<^item> \<open>Udp_Server_Task\<close>: the task and \<^verbatim>\<open>uni_net_udp_server_stop\<close> as two threads with program counters
    and a mutex; stop returns in a bounded number of steps and everything is released.

  \<open>Loopback\<close>, \<open>Tcp_Loopback\<close>, \<open>Ftp_Loopback\<close> and \<open>Udp_Loopback\<close> hold one concrete environment each, in
  which the laws hold and the theorems are applied.

  \<^bold>\<open>Bounds.\<close>  The server thread is an endless loop; its model takes the number of rounds, and the theorems
  hold for every number.  The rounds of a file transfer are bounded by the bytes left, the steps of
  a stop by a measure on the two program counters.  A send is modelled for data below 2 GB, since
  \<^verbatim>\<open>FreeRTOS_send\<close> converts the length to a signed integer, and a download for an announced size of
  at most 2 GB, so that the 32-bit progress cannot wrap around.

  \<^bold>\<open>Not modelled.\<close>  The TCP/IP stack below the calls above (segments, windows, ARP, DHCP, DNS, drivers,
  buffer allocation) is vendored code that the modules reach only through the socket calls; its
  UDP calls and connection set-up are parameters.  Debug output has no effect on the
  state and is left out.  \<^verbatim>\<open>set_broadcast\<close>, \<^verbatim>\<open>get_broadcast\<close> and \<^verbatim>\<open>set_checksum_disable\<close> of the UDP
  modules are declared in their headers but defined nowhere.  Delays and priorities are not
  observable in the model, and tasks are scheduled in any order.
\<close>

end
